(* ===== verification/Prelude.thy ===== *)
theory Prelude
  imports Main
begin

text \<open>
  Shared vocabulary of the development: the types that name addresses and connections,
  the two JavaScript built-ins the sources lean on (\<open>String.prototype.toLowerCase\<close>,
  restricted to the ASCII alphabet of hexadecimal addresses, and the decimal printing of
  a non-negative \<open>number\<close> that string concatenation performs), their algebraic
  laws, and small list lemmas used by the queue reasoning of the cache theories.
  The collection \<open>eval_simps\<close> gathers the facts a witness needs to evaluate a
  concrete term by \<open>simp\<close>.
\<close>

named_theorems eval_simps "facts that let simp evaluate concrete model terms"

type_synonym addr = string
type_synonym conn = nat

section \<open>Lower-casing (JavaScript toLowerCase on ASCII)\<close>

definition lower_char :: "char \<Rightarrow> char" where
  "lower_char c =
     (let n = (of_char c :: nat) in if 65 \<le> n \<and> n \<le> 90 then char_of (n + 32) else c)"

definition to_lower :: "string \<Rightarrow> string" where
  "to_lower s = map lower_char s"

section \<open>Decimal printing of numbers (JavaScript Number toString)\<close>

fun dec_string :: "nat \<Rightarrow> string" where
  "dec_string n =
     (if n < 10 then [char_of (48 + n)] else dec_string (n div 10) @ [char_of (48 + n mod 10)])"

declare dec_string.simps [simp del]
declare dec_string.simps [eval_simps]

text \<open>The inverse reading, used only to prove that printing loses no information.\<close>

definition digit_val :: "char \<Rightarrow> nat" where
  "digit_val c = of_char c - 48"

definition parse_dec :: "string \<Rightarrow> nat" where
  "parse_dec s = foldl (\<lambda>acc c. 10 * acc + digit_val c) 0 s"

section \<open>Lists\<close>

text \<open>Removing the element at a position, as a resolved promise leaves a queue.\<close>

definition remove_at :: "nat \<Rightarrow> 'a list \<Rightarrow> 'a list" where
  "remove_at i xs = take i xs @ drop (Suc i) xs"

section \<open>Laws of the built-ins\<close>

lemma lower_char_idem [simp]: "lower_char (lower_char c) = lower_char c"
  by (auto simp: lower_char_def Let_def)

lemma to_lower_idem [simp]: "to_lower (to_lower s) = to_lower s"
  by (simp add: to_lower_def)

lemma to_lower_append: "to_lower (s @ t) = to_lower s @ to_lower t"
  by (simp add: to_lower_def)

lemma length_to_lower [simp]: "length (to_lower s) = length s"
  by (simp add: to_lower_def)

lemma lower_set_fixed: "a \<in> to_lower ` A \<Longrightarrow> to_lower a = a"
  by auto

declare char_of_def [eval_simps] bit_iff_odd [eval_simps] Let_def [eval_simps]
  lower_char_def [eval_simps] to_lower_def [eval_simps]

lemma digit_val_char [simp]: "d < 10 \<Longrightarrow> digit_val (char_of (48 + d)) = d"
  by (simp add: digit_val_def)

lemma parse_dec_snoc: "parse_dec (s @ [c]) = 10 * parse_dec s + digit_val c"
  by (simp add: parse_dec_def)

theorem parse_dec_string [simp]: "parse_dec (dec_string n) = n"
proof (induction n rule: dec_string.induct)
  case (1 n)
  show ?case
  proof (cases "n < 10")
    case True
    then show ?thesis by (simp add: dec_string.simps [of n] parse_dec_def)
  next
    case False
    then have "parse_dec (dec_string n) = 10 * parse_dec (dec_string (n div 10)) + n mod 10"
      by (simp add: dec_string.simps [of n] parse_dec_snoc)
    with "1.IH" False show ?thesis by simp
  qed
qed

lemma dec_string_inj: "dec_string a = dec_string b \<longleftrightarrow> a = b"
  by (metis parse_dec_string)

lemma dec_string_suffix_inj:
  "p @ dec_string a = p @ dec_string b \<longleftrightarrow> a = b"
  by (simp add: dec_string_inj)

lemma set_remove_at_subset: "set (remove_at i xs) \<subseteq> set xs"
  by (auto simp: remove_at_def dest: in_set_takeD in_set_dropD)

lemma length_remove_at [simp]: "i < length xs \<Longrightarrow> length (remove_at i xs) = length xs - 1"
  by (simp add: remove_at_def)

lemma nth_remove_at:
  "i < length xs \<Longrightarrow> j < length xs - 1 \<Longrightarrow>
     remove_at i xs ! j = (if j < i then xs ! j else xs ! Suc j)"
  by (auto simp: remove_at_def nth_append min_def)

lemma remove_at_0 [simp]: "remove_at 0 (x # xs) = xs"
  by (simp add: remove_at_def)

lemma remove_at_Suc [simp]: "remove_at (Suc i) (x # xs) = x # remove_at i xs"
  by (simp add: remove_at_def)

lemma sorted_wrt_remove_at: "sorted_wrt P xs \<Longrightarrow> sorted_wrt P (remove_at i xs)"
proof -
  assume s: "sorted_wrt P xs"
  have "xs = take i xs @ drop i xs" by simp
  with s have a: "sorted_wrt P (take i xs)" and b: "sorted_wrt P (drop i xs)"
    and c: "\<forall>x \<in> set (take i xs). \<forall>y \<in> set (drop i xs). P x y"
    using sorted_wrt_append [of P "take i xs" "drop i xs"] by auto
  have d: "set (drop (Suc i) xs) \<subseteq> set (drop i xs)" by (rule set_drop_subset_set_drop) simp
  have "sorted_wrt P (drop (Suc i) xs)" using s by (simp add: sorted_wrt_drop)
  with a c d show ?thesis by (auto simp: remove_at_def sorted_wrt_append)
qed

lemma sorted_wrt_update:
  assumes "sorted_wrt P xs" "\<forall>j<i. P (xs ! j) y" "\<forall>j<length xs. i < j \<longrightarrow> P y (xs ! j)"
  shows "sorted_wrt P (xs[i := y])"
  unfolding sorted_wrt_iff_nth_less
proof (intro allI impI)
  fix a b assume ab: "a < b" "b < length (xs[i := y])"
  show "P (xs[i := y] ! a) (xs[i := y] ! b)"
    using assms ab by (cases "a = i"; cases "b = i") (auto simp: nth_list_update sorted_wrt_iff_nth_less)
qed

text \<open>Decimal digits are fixed points of lower-casing.\<close>

lemma lower_char_digit: "(d::nat) < 10 \<Longrightarrow> lower_char (char_of (48 + d)) = char_of (48 + d)"
  by (simp add: lower_char_def Let_def of_char_of)

lemma to_lower_dec_string [simp]: "to_lower (dec_string n) = dec_string n"
proof (induction n rule: dec_string.induct)
  case (1 n)
  then show ?case
    by (simp add: dec_string.simps [of n] to_lower_append lower_char_digit)
       (simp add: to_lower_def lower_char_digit)
qed

declare remove_at_def [eval_simps]

text \<open>Bounded quantifiers over a numeral range unfold one index at a time.\<close>

lemma all_less_Suc_eval [eval_simps]: "(\<forall>j<Suc n. P j) \<longleftrightarrow> (\<forall>j<n. P j) \<and> P n"
  by (auto simp: less_Suc_eq)

lemma all_less_numeral_eval [eval_simps]:
  "(\<forall>j<numeral k. P j) \<longleftrightarrow> (\<forall>j<pred_numeral k. P j) \<and> P (pred_numeral k)"
  by (simp add: numeral_eq_Suc all_less_Suc_eval)

end
