(* ===== verification/RedisStore.thy ===== *)
theory RedisStore
  imports Prelude
begin

text \<open>
  The remote key-value store the caches mirror (Redis, reached through
  \<open>getRedisInstance\<close> of \<open>src/utils/Redis.ts\<close>, a file that is not part of the
  sources): the part of its command surface the caches use, \<open>SMEMBERS\<close>, \<open>SADD\<close> and
  \<open>SUBSCRIBE\<close>, and its keyspace notifications. This theory is modelled from the
  specification (section 6 of the spec) and from the documented Redis semantics, not from
  repository code. A store maps every key to a set of members; a command is served
  atomically and yields the new store, the reply and the keyspace events it publishes.
\<close>

type_synonym rstore = "string \<Rightarrow> addr set"

datatype cmd = SMembers string | SAdd string addr | Subscribe string

datatype reply = RMembers "addr set" | RAdded bool | RSubscribed | RError

text \<open>Redis publishes keyspace events of database 0 on \<open>__keyspace@0__:<key>\<close>.\<close>

definition redis_keyspace :: "string \<Rightarrow> string" where
  "redis_keyspace k = ''__keyspace@0__:'' @ k"

text \<open>\<open>SADD\<close> reports whether the member was new; only then is an event sent.\<close>

definition sadd :: "string \<Rightarrow> addr \<Rightarrow> rstore \<Rightarrow> rstore \<times> bool" where
  "sadd k x st = (if x \<in> st k then (st, False) else (st(k := insert x (st k)), True))"

fun serve_cmd :: "cmd \<Rightarrow> rstore \<Rightarrow> rstore \<times> reply \<times> (string \<times> string) list" where
  "serve_cmd (SMembers k) st = (st, RMembers (st k), [])"
| "serve_cmd (SAdd k x) st =
     (let (st', added) = sadd k x st
      in (st', RAdded added, if added then [(redis_keyspace k, ''sadd'')] else []))"
| "serve_cmd (Subscribe ch) st = (st, RSubscribed, [])"

text \<open>A store only grows: no command the caches or other clients issue removes a member.\<close>

definition store_le :: "rstore \<Rightarrow> rstore \<Rightarrow> bool" where
  "store_le st st' \<longleftrightarrow> (\<forall>k. st k \<subseteq> st' k)"

declare redis_keyspace_def [eval_simps] sadd_def [eval_simps]

lemma store_le_refl [simp]: "store_le st st"
  by (simp add: store_le_def)

lemma store_le_trans: "store_le a b \<Longrightarrow> store_le b c \<Longrightarrow> store_le a c"
  by (auto simp: store_le_def)

lemma sadd_grows: "store_le st (fst (sadd k x st))"
  by (auto simp: sadd_def store_le_def)

lemma sadd_member: "x \<in> fst (sadd k x st) k"
  by (simp add: sadd_def)

lemma sadd_other [simp]: "k' \<noteq> k \<Longrightarrow> fst (sadd k x st) k' = st k'"
  by (simp add: sadd_def)

lemma sadd_exact: "fst (sadd k x st) k = insert x (st k)"
  by (auto simp: sadd_def)

lemma serve_cmd_grows: "store_le st (fst (serve_cmd c st))"
  by (cases c) (auto simp: store_le_def sadd_def split: prod.splits if_splits)

lemma serve_cmd_SAdd:
  "serve_cmd (SAdd k x) st =
     (fst (sadd k x st), RAdded (snd (sadd k x st)),
      if snd (sadd k x st) then [(redis_keyspace k, ''sadd'')] else [])"
  by (simp split: prod.splits)

lemma serve_cmd_reply_SAdd: "fst (snd (serve_cmd (SAdd k x) st)) = RAdded (x \<notin> st k)"
  by (simp add: serve_cmd_SAdd sadd_def)

end
