(* ===== verification/MembershipCache.thy ===== *)
theory MembershipCache
  imports RedisStore
begin

text \<open>
  The membership cache of \<open>src/utils/SyncswapCache.ts\<close> (class \<open>SyncswapCache\<close>) and
  \<open>src/utils/WalletCache.ts\<close> (class \<open>WalletCache\<close>): the two files are the same class
  up to the cache key, the log strings, the name of the bulk query, and the method
  \<open>addPool\<close>, which only \<open>SyncswapCache\<close> has. One generic model covers both.

  The class runs on the JavaScript event loop: its asynchronous methods stop at each
  \<open>await\<close> and go on when the awaited promise settles. The model makes that explicit.
  A \<open>world\<close> holds the cache object, the remote store, the commands in flight with the
  continuation (\<open>kont\<close>) that runs when each reply arrives, the initialisations waiting for
  their two connections, and the keyspace messages waiting for delivery. Each
  \<^theory_text>\<open>definition\<close> below is the code that runs between two suspension points, and
  \<open>cstep\<close> is the interleaving: any enabled step may come next. Replies on one connection
  arrive in the order the commands were sent, and the server serves them in that order.
  Each \<open>world\<close> also keeps two ghost fields that only record what happened:
  \<open>loads\<close> counts the full loads issued, and \<open>out\<close> lists what each call
  returned to its caller.
\<close>

section \<open>State\<close>

text \<open>Who awaits an \<open>initialize()\<close> call: the constructor, or a bulk check.\<close>

datatype waiter = Ctor | BulkCaller "addr list"

text \<open>What runs when the reply to a command arrives.\<close>

datatype kont =
    KInitLoad waiter      \<comment> \<open>\<open>initialize\<close> awaiting \<open>updateInMemoryCache\<close>\<close>
  | KInitSub waiter       \<comment> \<open>\<open>initialize\<close> awaiting \<open>subscribeToSetOperations\<close>\<close>
  | KReload               \<comment> \<open>\<open>updateInMemoryCache\<close> started by a notification\<close>
  | KAddPool addr         \<comment> \<open>\<open>addPool\<close> awaiting \<open>sAdd\<close>\<close>

record pending =
  p_conn :: conn
  p_cmd :: cmd
  p_kont :: kont
  p_reply :: "reply option"

datatype outcome =
    BulkReturned "addr list" "addr set"
  | BulkRejected "addr list"
  | PoolAdded addr
  | PoolRejected addr
  | InitFailed

text \<open>The fields of the class (the stored \<open>initializationPromise\<close> is never awaited).\<close>

record cache =
  cache_key :: string
  redis_command :: "conn option"
  redis_sub :: "conn option"
  in_memory_cache :: "addr set"

record world =
  cch :: cache
  store :: rstore
  subs :: "(conn \<times> string) list"
  inbox :: "string list"
  pend :: "pending list"
  connecting :: "waiter list"
  next_conn :: conn
  node_test :: bool
  loads :: nat
  out :: "outcome list"

section \<open>Operations\<close>

definition keyspace_channel :: "cache \<Rightarrow> string" where
  "keyspace_channel c = ''__keyspace@0__:'' @ cache_key c"

fun bulk_loop :: "addr set \<Rightarrow> addr list \<Rightarrow> addr set \<Rightarrow> addr set" where
  "bulk_loop mem [] acc = acc"
| "bulk_loop mem (a # as) acc = bulk_loop mem as (if a \<in> mem then insert a acc else acc)"

definition bulk_result :: "addr set \<Rightarrow> addr list \<Rightarrow> addr set" where
  "bulk_result mem addrs = bulk_loop mem (map to_lower addrs) {}"

definition log_out :: "outcome \<Rightarrow> world \<Rightarrow> world" where
  "log_out e w = w\<lparr>out := out w @ [e]\<rparr>"

definition set_mirror :: "addr set \<Rightarrow> world \<Rightarrow> world" where
  "set_mirror m w = w\<lparr>cch := (cch w)\<lparr>in_memory_cache := m\<rparr>\<rparr>"

definition bulk_return :: "addr list \<Rightarrow> world \<Rightarrow> world" where
  "bulk_return addrs w = log_out (BulkReturned addrs (bulk_result (in_memory_cache (cch w)) addrs)) w"

definition resolve_init :: "waiter \<Rightarrow> world \<Rightarrow> world" where
  "resolve_init wt w = (case wt of Ctor \<Rightarrow> w | BulkCaller addrs \<Rightarrow> bulk_return addrs w)"

definition reject_init :: "waiter \<Rightarrow> world \<Rightarrow> world" where
  "reject_init wt w =
     (case wt of Ctor \<Rightarrow> log_out InitFailed w | BulkCaller addrs \<Rightarrow> log_out (BulkRejected addrs) w)"

definition send :: "conn \<Rightarrow> cmd \<Rightarrow> kont \<Rightarrow> world \<Rightarrow> world" where
  "send c m k w = w\<lparr>pend := pend w @ [\<lparr>p_conn = c, p_cmd = m, p_kont = k, p_reply = None\<rparr>]\<rparr>"

definition subscribe_to_set_operations :: "waiter \<Rightarrow> world \<Rightarrow> world" where
  "subscribe_to_set_operations wt w =
     (case redis_sub (cch w) of
        None \<Rightarrow> resolve_init wt w
      | Some s \<Rightarrow> send s (Subscribe (keyspace_channel (cch w))) (KInitSub wt) w)"

fun resume :: "kont \<Rightarrow> reply \<Rightarrow> world \<Rightarrow> world" where
  "resume (KInitLoad wt) r w =
     (case r of RMembers m \<Rightarrow> subscribe_to_set_operations wt (set_mirror m w)
              | _ \<Rightarrow> reject_init wt w)"
| "resume (KInitSub wt) r w = resolve_init wt w"
| "resume KReload r w = (case r of RMembers m \<Rightarrow> set_mirror m w | _ \<Rightarrow> w)"
| "resume (KAddPool x) r w =
     (case r of RAdded b \<Rightarrow> log_out (PoolAdded x) (set_mirror (insert x (in_memory_cache (cch w))) w)
              | _ \<Rightarrow> log_out (PoolRejected x) w)"

definition update_in_memory_cache :: "kont \<Rightarrow> world \<Rightarrow> world" where
  "update_in_memory_cache k w =
     (case redis_command (cch w) of
        None \<Rightarrow> resume k RError w
      | Some c \<Rightarrow> (send c (SMembers (cache_key (cch w))) k w)\<lparr>loads := Suc (loads w)\<rparr>)"

definition initialize :: "waiter \<Rightarrow> world \<Rightarrow> world" where
  "initialize wt w =
     (if node_test w then resolve_init wt w
      else if redis_command (cch w) \<noteq> None \<and> redis_sub (cch w) \<noteq> None then resolve_init wt w
      else w\<lparr>connecting := connecting w @ [wt]\<rparr>)"

definition connections_opened :: "nat \<Rightarrow> world \<Rightarrow> world" where
  "connections_opened i w =
     (let wt = connecting w ! i; c = next_conn w
      in update_in_memory_cache (KInitLoad wt)
           (w\<lparr>connecting := remove_at i (connecting w), next_conn := next_conn w + 2,
              cch := (cch w)\<lparr>redis_command := Some c, redis_sub := Some (Suc c)\<rparr>\<rparr>))"

definition connection_failed :: "nat \<Rightarrow> world \<Rightarrow> world" where
  "connection_failed i w =
     reject_init (connecting w ! i) (w\<lparr>connecting := remove_at i (connecting w)\<rparr>)"

definition bulk_check :: "addr list \<Rightarrow> world \<Rightarrow> world" where
  "bulk_check addrs w =
     (if redis_command (cch w) = None then initialize (BulkCaller addrs) w
      else bulk_return addrs w)"

definition add_pool :: "addr \<Rightarrow> world \<Rightarrow> world" where
  "add_pool pool w =
     (let lp = to_lower pool
      in case redis_command (cch w) of
           None \<Rightarrow> log_out (PoolRejected lp) w
         | Some c \<Rightarrow> send c (SAdd (cache_key (cch w)) lp) (KAddPool lp) w)"

definition on_message :: "string \<Rightarrow> world \<Rightarrow> world" where
  "on_message m w = (if m \<noteq> ''sadd'' then w else update_in_memory_cache KReload w)"

definition new_cache :: "string \<Rightarrow> bool \<Rightarrow> rstore \<Rightarrow> world" where
  "new_cache k t st =
     initialize Ctor
       \<lparr>cch = \<lparr>cache_key = k, redis_command = None, redis_sub = None, in_memory_cache = {}\<rparr>,
        store = st, subs = [], inbox = [], pend = [], connecting = [], next_conn = 0,
        node_test = t, loads = 0, out = []\<rparr>"

definition wallet_cache :: "bool \<Rightarrow> rstore \<Rightarrow> world" where
  "wallet_cache t st = new_cache ''clave:wallets'' t st"

definition syncswap_cache :: "bool \<Rightarrow> rstore \<Rightarrow> world" where
  "syncswap_cache t st = new_cache ''syncswap:pools'' t st"

section \<open>The remote side and the scheduler\<close>

text \<open>A published keyspace event reaches this cache once per subscription it holds.\<close>

definition publish :: "(string \<times> string) list \<Rightarrow> world \<Rightarrow> world" where
  "publish evs w =
     w\<lparr>inbox := inbox w @
        concat (map (\<lambda>(ch, m). replicate (length (filter (\<lambda>(s, ch'). ch' = ch) (subs w))) m) evs)\<rparr>"

definition can_serve :: "world \<Rightarrow> nat \<Rightarrow> bool" where
  "can_serve w i \<longleftrightarrow> i < length (pend w) \<and> p_reply (pend w ! i) = None \<and>
     (\<forall>j<i. p_conn (pend w ! j) = p_conn (pend w ! i) \<longrightarrow> p_reply (pend w ! j) \<noteq> None)"

definition serve :: "nat \<Rightarrow> bool \<Rightarrow> world \<Rightarrow> world" where
  "serve i ok w =
     (let p = pend w ! i
      in if \<not> ok then w\<lparr>pend := (pend w)[i := p\<lparr>p_reply := Some RError\<rparr>]\<rparr>
         else (case serve_cmd (p_cmd p) (store w) of
                 (st', r, evs) \<Rightarrow>
                   publish evs
                     (w\<lparr>store := st', pend := (pend w)[i := p\<lparr>p_reply := Some r\<rparr>],
                        subs := subs w @ (case p_cmd p of Subscribe ch \<Rightarrow> [(p_conn p, ch)] | _ \<Rightarrow> [])\<rparr>)))"

definition can_deliver :: "world \<Rightarrow> nat \<Rightarrow> bool" where
  "can_deliver w i \<longleftrightarrow> i < length (pend w) \<and> p_reply (pend w ! i) \<noteq> None \<and>
     (\<forall>j<i. p_conn (pend w ! j) \<noteq> p_conn (pend w ! i))"

definition deliver :: "nat \<Rightarrow> world \<Rightarrow> world" where
  "deliver i w =
     (let p = pend w ! i
      in case p_reply p of
           None \<Rightarrow> w
         | Some r \<Rightarrow> resume (p_kont p) r (w\<lparr>pend := remove_at i (pend w)\<rparr>))"

definition deliver_note :: "world \<Rightarrow> world" where
  "deliver_note w = (case inbox w of [] \<Rightarrow> w | m # ms \<Rightarrow> on_message m (w\<lparr>inbox := ms\<rparr>))"

definition ext_sadd :: "string \<Rightarrow> addr \<Rightarrow> world \<Rightarrow> world" where
  "ext_sadd k x w =
     (case serve_cmd (SAdd k x) (store w) of (st', r, evs) \<Rightarrow> publish evs (w\<lparr>store := st'\<rparr>))"

definition ext_event :: "string \<Rightarrow> string \<Rightarrow> world \<Rightarrow> world" where
  "ext_event k m w = publish [(redis_keyspace k, m)] w"

inductive cstep :: "world \<Rightarrow> world \<Rightarrow> bool" where
  bulk: "cstep w (bulk_check addrs w)"
| add: "cache_key (cch w) = ''syncswap:pools'' \<Longrightarrow> cstep w (add_pool x w)"
| opened: "i < length (connecting w) \<Longrightarrow> cstep w (connections_opened i w)"
| refused: "i < length (connecting w) \<Longrightarrow> cstep w (connection_failed i w)"
| served: "can_serve w i \<Longrightarrow> cstep w (serve i ok w)"
| replied: "can_deliver w i \<Longrightarrow> cstep w (deliver i w)"
| notified: "inbox w \<noteq> [] \<Longrightarrow> cstep w (deliver_note w)"
| other_add: "cstep w (ext_sadd k x w)"
| other_event: "m \<noteq> ''sadd'' \<Longrightarrow> cstep w (ext_event k m w)"

inductive reach :: "world \<Rightarrow> bool" where
  init: "reach (new_cache k t st)"
| step: "reach w \<Longrightarrow> cstep w w' \<Longrightarrow> reach w'"

lemmas op_defs =
  log_out_def set_mirror_def bulk_return_def resolve_init_def reject_init_def send_def
  subscribe_to_set_operations_def update_in_memory_cache_def initialize_def
  connections_opened_def connection_failed_def bulk_check_def add_pool_def on_message_def
  publish_def serve_def deliver_def deliver_note_def ext_sadd_def ext_event_def

declare op_defs [eval_simps] new_cache_def [eval_simps] keyspace_channel_def [eval_simps]
  bulk_result_def [eval_simps] can_serve_def [eval_simps] can_deliver_def [eval_simps]

end
