(* ===== verification/CacheSafety.thy ===== *)
theory CacheSafety
  imports MembershipCache
begin

text \<open>
  Safety of the membership cache under every interleaving of \<open>cstep\<close>: the frame facts
  (the cache key never changes, the remote store only grows, connection numbers and the
  load counter only grow), and the invariant of section 3 of the spec that the local
  mirror never holds a member the remote set lacks. The invariant needs a stronger
  companion: every command in flight carries the command its continuation expects, and
  every reply already produced by the server is still true of the current store.
\<close>

section \<open>The invariant\<close>

fun kont_fits :: "string \<Rightarrow> kont \<Rightarrow> cmd \<Rightarrow> bool" where
  "kont_fits key (KInitLoad wt) c = (c = SMembers key)"
| "kont_fits key (KInitSub wt) c = True"
| "kont_fits key KReload c = (c = SMembers key)"
| "kont_fits key (KAddPool x) c = (c = SAdd key x)"

fun reply_sound :: "rstore \<Rightarrow> cmd \<Rightarrow> reply \<Rightarrow> bool" where
  "reply_sound st (SMembers k) r = (case r of RMembers m \<Rightarrow> m \<subseteq> st k | RError \<Rightarrow> True | _ \<Rightarrow> False)"
| "reply_sound st (SAdd k x) r = (case r of RAdded b \<Rightarrow> x \<in> st k | RError \<Rightarrow> True | _ \<Rightarrow> False)"
| "reply_sound st (Subscribe ch) r = (r = RSubscribed \<or> r = RError)"

definition pending_ok :: "string \<Rightarrow> rstore \<Rightarrow> pending \<Rightarrow> bool" where
  "pending_ok key st p \<longleftrightarrow> kont_fits key (p_kont p) (p_cmd p) \<and>
     (case p_reply p of None \<Rightarrow> True | Some r \<Rightarrow> reply_sound st (p_cmd p) r)"

definition mirror_sound :: "world \<Rightarrow> bool" where
  "mirror_sound w \<longleftrightarrow> in_memory_cache (cch w) \<subseteq> store w (cache_key (cch w)) \<and>
     (\<forall>p \<in> set (pend w). pending_ok (cache_key (cch w)) (store w) p)"

section \<open>Frame facts\<close>

lemma resume_frame:
  "cache_key (cch (resume k r w)) = cache_key (cch w) \<and> store (resume k r w) = store w \<and>
   next_conn (resume k r w) = next_conn w \<and> node_test (resume k r w) = node_test w"
  by (cases k) (auto simp: op_defs split: reply.splits waiter.splits option.splits)

lemma update_in_memory_cache_frame:
  "cache_key (cch (update_in_memory_cache k w)) = cache_key (cch w) \<and>
   store (update_in_memory_cache k w) = store w \<and>
   next_conn (update_in_memory_cache k w) = next_conn w"
  by (simp add: update_in_memory_cache_def send_def resume_frame split: option.splits)

lemma publish_frame [simp]:
  "cch (publish evs w) = cch w" "store (publish evs w) = store w" "pend (publish evs w) = pend w"
  "next_conn (publish evs w) = next_conn w" "subs (publish evs w) = subs w"
  "connecting (publish evs w) = connecting w" "loads (publish evs w) = loads w"
  "out (publish evs w) = out w"
  by (simp_all add: publish_def)

lemma cstep_key: "cstep w w' \<Longrightarrow> cache_key (cch w') = cache_key (cch w)"
  by (induction rule: cstep.induct)
     (auto simp: op_defs Let_def resume_frame update_in_memory_cache_frame [unfolded update_in_memory_cache_def]
           split: option.splits list.splits waiter.splits prod.splits)

lemma cstep_store: "cstep w w' \<Longrightarrow> store_le (store w) (store w')"
proof (induction rule: cstep.induct)
  case (served w i ok)
  show ?case
    using serve_cmd_grows [where c = "p_cmd (pend w ! i)" and st = "store w"]
    by (auto simp: serve_def Let_def split: prod.splits)
next
  case (other_add w k x)
  show ?case
    using serve_cmd_grows [where c = "SAdd k x" and st = "store w"]
    by (auto simp: ext_sadd_def split: prod.splits)
next
  case (replied w i)
  show ?case by (auto simp: deliver_def Let_def resume_frame split: option.splits)
next
  case (notified w)
  show ?case
    by (auto simp: deliver_note_def on_message_def update_in_memory_cache_frame split: list.splits)
qed (auto simp: op_defs Let_def resume_frame update_in_memory_cache_frame [unfolded update_in_memory_cache_def]
          split: option.splits waiter.splits)

section \<open>The bulk query\<close>

lemma bulk_loop_eq: "bulk_loop mem as acc = acc \<union> (set as \<inter> mem)"
  by (induction as arbitrary: acc) auto

lemma bulk_result_subset: "bulk_result mem addrs \<subseteq> mem"
  by (simp add: bulk_result_def bulk_loop_eq)

text \<open>C15: The bulk query (\<open>bulkCheckSyncswapPools\<close>, \<open>bulkCheckClaveWallets\<close>)
  returns exactly the lower-cased forms of the queried addresses that are in the mirror:
  an address queried in several letter cases is reported once, in lower case, and only
  mirrored members are reported.\<close>

theorem bulk_result_exact: "bulk_result mem addrs = to_lower ` set addrs \<inter> mem"
  by (simp add: bulk_result_def bulk_loop_eq)

section \<open>The mirror holds only remote members\<close>

lemma reply_sound_mono: "reply_sound st c r \<Longrightarrow> store_le st st' \<Longrightarrow> reply_sound st' c r"
  by (cases c) (auto simp: store_le_def split: reply.splits)

lemma pending_ok_mono: "pending_ok key st p \<Longrightarrow> store_le st st' \<Longrightarrow> pending_ok key st' p"
  by (auto simp: pending_ok_def reply_sound_mono split: option.splits)

lemma serve_cmd_sound:
  "serve_cmd c st = (st', r, evs) \<Longrightarrow> reply_sound st' c r"
  by (cases c) (auto simp: sadd_def split: if_splits)

lemma mirror_sound_fields [simp]:
  "mirror_sound (w\<lparr>connecting := a\<rparr>) = mirror_sound w"
  "mirror_sound (w\<lparr>inbox := b\<rparr>) = mirror_sound w"
  "mirror_sound (w\<lparr>connecting := a, next_conn := n,
     cch := (cch w)\<lparr>redis_command := c, redis_sub := d\<rparr>\<rparr>) = mirror_sound w"
  by (simp_all add: mirror_sound_def)

lemma mirror_sound_log [simp]: "mirror_sound (log_out e w) = mirror_sound w"
  by (simp add: mirror_sound_def log_out_def)

lemma mirror_sound_publish [simp]: "mirror_sound (publish evs w) = mirror_sound w"
  by (simp add: mirror_sound_def)

lemma mirror_sound_resolve: "mirror_sound w \<Longrightarrow> mirror_sound (resolve_init wt w)"
  by (simp add: resolve_init_def bulk_return_def split: waiter.splits)

lemma mirror_sound_reject: "mirror_sound w \<Longrightarrow> mirror_sound (reject_init wt w)"
  by (simp add: reject_init_def split: waiter.splits)

lemma mirror_sound_send:
  "mirror_sound w \<Longrightarrow> kont_fits (cache_key (cch w)) k m \<Longrightarrow> mirror_sound (send c m k w)"
  by (simp add: mirror_sound_def send_def pending_ok_def)

lemma mirror_sound_set_mirror:
  "mirror_sound w \<Longrightarrow> m \<subseteq> store w (cache_key (cch w)) \<Longrightarrow> mirror_sound (set_mirror m w)"
  by (simp add: mirror_sound_def set_mirror_def)

lemma mirror_sound_subscribe:
  "mirror_sound w \<Longrightarrow> mirror_sound (subscribe_to_set_operations wt w)"
  by (simp add: subscribe_to_set_operations_def mirror_sound_resolve mirror_sound_send
         split: option.splits)

lemma mirror_sound_insert:
  "mirror_sound w \<Longrightarrow> x \<in> store w (cache_key (cch w)) \<Longrightarrow>
   mirror_sound (set_mirror (insert x (in_memory_cache (cch w))) w)"
  by (rule mirror_sound_set_mirror) (auto simp: mirror_sound_def)

lemma mirror_sound_loads [simp]: "mirror_sound (w\<lparr>loads := n\<rparr>) = mirror_sound w"
  by (simp add: mirror_sound_def)

lemma mirror_sound_resume:
  assumes "mirror_sound w" "kont_fits (cache_key (cch w)) k c" "reply_sound (store w) c r"
  shows "mirror_sound (resume k r w)"
  using assms
  by (cases k; cases r)
     (auto intro!: mirror_sound_subscribe mirror_sound_set_mirror mirror_sound_reject
        mirror_sound_resolve mirror_sound_insert)

lemma mirror_sound_update:
  assumes "mirror_sound w" "kont_fits (cache_key (cch w)) k (SMembers (cache_key (cch w)))"
  shows "mirror_sound (update_in_memory_cache k w)"
proof (cases "redis_command (cch w)")
  case None
  have "reply_sound (store w) (SMembers (cache_key (cch w))) RError" by simp
  with assms None show ?thesis
    by (simp add: update_in_memory_cache_def mirror_sound_resume)
next
  case (Some c)
  with assms show ?thesis
    by (simp add: update_in_memory_cache_def mirror_sound_send)
qed

lemma mirror_sound_grow:
  "mirror_sound w \<Longrightarrow> store_le (store w) st' \<Longrightarrow> mirror_sound (w\<lparr>store := st'\<rparr>)"
  by (auto simp: mirror_sound_def store_le_def intro: pending_ok_mono)

lemma mirror_sound_initialize: "mirror_sound w \<Longrightarrow> mirror_sound (initialize wt w)"
  by (simp add: initialize_def mirror_sound_resolve)

lemma mirror_sound_pend_update:
  assumes "mirror_sound w" "pending_ok (cache_key (cch w)) (store w) q"
  shows "mirror_sound (w\<lparr>pend := (pend w)[i := q]\<rparr>)"
proof -
  have "set ((pend w)[i := q]) \<subseteq> insert q (set (pend w))" by (rule set_update_subset_insert)
  with assms show ?thesis by (auto simp: mirror_sound_def)
qed

lemma mirror_sound_serve:
  assumes inv: "mirror_sound w" and i: "can_serve w i"
  shows "mirror_sound (serve i ok w)"
proof -
  let ?p = "pend w ! i" and ?key = "cache_key (cch w)"
  from i have p: "?p \<in> set (pend w)" by (simp add: can_serve_def)
  with inv have fits: "kont_fits ?key (p_kont ?p) (p_cmd ?p)"
    by (simp add: mirror_sound_def pending_ok_def)
  show ?thesis
  proof (cases ok)
    case False
    have "reply_sound (store w) (p_cmd ?p) RError" by (cases "p_cmd ?p") simp_all
    with fits have "pending_ok ?key (store w) (?p\<lparr>p_reply := Some RError\<rparr>)"
      by (simp add: pending_ok_def)
    with inv have "mirror_sound (w\<lparr>pend := (pend w)[i := ?p\<lparr>p_reply := Some RError\<rparr>]\<rparr>)"
      by (rule mirror_sound_pend_update)
    with False show ?thesis by (simp add: serve_def Let_def)
  next
    case True
    obtain st' r evs where sc: "serve_cmd (p_cmd ?p) (store w) = (st', r, evs)"
      by (cases "serve_cmd (p_cmd ?p) (store w)") auto
    have le: "store_le (store w) st'" using serve_cmd_grows [of "store w" "p_cmd ?p"] sc by simp
    have new: "pending_ok ?key st' (?p\<lparr>p_reply := Some r\<rparr>)"
      using fits serve_cmd_sound [OF sc] by (simp add: pending_ok_def)
    have "mirror_sound (w\<lparr>store := st'\<rparr>)" using inv le by (rule mirror_sound_grow)
    then have "mirror_sound ((w\<lparr>store := st'\<rparr>)\<lparr>pend := (pend w)[i := ?p\<lparr>p_reply := Some r\<rparr>]\<rparr>)"
      using new by (auto dest: mirror_sound_pend_update)
    then have "mirror_sound (w\<lparr>store := st', pend := (pend w)[i := ?p\<lparr>p_reply := Some r\<rparr>],
        subs := subs w @ (case p_cmd ?p of Subscribe ch \<Rightarrow> [(p_conn ?p, ch)] | _ \<Rightarrow> [])\<rparr>)"
      by (simp add: mirror_sound_def)
    with True sc show ?thesis by (simp add: serve_def Let_def)
  qed
qed

lemma mirror_sound_deliver:
  assumes inv: "mirror_sound w" and i: "can_deliver w i"
  shows "mirror_sound (deliver i w)"
proof -
  let ?p = "pend w ! i" and ?key = "cache_key (cch w)"
  from i obtain r where r: "p_reply ?p = Some r" by (auto simp: can_deliver_def)
  from i have "?p \<in> set (pend w)" by (simp add: can_deliver_def)
  with inv r have ok: "kont_fits ?key (p_kont ?p) (p_cmd ?p)" "reply_sound (store w) (p_cmd ?p) r"
    by (auto simp: mirror_sound_def pending_ok_def)
  have "mirror_sound (w\<lparr>pend := remove_at i (pend w)\<rparr>)"
    using inv set_remove_at_subset [of i "pend w"] by (auto simp: mirror_sound_def)
  with ok r show ?thesis
    by (auto simp: deliver_def intro: mirror_sound_resume)
qed

lemma mirror_sound_note: "mirror_sound w \<Longrightarrow> mirror_sound (deliver_note w)"
  by (auto simp: deliver_note_def on_message_def
        intro!: mirror_sound_update split: list.splits)

lemma mirror_sound_ext_sadd: "mirror_sound w \<Longrightarrow> mirror_sound (ext_sadd k x w)"
  using serve_cmd_grows [of "store w" "SAdd k x"]
  by (auto simp: ext_sadd_def intro!: mirror_sound_grow split: prod.splits)

theorem cstep_mirror_sound: "cstep w w' \<Longrightarrow> mirror_sound w \<Longrightarrow> mirror_sound w'"
proof (induction rule: cstep.induct)
  case (bulk w addrs)
  then show ?case
    by (simp add: bulk_check_def mirror_sound_initialize bulk_return_def)
next
  case (add w x)
  then show ?case
    by (auto simp: add_pool_def Let_def intro!: mirror_sound_send split: option.splits)
next
  case (opened i w)
  then show ?case
    by (auto simp: connections_opened_def Let_def intro!: mirror_sound_update)
next
  case (refused i w)
  then show ?case
    by (auto simp: connection_failed_def intro!: mirror_sound_reject)
next
  case (served w i ok)
  then show ?case by (simp add: mirror_sound_serve)
next
  case (replied w i)
  then show ?case by (simp add: mirror_sound_deliver)
next
  case (notified w)
  then show ?case by (simp add: mirror_sound_note)
next
  case (other_add w k x)
  then show ?case by (simp add: mirror_sound_ext_sadd)
next
  case (other_event m w k)
  then show ?case by (simp add: ext_event_def)
qed

lemma mirror_sound_new_cache: "mirror_sound (new_cache k t st)"
  by (simp add: new_cache_def initialize_def resolve_init_def mirror_sound_def)

lemma reach_mirror_sound: "reach w \<Longrightarrow> mirror_sound w"
  by (induction rule: reach.induct) (auto intro: mirror_sound_new_cache cstep_mirror_sound)

section \<open>The mirror is a subset of the remote set\<close>

text \<open>
  Claim C1. In every state the cache can reach, under any interleaving of queries,
  additions, notifications, server replies and other clients, the in-memory mirror
  holds only members of the remote set stored under the cache's key.
\<close>

theorem mirror_subset_remote:
  "reach w \<Longrightarrow> in_memory_cache (cch w) \<subseteq> store w (cache_key (cch w))"
  using reach_mirror_sound by (simp add: mirror_sound_def)

theorem mirror_subset_remote_witness:
  "reach (new_cache ''syncswap:pools'' False (\<lambda>k. {''0xaaa''})) \<and>
   in_memory_cache (cch (new_cache ''syncswap:pools'' False (\<lambda>k. {''0xaaa''})))
     \<subseteq> store (new_cache ''syncswap:pools'' False (\<lambda>k. {''0xaaa''})) ''syncswap:pools''"
proof -
  let ?w = "new_cache ''syncswap:pools'' False (\<lambda>k. {''0xaaa''})"
  have r: "reach ?w" by (rule reach.init)
  have k: "cache_key (cch ?w) = ''syncswap:pools''" by (simp add: new_cache_def initialize_def)
  from r mirror_subset_remote [OF r] k show ?thesis by simp
qed

end
