(* ===== verification/CacheFifo.thy ===== *)
theory CacheFifo
  imports CacheSafety
begin

text \<open>
  What the code gets right when \<open>initialize\<close> runs once. Then every full load and every
  \<open>sAdd\<close> of the cache travels on the single command connection, the server answers
  them in order, and their replies arrive in that order. Under that condition the mirror
  never loses a member (the monotonic membership of section 3 of the spec) and a pool
  that \<open>addPool\<close> has added stays visible to later bulk checks on the same instance
  (section 8 of the spec). The condition is \<open>next_conn \<le> 2\<close>: one pair of connections
  was opened. \<open>CacheRuns\<close> shows that both facts fail without it.

  The invariant is in two parts. \<open>fifo_ok\<close> says that every full-load reply already
  served but not yet delivered contains the mirror and everything that commands ahead of
  it on the same connection will add, and that the server has answered the commands of
  each connection in order. \<open>conn_inv\<close> numbers the connections: every command other
  than a subscription, and the command connection itself, is on an even number below
  \<open>next_conn\<close>.
\<close>

section \<open>Definitions\<close>

definition is_sub :: "pending \<Rightarrow> bool" where
  "is_sub p \<longleftrightarrow> (case p_kont p of KInitSub wt \<Rightarrow> True | _ \<Rightarrow> False)"

fun gain_of :: "kont \<Rightarrow> reply option \<Rightarrow> addr set" where
  "gain_of (KInitLoad wt) (Some (RMembers m)) = m"
| "gain_of KReload (Some (RMembers m)) = m"
| "gain_of (KAddPool x) (Some (RAdded b)) = {x}"
| "gain_of k r = {}"

fun covers_k :: "kont \<Rightarrow> reply option \<Rightarrow> addr set \<Rightarrow> bool" where
  "covers_k (KInitLoad wt) (Some (RMembers m)) A = (A \<subseteq> m)"
| "covers_k KReload (Some (RMembers m)) A = (A \<subseteq> m)"
| "covers_k k r A = True"

definition gain :: "pending \<Rightarrow> addr set" where
  "gain p = gain_of (p_kont p) (p_reply p)"

definition covers :: "pending \<Rightarrow> addr set \<Rightarrow> bool" where
  "covers p A = covers_k (p_kont p) (p_reply p) A"

definition fifo_rel :: "pending \<Rightarrow> pending \<Rightarrow> bool" where
  "fifo_rel p q \<longleftrightarrow>
     (p_conn q = p_conn p \<longrightarrow> covers q (gain p) \<and> (p_reply q \<noteq> None \<longrightarrow> p_reply p \<noteq> None))"

definition fifo_ok :: "addr set \<Rightarrow> pending list \<Rightarrow> bool" where
  "fifo_ok M ps \<longleftrightarrow> (\<forall>p \<in> set ps. covers p M) \<and> sorted_wrt fifo_rel ps"

definition conn_inv :: "world \<Rightarrow> bool" where
  "conn_inv w \<longleftrightarrow>
     (\<forall>p \<in> set (pend w). \<not> is_sub p \<longrightarrow> even (p_conn p) \<and> p_conn p < next_conn w) \<and>
     (\<forall>c. redis_command (cch w) = Some c \<longrightarrow> even c \<and> c < next_conn w) \<and>
     even (next_conn w)"

definition fifo_inv :: "world \<Rightarrow> bool" where
  "fifo_inv w \<longleftrightarrow> fifo_ok (in_memory_cache (cch w)) (pend w)"

section \<open>The queue invariant on its own\<close>

lemma covers_None [simp]: "p_reply p = None \<Longrightarrow> covers p A"
  by (cases "p_kont p") (simp_all add: covers_def)

lemma covers_sub [simp]: "is_sub p \<Longrightarrow> covers p A"
  by (auto simp: covers_def is_sub_def split: kont.splits)

lemma gain_sub [simp]: "is_sub p \<Longrightarrow> gain p = {}"
  by (auto simp: gain_def is_sub_def split: kont.splits)

lemma covers_k_anti: "covers_k k r A \<Longrightarrow> B \<subseteq> A \<Longrightarrow> covers_k k r B"
  by (induction k r A rule: covers_k.induct) auto

lemma covers_k_Un: "covers_k k r A \<Longrightarrow> covers_k k r B \<Longrightarrow> covers_k k r (A \<union> B)"
  by (induction k r A rule: covers_k.induct) auto

lemma covers_anti: "covers p A \<Longrightarrow> B \<subseteq> A \<Longrightarrow> covers p B"
  unfolding covers_def by (rule covers_k_anti)

lemma covers_Un: "covers p A \<Longrightarrow> covers p B \<Longrightarrow> covers p (A \<union> B)"
  unfolding covers_def by (rule covers_k_Un)

lemma covers_other_conn:
  assumes "is_sub q \<or> is_sub p" "covers q M" "M' \<subseteq> M \<union> gain p"
  shows "covers q M'"
  using assms(1)
proof
  assume "is_sub p"
  with assms(3) have "M' \<subseteq> M" by simp
  with assms(2) show ?thesis by (rule covers_anti)
qed simp

lemma fifo_ok_append:
  assumes "fifo_ok M ps" "\<forall>e \<in> set es. p_reply e = None"
  shows "fifo_ok M (ps @ es)"
proof -
  have "sorted_wrt fifo_rel es"
    using assms(2) by (induction es) (auto simp: fifo_rel_def)
  with assms show ?thesis
    by (auto simp: fifo_ok_def sorted_wrt_append fifo_rel_def)
qed

text \<open>Delivering the first reply of a connection: what is left still satisfies the
  invariant against the new mirror, provided the new mirror lies within the old one and
  the delivered gain, and no other connection carries loads or additions.\<close>

lemma fifo_ok_remove:
  assumes ok: "fifo_ok M ps" and i: "i < length ps"
    and first: "\<forall>j<i. p_conn (ps ! j) \<noteq> p_conn (ps ! i)"
    and single: "\<forall>q \<in> set ps. \<not> is_sub q \<longrightarrow> \<not> is_sub (ps ! i) \<longrightarrow> p_conn q = p_conn (ps ! i)"
    and M': "M' \<subseteq> M \<union> gain (ps ! i)"
  shows "fifo_ok M' (remove_at i ps)"
proof -
  let ?p = "ps ! i"
  have later: "covers (ps ! k) M'" if k: "i < k" "k < length ps" for k
  proof (cases "p_conn (ps ! k) = p_conn ?p")
    case True
    with ok k have "covers (ps ! k) (gain ?p)"
      by (auto simp: fifo_ok_def sorted_wrt_iff_nth_less fifo_rel_def)
    moreover from ok k have "covers (ps ! k) M" by (simp add: fifo_ok_def)
    ultimately have "covers (ps ! k) (M \<union> gain ?p)" by (simp add: covers_Un)
    then show ?thesis using M' by (rule covers_anti)
  next
    case False
    from k have "ps ! k \<in> set ps" by simp
    with single False have "is_sub (ps ! k) \<or> is_sub ?p" by blast
    moreover from ok k have "covers (ps ! k) M" by (simp add: fifo_ok_def)
    ultimately show ?thesis using M' by (rule covers_other_conn)
  qed
  have earlier: "covers (ps ! k) M'" if k: "k < i" for k
  proof -
    from first k have ne: "p_conn (ps ! k) \<noteq> p_conn ?p" by simp
    from k i have "ps ! k \<in> set ps" by simp
    with single ne have "is_sub (ps ! k) \<or> is_sub ?p" by blast
    moreover from ok k i have "covers (ps ! k) M" by (simp add: fifo_ok_def)
    ultimately show ?thesis using M' by (rule covers_other_conn)
  qed
  have "\<forall>q \<in> set (remove_at i ps). covers q M'"
  proof
    fix q assume "q \<in> set (remove_at i ps)"
    then obtain j where j: "j < length ps - 1" "q = remove_at i ps ! j"
      using i by (auto simp: in_set_conv_nth)
    show "covers q M'"
    proof (cases "j < i")
      case True
      with j i show ?thesis by (simp add: nth_remove_at earlier)
    next
      case False
      with j i show ?thesis by (simp add: nth_remove_at later)
    qed
  qed
  moreover have "sorted_wrt fifo_rel (remove_at i ps)"
    using ok by (simp add: fifo_ok_def sorted_wrt_remove_at)
  ultimately show ?thesis by (simp add: fifo_ok_def)
qed

text \<open>Serving the first unanswered command of a connection.\<close>

lemma fifo_ok_serve:
  assumes ok: "fifo_ok M ps" and i: "i < length ps" and none: "p_reply (ps ! i) = None"
    and prior: "\<forall>j<i. p_conn (ps ! j) = p_conn (ps ! i) \<longrightarrow> p_reply (ps ! j) \<noteq> None"
    and cov: "covers q M" and conn: "p_conn q = p_conn (ps ! i)"
    and covg: "\<forall>j<i. p_conn (ps ! j) = p_conn (ps ! i) \<longrightarrow> covers q (gain (ps ! j))"
  shows "fifo_ok M (ps[i := q])"
proof -
  have after: "p_reply (ps ! k) = None" if "i < k" "k < length ps" "p_conn (ps ! k) = p_conn (ps ! i)" for k
  proof -
    from ok have "sorted_wrt fifo_rel ps" by (simp add: fifo_ok_def)
    then have "fifo_rel (ps ! i) (ps ! k)" using that by (simp add: sorted_wrt_iff_nth_less)
    with that none show ?thesis by (auto simp: fifo_rel_def)
  qed
  have "sorted_wrt fifo_rel (ps[i := q])"
  proof (rule sorted_wrt_update)
    show "sorted_wrt fifo_rel ps" using ok by (simp add: fifo_ok_def)
    show "\<forall>j<i. fifo_rel (ps ! j) q" using prior covg conn by (simp add: fifo_rel_def)
    show "\<forall>j<length ps. i < j \<longrightarrow> fifo_rel q (ps ! j)"
      using after conn by (auto simp: fifo_rel_def)
  qed
  moreover have "\<forall>p \<in> set (ps[i := q]). covers p M"
    using ok cov set_update_subset_insert [of ps i q] by (auto simp: fifo_ok_def)
  ultimately show ?thesis by (simp add: fifo_ok_def)
qed

section \<open>What a continuation does to the queue and the mirror\<close>

lemma resume_pend:
  "\<exists>es. pend (resume k r w) = pend w @ es \<and> (\<forall>e \<in> set es. p_reply e = None \<and> is_sub e)"
proof (cases k)
  case (KInitLoad wt)
  then show ?thesis
    by (cases r) (auto simp: op_defs is_sub_def split: option.splits waiter.splits)
qed (auto simp: op_defs split: reply.splits waiter.splits)

lemma resume_cmd [simp]: "redis_command (cch (resume k r w)) = redis_command (cch w)"
  by (cases k) (auto simp: op_defs split: reply.splits waiter.splits option.splits)

lemma resume_next [simp]: "next_conn (resume k r w) = next_conn w"
  by (simp add: resume_frame)

lemma resume_mirror_le:
  "in_memory_cache (cch (resume k r w)) \<subseteq> in_memory_cache (cch w) \<union> gain_of k (Some r)"
  by (cases k) (auto simp: op_defs split: reply.splits waiter.splits option.splits)

lemma resume_mirror_ge:
  "covers_k k (Some r) (in_memory_cache (cch w)) \<Longrightarrow>
   in_memory_cache (cch w) \<subseteq> in_memory_cache (cch (resume k r w))"
  by (cases k) (auto simp: op_defs split: reply.splits waiter.splits option.splits)

section \<open>Connection numbering\<close>

lemma conn_inv_simps [simp]:
  "conn_inv (log_out e w) = conn_inv w"
  "conn_inv (publish evs w) = conn_inv w"
  "conn_inv (w\<lparr>connecting := cs\<rparr>) = conn_inv w"
  "conn_inv (w\<lparr>inbox := ms\<rparr>) = conn_inv w"
  "conn_inv (w\<lparr>store := st\<rparr>) = conn_inv w"
  "conn_inv (w\<lparr>loads := n\<rparr>) = conn_inv w"
  by (simp_all add: conn_inv_def log_out_def)

lemma conn_inv_resolve: "conn_inv w \<Longrightarrow> conn_inv (resolve_init wt w)"
  by (simp add: resolve_init_def bulk_return_def split: waiter.splits)

lemma conn_inv_reject: "conn_inv w \<Longrightarrow> conn_inv (reject_init wt w)"
  by (simp add: reject_init_def split: waiter.splits)

lemma conn_inv_append:
  assumes "conn_inv w" "\<forall>e \<in> set es. is_sub e"
  shows "conn_inv (w\<lparr>pend := pend w @ es\<rparr>)"
  using assms by (auto simp: conn_inv_def)

lemma conn_inv_resume: "conn_inv w \<Longrightarrow> conn_inv (resume k r w)"
proof -
  assume c: "conn_inv w"
  obtain es where es: "pend (resume k r w) = pend w @ es" "\<forall>e \<in> set es. p_reply e = None \<and> is_sub e"
    using resume_pend by blast
  from c es show ?thesis by (auto simp: conn_inv_def)
qed

lemma conn_inv_send_cmd:
  "conn_inv w \<Longrightarrow> redis_command (cch w) = Some c \<Longrightarrow> conn_inv (send c m k w)"
  by (auto simp: conn_inv_def send_def)

lemma conn_inv_update: "conn_inv w \<Longrightarrow> conn_inv (update_in_memory_cache k w)"
  by (auto simp: update_in_memory_cache_def conn_inv_resume conn_inv_send_cmd
        conn_inv_def [of "_\<lparr>loads := _\<rparr>"] split: option.splits)

lemma conn_inv_opened: "conn_inv w \<Longrightarrow> conn_inv (connections_opened i w)"
proof -
  assume c: "conn_inv w"
  let ?w = "w\<lparr>connecting := remove_at i (connecting w), next_conn := next_conn w + 2,
              cch := (cch w)\<lparr>redis_command := Some (next_conn w), redis_sub := Some (Suc (next_conn w))\<rparr>\<rparr>"
  from c have "conn_inv ?w" by (auto simp: conn_inv_def)
  then show ?thesis by (simp add: connections_opened_def Let_def conn_inv_update)
qed

lemma conn_inv_serve: "conn_inv w \<Longrightarrow> can_serve w i \<Longrightarrow> conn_inv (serve i ok w)"
proof -
  assume c: "conn_inv w" and i: "can_serve w i"
  let ?p = "pend w ! i"
  have upd: "conn_inv (w\<lparr>store := st, pend := (pend w)[i := ?p\<lparr>p_reply := r\<rparr>], subs := ss\<rparr>)" for r st ss
  proof -
    from i have "?p \<in> set (pend w)" by (simp add: can_serve_def)
    with c have "\<not> is_sub ?p \<longrightarrow> even (p_conn ?p) \<and> p_conn ?p < next_conn w"
      by (simp add: conn_inv_def)
    then have "\<not> is_sub (?p\<lparr>p_reply := r\<rparr>) \<longrightarrow> even (p_conn ?p) \<and> p_conn ?p < next_conn w"
      by (simp add: is_sub_def)
    with c show ?thesis
      using set_update_subset_insert [of "pend w" i "?p\<lparr>p_reply := r\<rparr>"]
      by (auto simp: conn_inv_def)
  qed
  show ?thesis
  proof (cases ok)
    case False
    have "conn_inv (w\<lparr>store := store w, pend := (pend w)[i := ?p\<lparr>p_reply := Some RError\<rparr>],
        subs := subs w\<rparr>)" by (rule upd)
    with False show ?thesis by (simp add: serve_def Let_def)
  next
    case True
    then show ?thesis by (auto simp: serve_def Let_def upd split: prod.splits)
  qed
qed

lemma conn_inv_deliver: "conn_inv w \<Longrightarrow> can_deliver w i \<Longrightarrow> conn_inv (deliver i w)"
proof -
  assume c: "conn_inv w" and i: "can_deliver w i"
  have "conn_inv (w\<lparr>pend := remove_at i (pend w)\<rparr>)"
    using c set_remove_at_subset [of i "pend w"] by (auto simp: conn_inv_def)
  with c show ?thesis by (auto simp: deliver_def Let_def conn_inv_resume split: option.splits)
qed

theorem cstep_conn_inv: "cstep w w' \<Longrightarrow> conn_inv w \<Longrightarrow> conn_inv w'"
proof (induction rule: cstep.induct)
  case (bulk w addrs)
  then show ?case by (simp add: bulk_check_def initialize_def conn_inv_resolve bulk_return_def)
next
  case (add w x)
  then show ?case by (auto simp: add_pool_def Let_def conn_inv_send_cmd split: option.splits)
next
  case (opened i w)
  then show ?case by (simp add: conn_inv_opened)
next
  case (refused i w)
  then show ?case by (simp add: connection_failed_def conn_inv_reject)
next
  case (served w i ok)
  then show ?case by (simp add: conn_inv_serve)
next
  case (replied w i)
  then show ?case by (simp add: conn_inv_deliver)
next
  case (notified w)
  then show ?case
    by (auto simp: deliver_note_def on_message_def conn_inv_update split: list.splits)
next
  case (other_add w k x)
  then show ?case by (simp add: ext_sadd_def split: prod.splits)
next
  case (other_event m w k)
  then show ?case by (simp add: ext_event_def)
qed

lemma reach_conn_inv: "reach w \<Longrightarrow> conn_inv w"
proof (induction rule: reach.induct)
  case (init k t st)
  show ?case by (simp add: new_cache_def initialize_def resolve_init_def conn_inv_def)
next
  case (step w w')
  show ?case by (rule cstep_conn_inv [OF step.hyps(2) step.IH])
qed

section \<open>The queue invariant under every step\<close>

lemma cstep_next_mono: "cstep w w' \<Longrightarrow> next_conn w \<le> next_conn w'"
  by (induction rule: cstep.induct)
     (auto simp: op_defs Let_def resume_frame split: option.splits waiter.splits list.splits prod.splits)

lemma single_conn:
  assumes "conn_inv w" "next_conn w \<le> 2" "p \<in> set (pend w)" "\<not> is_sub p"
  shows "p_conn p = 0"
proof -
  from assms have "even (p_conn p)" "p_conn p < 2" by (auto simp: conn_inv_def)
  then show ?thesis by presburger
qed

lemma gain_in_store:
  "pending_ok key st p \<Longrightarrow> gain p \<subseteq> st key"
  by (cases "p_kont p")
     (auto simp: pending_ok_def gain_def split: option.splits reply.splits)

lemma served_covers:
  assumes "pending_ok key st p" "serve_cmd (p_cmd p) st = (st', r, evs)" "A \<subseteq> st' key"
  shows "covers (p\<lparr>p_reply := Some r\<rparr>) A"
  using assms by (cases "p_kont p") (auto simp: pending_ok_def covers_def)

lemma fifo_inv_frame:
  "in_memory_cache (cch w') = in_memory_cache (cch w) \<Longrightarrow> pend w' = pend w \<Longrightarrow>
   fifo_inv w' = fifo_inv w"
  by (simp add: fifo_inv_def)

lemma update_queue:
  "\<exists>es. pend (update_in_memory_cache k w) = pend w @ es \<and> (\<forall>e \<in> set es. p_reply e = None) \<and>
     in_memory_cache (cch (update_in_memory_cache k w)) = in_memory_cache (cch w)"
proof (cases "redis_command (cch w)")
  case None
  obtain es where es: "pend (resume k RError w) = pend w @ es" "\<forall>e \<in> set es. p_reply e = None \<and> is_sub e"
    using resume_pend by blast
  have "in_memory_cache (cch (resume k RError w)) \<subseteq> in_memory_cache (cch w)"
    using resume_mirror_le [of k RError w] by (cases k) auto
  moreover have "in_memory_cache (cch w) \<subseteq> in_memory_cache (cch (resume k RError w))"
    by (rule resume_mirror_ge) (cases k; simp)
  ultimately show ?thesis using None es by (auto simp: update_in_memory_cache_def)
qed (auto simp: update_in_memory_cache_def send_def)

lemma update_mirror [simp]:
  "in_memory_cache (cch (update_in_memory_cache k w)) = in_memory_cache (cch w)"
  using update_queue [of k w] by blast

lemma fifo_inv_update: "fifo_inv w \<Longrightarrow> fifo_inv (update_in_memory_cache k w)"
  using update_queue [of k w] by (auto simp: fifo_inv_def intro: fifo_ok_append)

lemma fifo_serve_step:
  assumes ms: "mirror_sound w" and f: "fifo_inv w" and i: "can_serve w i"
  shows "fifo_inv (serve i ok w) \<and> in_memory_cache (cch (serve i ok w)) = in_memory_cache (cch w)"
proof -
  let ?p = "pend w ! i" and ?key = "cache_key (cch w)" and ?M = "in_memory_cache (cch w)"
  from i have il: "i < length (pend w)" and none: "p_reply ?p = None"
    and prior: "\<forall>j<i. p_conn (pend w ! j) = p_conn ?p \<longrightarrow> p_reply (pend w ! j) \<noteq> None"
    by (auto simp: can_serve_def)
  have pok: "pending_ok ?key (store w) q" if "q \<in> set (pend w)" for q
    using ms that by (simp add: mirror_sound_def)
  have Mst: "?M \<subseteq> store w ?key" using ms by (simp add: mirror_sound_def)
  show ?thesis
  proof (cases ok)
    case False
    have "fifo_ok ?M ((pend w)[i := ?p\<lparr>p_reply := Some RError\<rparr>])"
      using f il none prior
      by (intro fifo_ok_serve) (auto simp: fifo_inv_def covers_def)
    with False show ?thesis by (simp add: serve_def Let_def fifo_inv_def)
  next
    case True
    obtain st' r evs where sc: "serve_cmd (p_cmd ?p) (store w) = (st', r, evs)"
      by (cases "serve_cmd (p_cmd ?p) (store w)") auto
    have le: "store_le (store w) st'" using serve_cmd_grows [of "store w" "p_cmd ?p"] sc by simp
    have pp: "pending_ok ?key (store w) ?p" using il by (simp add: pok)
    have cov: "covers (?p\<lparr>p_reply := Some r\<rparr>) ?M"
      using Mst le by (intro served_covers [OF pp sc]) (auto simp: store_le_def)
    have covg: "\<forall>j<i. p_conn (pend w ! j) = p_conn ?p \<longrightarrow>
        covers (?p\<lparr>p_reply := Some r\<rparr>) (gain (pend w ! j))"
    proof (intro allI impI)
      fix j assume "j < i"
      with il have "pend w ! j \<in> set (pend w)" by simp
      then have "gain (pend w ! j) \<subseteq> store w ?key" by (intro gain_in_store pok)
      with le have "gain (pend w ! j) \<subseteq> st' ?key" by (auto simp: store_le_def)
      then show "covers (?p\<lparr>p_reply := Some r\<rparr>) (gain (pend w ! j))"
        by (rule served_covers [OF pp sc])
    qed
    have "fifo_ok ?M ((pend w)[i := ?p\<lparr>p_reply := Some r\<rparr>])"
      using f il none prior cov covg by (intro fifo_ok_serve) (auto simp: fifo_inv_def)
    with True sc show ?thesis by (simp add: serve_def Let_def fifo_inv_def)
  qed
qed

lemma fifo_deliver_step:
  assumes c: "conn_inv w" and n: "next_conn w \<le> 2" and f: "fifo_inv w" and i: "can_deliver w i"
  shows "fifo_inv (deliver i w) \<and> in_memory_cache (cch w) \<subseteq> in_memory_cache (cch (deliver i w))"
proof -
  let ?p = "pend w ! i" and ?M = "in_memory_cache (cch w)"
  from i obtain r where r: "p_reply ?p = Some r" and il: "i < length (pend w)"
    and first: "\<forall>j<i. p_conn (pend w ! j) \<noteq> p_conn ?p"
    by (auto simp: can_deliver_def)
  let ?w1 = "w\<lparr>pend := remove_at i (pend w)\<rparr>"
  let ?w2 = "resume (p_kont ?p) r ?w1"
  have eq: "deliver i w = ?w2" using r by (simp add: deliver_def)
  have M2: "in_memory_cache (cch ?w2) \<subseteq> ?M \<union> gain ?p"
    using resume_mirror_le [of "p_kont ?p" r ?w1] r by (simp add: gain_def)
  have single: "\<forall>q \<in> set (pend w). \<not> is_sub q \<longrightarrow> \<not> is_sub ?p \<longrightarrow> p_conn q = p_conn ?p"
  proof (intro ballI impI)
    fix q assume q: "q \<in> set (pend w)" "\<not> is_sub q" and np: "\<not> is_sub ?p"
    have "p_conn q = 0" using c n q by (rule single_conn)
    moreover have "p_conn ?p = 0" using c n _ np by (rule single_conn) (simp add: il)
    ultimately show "p_conn q = p_conn ?p" by simp
  qed
  have f': "fifo_ok ?M (pend w)" using f by (simp add: fifo_inv_def)
  have rem: "fifo_ok (in_memory_cache (cch ?w2)) (remove_at i (pend w))"
    using f' il first single M2 by (rule fifo_ok_remove)
  obtain es where es: "pend ?w2 = remove_at i (pend w) @ es"
    "\<forall>e \<in> set es. p_reply e = None \<and> is_sub e"
    using resume_pend [of "p_kont ?p" r ?w1] by auto
  from es(2) have "\<forall>e \<in> set es. p_reply e = None" by simp
  with rem have "fifo_ok (in_memory_cache (cch ?w2)) (remove_at i (pend w) @ es)"
    by (rule fifo_ok_append)
  with es(1) have "fifo_inv ?w2" by (simp add: fifo_inv_def)
  moreover have "covers ?p ?M" using f il by (simp add: fifo_inv_def fifo_ok_def)
  then have "?M \<subseteq> in_memory_cache (cch ?w2)"
    using resume_mirror_ge [of "p_kont ?p" r ?w1] r by (simp add: covers_def)
  ultimately show ?thesis using eq by simp
qed

lemma fifo_step:
  assumes "cstep w w'" "mirror_sound w" "conn_inv w" "fifo_inv w" "next_conn w' \<le> 2"
  shows "fifo_inv w' \<and> in_memory_cache (cch w) \<subseteq> in_memory_cache (cch w')"
  using assms
proof (induction rule: cstep.induct)
  case (bulk w addrs)
  have "pend (bulk_check addrs w) = pend w \<and>
        in_memory_cache (cch (bulk_check addrs w)) = in_memory_cache (cch w)"
    by (simp add: bulk_check_def initialize_def resolve_init_def bulk_return_def log_out_def
          split: waiter.splits)
  with bulk show ?case by (simp add: fifo_inv_def)
next
  case (add w x)
  then show ?case
    by (auto simp: add_pool_def Let_def log_out_def send_def fifo_inv_def
          intro!: fifo_ok_append split: option.splits)
next
  case (opened i w)
  let ?w1 = "w\<lparr>connecting := remove_at i (connecting w), next_conn := next_conn w + 2,
              cch := (cch w)\<lparr>redis_command := Some (next_conn w), redis_sub := Some (Suc (next_conn w))\<rparr>\<rparr>"
  have "fifo_inv ?w1" using opened.prems(3) by (simp add: fifo_inv_def)
  then have "fifo_inv (update_in_memory_cache (KInitLoad (connecting w ! i)) ?w1)"
    by (rule fifo_inv_update)
  then show ?case by (simp add: connections_opened_def Let_def)
next
  case (refused i w)
  then show ?case
    by (simp add: connection_failed_def reject_init_def log_out_def fifo_inv_def split: waiter.splits)
next
  case (served w i ok)
  then show ?case using fifo_serve_step by blast
next
  case (replied w i)
  have "next_conn w \<le> 2"
    using cstep_next_mono [OF cstep.replied [OF replied.hyps]] replied.prems(4) by simp
  with replied show ?case using fifo_deliver_step by blast
next
  case (notified w)
  then show ?case
  proof (cases "inbox w")
    case (Cons m ms)
    have "fifo_inv (w\<lparr>inbox := ms\<rparr>)" using notified.prems(3) by (simp add: fifo_inv_def)
    then show ?thesis
      using Cons by (auto simp: deliver_note_def on_message_def intro: fifo_inv_update)
  qed (simp add: deliver_note_def)
next
  case (other_add w k x)
  then show ?case by (simp add: ext_sadd_def fifo_inv_def split: prod.splits)
next
  case (other_event m w k)
  then show ?case by (simp add: ext_event_def fifo_inv_def)
qed

lemma reach_fifo_inv: "reach w \<Longrightarrow> next_conn w \<le> 2 \<Longrightarrow> fifo_inv w"
proof (induction rule: reach.induct)
  case (init k t st)
  show ?case by (simp add: new_cache_def initialize_def resolve_init_def fifo_inv_def fifo_ok_def)
next
  case (step w w')
  have "next_conn w \<le> 2" using cstep_next_mono [OF step.hyps(2)] step.prems by simp
  with step have "fifo_inv w" by simp
  with step show ?case
    using fifo_step reach_mirror_sound reach_conn_inv by blast
qed

section \<open>Resolved additions\<close>

lemma resume_pool_added:
  "PoolAdded x \<in> set (out (resume k r w)) \<Longrightarrow>
   PoolAdded x \<in> set (out w) \<or> x \<in> in_memory_cache (cch (resume k r w))"
  by (cases k) (auto simp: op_defs split: reply.splits waiter.splits option.splits)

lemma update_pool_added:
  "PoolAdded x \<in> set (out (update_in_memory_cache k w)) \<Longrightarrow> PoolAdded x \<in> set (out w)"
  by (cases k) (auto simp: op_defs split: option.splits waiter.splits)

lemma cstep_pool_added:
  assumes "cstep w w'" "PoolAdded x \<in> set (out w')" "PoolAdded x \<notin> set (out w)"
  shows "x \<in> in_memory_cache (cch w')"
  using assms
proof (induction rule: cstep.induct)
  case (replied w i)
  then show ?case
    using resume_pool_added [of x "p_kont (pend w ! i)" _ "w\<lparr>pend := remove_at i (pend w)\<rparr>"]
    by (auto simp: deliver_def Let_def split: option.splits)
next
  case (opened i w)
  then show ?case by (auto simp: connections_opened_def Let_def dest: update_pool_added)
next
  case (notified w)
  then show ?case
    by (auto simp: deliver_note_def on_message_def dest: update_pool_added split: list.splits if_splits)
next
  case (served w i ok)
  then show ?case by (auto simp: serve_def Let_def split: prod.splits)
qed (auto simp: op_defs Let_def split: option.splits waiter.splits prod.splits if_splits)

section \<open>The guarantees under a single initialisation\<close>

text \<open>
  Claim C6. When the cache opened one pair of connections, no step removes a member from
  the mirror: membership of the local mirror is monotonic, as section 3 of the spec
  requires, although \<open>updateInMemoryCache\<close> replaces the set wholesale. The reason is
  the order of the single command connection: a full-load reply that arrives was served
  after every command whose reply arrived before it.
\<close>

theorem mirror_never_shrinks:
  "reach w \<Longrightarrow> cstep w w' \<Longrightarrow> next_conn w' \<le> 2 \<Longrightarrow>
   in_memory_cache (cch w) \<subseteq> in_memory_cache (cch w')"
proof -
  assume r: "reach w" and s: "cstep w w'" and n: "next_conn w' \<le> 2"
  have "next_conn w \<le> 2" using cstep_next_mono [OF s] n by simp
  with r have "fifo_inv w" by (rule reach_fifo_inv)
  with s r n show ?thesis
    using fifo_step reach_mirror_sound reach_conn_inv by blast
qed

text \<open>
  Claim C7. When the cache opened one pair of connections, a pool whose \<open>addPool\<close> call
  has resolved is in the mirror in every later state, so every later bulk check on the
  same instance finds it (section 8 of the spec), whatever notifications, reloads and
  other clients' additions interleave.
\<close>

theorem added_pool_stays_visible:
  "reach w \<Longrightarrow> next_conn w \<le> 2 \<Longrightarrow> PoolAdded x \<in> set (out w) \<Longrightarrow>
   x \<in> in_memory_cache (cch w)"
proof (induction arbitrary: x rule: reach.induct)
  case (init k t st)
  then show ?case by (simp add: new_cache_def initialize_def resolve_init_def split: if_splits)
next
  case (step w w')
  have n: "next_conn w \<le> 2" using cstep_next_mono [OF step.hyps(2)] step.prems(1) by simp
  show ?case
  proof (cases "PoolAdded x \<in> set (out w)")
    case True
    with step.IH n have "x \<in> in_memory_cache (cch w)" by blast
    moreover have "in_memory_cache (cch w) \<subseteq> in_memory_cache (cch w')"
    proof -
      have "fifo_inv w" using step.hyps(1) n by (rule reach_fifo_inv)
      then show ?thesis
        using fifo_step [OF step.hyps(2)] step.hyps(1) step.prems(1)
          reach_mirror_sound reach_conn_inv by blast
    qed
    ultimately show ?thesis by blast
  next
    case False
    with step.hyps(2) step.prems(2) show ?thesis by (rule cstep_pool_added)
  qed
qed

end
