(* ===== verification/CacheAnswers.thy ===== *)
theory CacheAnswers
  imports CacheSafety
begin

text \<open>
  What the membership cache promises its callers, beyond the soundness of the mirror
  (\<open>CacheSafety\<close>): every answer a bulk check has returned holds only remote members
  among the addresses asked for; under the test flag (\<open>NODE_ENV === "test"\<close>, the
  field \<open>node_test\<close>) the cache never sends a command and its mirror stays empty,
  as section 6 of the spec requires; and a keyspace notification \<open>sadd\<close> among any
  number of other notifications makes the next reload bring the mirror to exactly the
  remote set (section 8 of the spec).
\<close>

section \<open>Definitions\<close>

text \<open>An outcome is correct for a store if, when it is a bulk answer, the answer
  holds only remote members among the lower-cased addresses asked for.\<close>

definition answer_ok :: "rstore \<Rightarrow> string \<Rightarrow> outcome \<Rightarrow> bool" where
  "answer_ok st key e \<longleftrightarrow>
     (case e of BulkReturned xs s \<Rightarrow> s \<subseteq> st key \<inter> to_lower ` set xs | _ \<Rightarrow> True)"

definition answers_sound :: "world \<Rightarrow> bool" where
  "answers_sound w \<longleftrightarrow> (\<forall>e \<in> set (out w). answer_ok (store w) (cache_key (cch w)) e)"

text \<open>The state of a cache that has never talked to Redis.\<close>

definition test_quiet :: "world \<Rightarrow> bool" where
  "test_quiet w \<longleftrightarrow> redis_command (cch w) = None \<and> redis_sub (cch w) = None \<and> pend w = [] \<and>
     connecting w = [] \<and> subs w = [] \<and> inbox w = [] \<and> in_memory_cache (cch w) = {} \<and> loads w = 0"

section \<open>Bulk answers hold only remote members\<close>

lemma answer_ok_mono: "answer_ok st key e \<Longrightarrow> store_le st st' \<Longrightarrow> answer_ok st' key e"
  by (auto simp: answer_ok_def store_le_def split: outcome.splits)

lemma answers_sound_fields [simp]:
  "answers_sound (w\<lparr>connecting := a\<rparr>) = answers_sound w"
  "answers_sound (w\<lparr>inbox := b\<rparr>) = answers_sound w"
  "answers_sound (w\<lparr>pend := ps\<rparr>) = answers_sound w"
  "answers_sound (w\<lparr>loads := n\<rparr>) = answers_sound w"
  "answers_sound (w\<lparr>connecting := a, next_conn := n,
     cch := (cch w)\<lparr>redis_command := c, redis_sub := d\<rparr>\<rparr>) = answers_sound w"
  "answers_sound (set_mirror m w) = answers_sound w"
  "answers_sound (send c' m' k w) = answers_sound w"
  "answers_sound (publish evs w) = answers_sound w"
  by (simp_all add: answers_sound_def set_mirror_def send_def publish_def)

lemma answers_sound_log:
  "answers_sound w \<Longrightarrow> answer_ok (store w) (cache_key (cch w)) e \<Longrightarrow> answers_sound (log_out e w)"
  by (simp add: answers_sound_def log_out_def)

lemma answers_sound_bulk_return:
  "answers_sound w \<Longrightarrow> mirror_sound w \<Longrightarrow> answers_sound (bulk_return xs w)"
  unfolding bulk_return_def
  by (rule answers_sound_log)
     (auto simp: answer_ok_def bulk_result_def bulk_loop_eq mirror_sound_def)

lemma answers_sound_resolve:
  "answers_sound w \<Longrightarrow> mirror_sound w \<Longrightarrow> answers_sound (resolve_init wt w)"
  by (simp add: resolve_init_def answers_sound_bulk_return split: waiter.splits)

lemma answers_sound_reject: "answers_sound w \<Longrightarrow> answers_sound (reject_init wt w)"
  by (auto simp: reject_init_def answer_ok_def intro!: answers_sound_log split: waiter.splits)

lemma answers_sound_subscribe:
  "answers_sound w \<Longrightarrow> mirror_sound w \<Longrightarrow> answers_sound (subscribe_to_set_operations wt w)"
  by (simp add: subscribe_to_set_operations_def answers_sound_resolve split: option.splits)

lemma answers_sound_resume:
  assumes "answers_sound w" "mirror_sound w" "kont_fits (cache_key (cch w)) k c"
    "reply_sound (store w) c r"
  shows "answers_sound (resume k r w)"
  using assms
  by (cases k; cases r)
     (auto simp: answer_ok_def intro!: answers_sound_subscribe answers_sound_resolve
        answers_sound_reject answers_sound_log mirror_sound_set_mirror)

lemma answers_sound_update:
  assumes "answers_sound w" "mirror_sound w"
    "kont_fits (cache_key (cch w)) k (SMembers (cache_key (cch w)))"
  shows "answers_sound (update_in_memory_cache k w)"
proof (cases "redis_command (cch w)")
  case None
  have "reply_sound (store w) (SMembers (cache_key (cch w))) RError" by simp
  with assms None show ?thesis
    by (simp add: update_in_memory_cache_def answers_sound_resume)
next
  case (Some c)
  with assms(1) show ?thesis
    by (simp add: update_in_memory_cache_def answers_sound_def send_def)
qed

lemma answers_sound_grow:
  "answers_sound w \<Longrightarrow> store_le (store w) st' \<Longrightarrow> answers_sound (w\<lparr>store := st'\<rparr>)"
  by (auto simp: answers_sound_def intro: answer_ok_mono)

lemma answers_sound_serve:
  assumes "answers_sound w"
  shows "answers_sound (serve i ok w)"
proof -
  let ?p = "pend w ! i"
  obtain st' r evs where sc: "serve_cmd (p_cmd ?p) (store w) = (st', r, evs)"
    by (cases "serve_cmd (p_cmd ?p) (store w)") auto
  have "store_le (store w) st'" using serve_cmd_grows [of "store w" "p_cmd ?p"] sc by simp
  then have "answers_sound (w\<lparr>store := st'\<rparr>)" by (rule answers_sound_grow [OF assms])
  then show ?thesis using assms sc by (simp add: serve_def Let_def answers_sound_def)
qed

lemma answers_sound_deliver:
  assumes inv: "answers_sound w" "mirror_sound w" and i: "can_deliver w i"
  shows "answers_sound (deliver i w)"
proof -
  let ?p = "pend w ! i" and ?key = "cache_key (cch w)"
  from i obtain r where r: "p_reply ?p = Some r" by (auto simp: can_deliver_def)
  from i have "?p \<in> set (pend w)" by (simp add: can_deliver_def)
  with inv r have ok: "kont_fits ?key (p_kont ?p) (p_cmd ?p)" "reply_sound (store w) (p_cmd ?p) r"
    by (auto simp: mirror_sound_def pending_ok_def)
  have "mirror_sound (w\<lparr>pend := remove_at i (pend w)\<rparr>)"
    using inv set_remove_at_subset [of i "pend w"] by (auto simp: mirror_sound_def)
  with inv ok r show ?thesis
    by (auto simp: deliver_def intro: answers_sound_resume)
qed

lemma answers_sound_ext_sadd: "answers_sound w \<Longrightarrow> answers_sound (ext_sadd k x w)"
  using serve_cmd_grows [of "store w" "SAdd k x"]
  by (auto simp: ext_sadd_def intro!: answers_sound_grow split: prod.splits)

lemma cstep_answers_sound:
  "cstep w w' \<Longrightarrow> answers_sound w \<Longrightarrow> mirror_sound w \<Longrightarrow> answers_sound w'"
proof (induction rule: cstep.induct)
  case (bulk w addrs)
  then show ?case
    by (simp add: bulk_check_def initialize_def answers_sound_resolve answers_sound_bulk_return)
next
  case (add w x)
  then show ?case
    by (auto simp: add_pool_def Let_def answer_ok_def intro!: answers_sound_log split: option.splits)
next
  case (opened i w)
  then show ?case
    by (auto simp: connections_opened_def Let_def mirror_sound_def intro!: answers_sound_update)
next
  case (refused i w)
  then show ?case by (simp add: connection_failed_def answers_sound_reject)
next
  case (served w i ok)
  then show ?case by (simp add: answers_sound_serve)
next
  case (replied w i)
  then show ?case by (simp add: answers_sound_deliver)
next
  case (notified w)
  then show ?case
    by (auto simp: deliver_note_def on_message_def mirror_sound_def
          intro!: answers_sound_update split: list.splits)
next
  case (other_add w k x)
  then show ?case by (simp add: answers_sound_ext_sadd)
next
  case (other_event m w k)
  then show ?case by (simp add: ext_event_def)
qed

lemma reach_answers_sound: "reach w \<Longrightarrow> answers_sound w"
proof (induction rule: reach.induct)
  case (init k t st)
  then show ?case by (simp add: new_cache_def initialize_def resolve_init_def answers_sound_def)
next
  case (step w w')
  then show ?case using cstep_answers_sound reach_mirror_sound by blast
qed

text \<open>C16: In every reachable state, every set a bulk check has returned to its caller
  (\<open>bulkCheckSyncswapPools\<close>, \<open>bulkCheckClaveWallets\<close>) consists of members of the
  remote set, as the store is now, that are lower-cased forms of the addresses the caller
  passed: the cache never reports a non-member, even after any interleaving.\<close>

theorem bulk_answers_remote:
  "reach w \<Longrightarrow> BulkReturned xs s \<in> set (out w) \<Longrightarrow>
     s \<subseteq> store w (cache_key (cch w)) \<inter> to_lower ` set xs"
  using reach_answers_sound by (force simp: answers_sound_def answer_ok_def)

section \<open>The test flag\<close>

lemma cstep_node_test: "cstep w w' \<Longrightarrow> node_test w' = node_test w"
  by (induction rule: cstep.induct)
     (auto simp: op_defs Let_def resume_frame split: option.splits list.splits waiter.splits prod.splits)

lemma publish_quiet: "subs w = [] \<Longrightarrow> publish evs w = w"
proof -
  assume "subs w = []"
  then have "concat (map (\<lambda>(ch, m). replicate (length (filter (\<lambda>(s, ch'). ch' = ch) (subs w))) m) evs) = []"
    by (induction evs) auto
  then show ?thesis by (simp add: publish_def)
qed

lemma test_quiet_step: "cstep w w' \<Longrightarrow> node_test w \<Longrightarrow> test_quiet w \<Longrightarrow> test_quiet w'"
proof (induction rule: cstep.induct)
  case (other_add w k x)
  then show ?case
    by (simp add: ext_sadd_def test_quiet_def publish_quiet split: prod.splits)
next
  case (other_event m w k)
  then show ?case by (simp add: ext_event_def publish_quiet test_quiet_def)
qed (auto simp: test_quiet_def op_defs can_serve_def can_deliver_def)

lemma reach_test_quiet: "reach w \<Longrightarrow> node_test w \<longrightarrow> test_quiet w"
proof (induction rule: reach.induct)
  case (init k t st)
  then show ?case by (simp add: new_cache_def initialize_def resolve_init_def test_quiet_def)
next
  case (step w w')
  then show ?case using cstep_node_test test_quiet_step by metis
qed

text \<open>C17: A cache constructed with \<open>NODE_ENV === "test"\<close> never opens a connection
  and never sends a command: in every reachable state it has issued no full load, has
  no command in flight, holds no Redis client, and its mirror is empty, whatever bulk
  checks, \<open>addPool\<close> calls and other clients' additions happen.\<close>

theorem test_mode_no_network:
  "reach w \<Longrightarrow> node_test w \<Longrightarrow>
     loads w = 0 \<and> pend w = [] \<and> redis_command (cch w) = None \<and> in_memory_cache (cch w) = {}"
  using reach_test_quiet by (simp add: test_quiet_def)

section \<open>A notification reloads the remote set\<close>

lemma on_message_other: "''sadd'' \<notin> set ms \<Longrightarrow> fold on_message ms w = w"
  by (induction ms arbitrary: w) (auto simp: on_message_def)

lemma on_message_shape:
  "store (on_message m w) = store w \<and> cch (on_message m w) = cch w \<and>
   (\<exists>qs. pend (on_message m w) = pend w @ qs)"
  by (auto simp: on_message_def update_in_memory_cache_def send_def split: option.splits)

lemma fold_on_message_shape:
  "store (fold on_message ms w) = store w \<and> cch (fold on_message ms w) = cch w \<and>
   (\<exists>qs. pend (fold on_message ms w) = pend w @ qs)"
proof (induction ms arbitrary: w)
  case Nil
  then show ?case by simp
next
  case (Cons m ms)
  then show ?case using on_message_shape [of m w] by (auto simp del: append_assoc) (metis append_assoc)
qed

text \<open>Each \<open>sadd\<close> message queues exactly one reload and every other message none.\<close>

lemma fold_on_message_count:
  "redis_command (cch w) = Some c \<Longrightarrow>
     length (pend (fold on_message ms w)) = length (pend w) + count_list ms ''sadd''"
proof (induction ms arbitrary: w)
  case Nil
  then show ?case by simp
next
  case (Cons m ms)
  have "cch (on_message m w) = cch w" using on_message_shape [of m w] by simp
  with Cons.prems have "length (pend (fold on_message ms (on_message m w))) =
      length (pend (on_message m w)) + count_list ms ''sadd''"
    using Cons.IH by simp
  moreover have "length (pend (on_message m w)) = length (pend w) + (if m = ''sadd'' then 1 else 0)"
    using Cons.prems by (simp add: on_message_def update_in_memory_cache_def send_def)
  ultimately show ?case by simp
qed

lemma reload_delivered:
  "pend w = p # rest \<Longrightarrow> p_cmd p = SMembers k \<Longrightarrow> p_kont p = KReload \<Longrightarrow>
     in_memory_cache (cch (deliver 0 (serve 0 True w))) = store w k"
  by (simp add: serve_def deliver_def Let_def publish_def set_mirror_def)

text \<open>C18: On a ready cache with no command in flight, let the subscription handler
  receive any sequence of keyspace messages that contains at least one \<open>sadd\<close>. It
  queues exactly one full reload per \<open>sadd\<close> and none for any other operation name.
  Once Redis has served the first reload and its reply is delivered, the mirror is exactly
  the remote set.\<close>

theorem notification_reloads_remote_set:
  assumes "pend w = []" "redis_command (cch w) = Some c" "''sadd'' \<in> set ms"
  shows "length (pend (fold on_message ms w)) = count_list ms ''sadd'' \<and>
         in_memory_cache (cch (deliver 0 (serve 0 True (fold on_message ms w))))
           = store w (cache_key (cch w))"
proof -
  have n: "length (pend (fold on_message ms w)) = count_list ms ''sadd''"
    using fold_on_message_count [OF assms(2)] assms(1) by simp
  obtain ms1 ms2 where ms: "ms = ms1 @ ''sadd'' # ms2" "''sadd'' \<notin> set ms1"
    using split_list_first [OF assms(3)] by blast
  let ?w1 = "on_message ''sadd'' w"
  have w1: "pend ?w1 = [\<lparr>p_conn = c, p_cmd = SMembers (cache_key (cch w)), p_kont = KReload, p_reply = None\<rparr>]"
    "store ?w1 = store w" "cch ?w1 = cch w"
    using assms(1,2) by (simp_all add: on_message_def update_in_memory_cache_def send_def)
  have f: "fold on_message ms w = fold on_message ms2 ?w1"
    using ms on_message_other [OF ms(2)] by simp
  obtain qs where "pend (fold on_message ms2 ?w1) = pend ?w1 @ qs"
    "store (fold on_message ms2 ?w1) = store w" "cch (fold on_message ms2 ?w1) = cch w"
    using fold_on_message_shape [of ms2 ?w1] w1 by auto
  then show ?thesis using n f w1 reload_delivered by simp
qed

section \<open>Initialisation completes\<close>

text \<open>C22: When both connections open and Redis answers, the constructor's
  \<open>initialize()\<close> runs to its end: five steps of the interleaving (the connections
  open, \<open>SMEMBERS\<close> is served and its reply delivered, \<open>SUBSCRIBE\<close> is served and its
  reply delivered) lead from a fresh cache to a ready one. It holds both clients,
  mirrors the remote set exactly, is subscribed on the connection \<open>redisSub\<close> to the
  keyspace channel Redis publishes the key's events on, has nothing in flight, and has
  issued exactly one full load.\<close>

theorem initialization_completes:
  "\<exists>w. cstep\<^sup>*\<^sup>* (new_cache k False st) w \<and>
     redis_command (cch w) = Some 0 \<and> redis_sub (cch w) = Some 1 \<and>
     in_memory_cache (cch w) = st k \<and> subs w = [(1, redis_keyspace k)] \<and>
     pend w = [] \<and> connecting w = [] \<and> store w = st \<and> loads w = 1 \<and> out w = []"
proof -
  let ?w0 = "new_cache k False st"
  let ?w1 = "connections_opened 0 ?w0"
  let ?w2 = "serve 0 True ?w1"
  let ?w3 = "deliver 0 ?w2"
  let ?w4 = "serve 0 True ?w3"
  let ?w5 = "deliver 0 ?w4"
  have "cstep ?w0 ?w1" by (rule cstep.opened) (simp add: new_cache_def initialize_def)
  moreover have "cstep ?w1 ?w2" by (rule cstep.served) (simp add: new_cache_def op_defs can_serve_def)
  moreover have "cstep ?w2 ?w3" by (rule cstep.replied) (simp add: new_cache_def op_defs can_deliver_def)
  moreover have "cstep ?w3 ?w4" by (rule cstep.served) (simp add: new_cache_def op_defs can_serve_def)
  moreover have "cstep ?w4 ?w5" by (rule cstep.replied) (simp add: new_cache_def op_defs can_deliver_def)
  ultimately have "cstep\<^sup>*\<^sup>* ?w0 ?w5" by (meson rtranclp.rtrancl_into_rtrancl rtranclp.rtrancl_refl)
  moreover have "redis_command (cch ?w5) = Some 0 \<and> redis_sub (cch ?w5) = Some 1 \<and>
     in_memory_cache (cch ?w5) = st k \<and> subs ?w5 = [(1, redis_keyspace k)] \<and>
     pend ?w5 = [] \<and> connecting ?w5 = [] \<and> store ?w5 = st \<and> loads ?w5 = 1 \<and> out ?w5 = []"
    by (simp add: new_cache_def op_defs keyspace_channel_def redis_keyspace_def)
  ultimately show ?thesis by blast
qed

end
