(* ===== verification/CacheRuns.thy ===== *)
theory CacheRuns
  imports CacheFifo CacheAnswers
begin

text \<open>
  Concrete runs of the cache model that exhibit the hazards of the code in
  \<open>src/utils/SyncswapCache.ts\<close> and \<open>src/utils/WalletCache.ts\<close>. Each run starts from
  the constructor (\<open>syncswap_cache\<close> or \<open>wallet_cache\<close>, the module-level instances), is
  shown reachable step by step through \<open>cstep\<close>, and its end state is computed by
  \<open>simp\<close>. The runs are:
  \<^item> the initialisation race: a bulk check that arrives before the constructor's
    connections are open starts a second initialisation, so two pairs of connections and
    two full loads are issued;
  \<^item> the lost optimistic add: with two initialisations in flight, the stale full load of
    the first overwrites the mirror after \<open>addPool\<close> resolved, and a later bulk check
    does not see the pool that was just added;
  \<^item> the load/subscribe window: a member added by another process after the initial
    load was served but before the subscription was registered is never announced, and
    the mirror stays behind in a quiescent, fully initialised state;
  \<^item> the rejected bulk check: a connection failure makes \<open>bulkCheckClaveWallets\<close>
    reject instead of returning an empty set.
\<close>

section \<open>The runs\<close>

definition pools0 :: rstore where
  "pools0 = (\<lambda>k. {})(''syncswap:pools'' := {''0xaaa''})"

definition wallets0 :: rstore where
  "wallets0 = (\<lambda>k. {})(''clave:wallets'' := {''0xaaa''})"

text \<open>Run 1 and 2: two initialisations of the pool cache, then \<open>addPool\<close>.\<close>

definition race_a :: world where
  "race_a = connections_opened 0 (serve 0 True (connections_opened 0
     (bulk_check [''0xaaa''] (syncswap_cache False pools0))))"

definition race_b :: world where
  "race_b = serve 2 True (serve 1 True (add_pool ''0xBBB'' race_a))"

definition race_c :: world where
  "race_c = deliver 0 (deliver 1 (deliver 1 race_b))"

definition race_d :: world where
  "race_d = bulk_check [''0xBBB''] race_c"

text \<open>Run 3: one initialisation of the wallet cache, another process adds a wallet
  between the initial load and the subscription.\<close>

definition gap_a :: world where
  "gap_a = ext_sadd ''clave:wallets'' ''0xbbb''
     (serve 0 True (connections_opened 0 (wallet_cache False wallets0)))"

definition gap_b :: world where
  "gap_b = deliver 0 (serve 0 True (deliver 0 gap_a))"

definition gap_c :: world where
  "gap_c = bulk_check [''0xBBB''] gap_b"

text \<open>Run 4: the connection attempt of a bulk check's initialisation fails.\<close>

definition refused_a :: world where
  "refused_a = connection_failed 1 (bulk_check [''0xaaa''] (wallet_cache False wallets0))"

text \<open>Run 5: a single initialisation of the pool cache, then \<open>addPool\<close>.\<close>

definition one_a :: world where
  "one_a = deliver 0 (serve 0 True (connections_opened 0 (syncswap_cache False pools0)))"

definition one_b :: world where
  "one_b = serve 1 True (add_pool ''0xBBB'' one_a)"

definition one_c :: world where
  "one_c = deliver 1 one_b"

text \<open>Run 6: a single initialisation of the wallet cache has loaded the remote set.\<close>

definition ready_a :: world where
  "ready_a = deliver 0 (serve 0 True (connections_opened 0 (wallet_cache False wallets0)))"

definition ready_b :: world where
  "ready_b = deliver 0 (serve 0 True ready_a)"

text \<open>Run 7: the pool cache under the test flag.\<close>

definition quiet_a :: world where
  "quiet_a = add_pool ''0xBBB'' (bulk_check [''0xaaa''] (syncswap_cache True pools0))"

section \<open>The states of the runs\<close>

lemma race_a_eq:
  "race_a = \<lparr>cch = \<lparr>cache_key = ''syncswap:pools'', redis_command = Some 2, redis_sub = Some 3,
       in_memory_cache = {}\<rparr>,
     store = pools0, subs = [], inbox = [],
     pend = [\<lparr>p_conn = 0, p_cmd = SMembers ''syncswap:pools'', p_kont = KInitLoad Ctor,
              p_reply = Some (RMembers {''0xaaa''})\<rparr>,
             \<lparr>p_conn = 2, p_cmd = SMembers ''syncswap:pools'',
              p_kont = KInitLoad (BulkCaller [''0xaaa'']), p_reply = None\<rparr>],
     connecting = [], next_conn = 4, node_test = False, loads = 2, out = []\<rparr>"
  by (simp add: race_a_def pools0_def syncswap_cache_def eval_simps)

lemma race_b_eq:
  "race_b = \<lparr>cch = \<lparr>cache_key = ''syncswap:pools'', redis_command = Some 2, redis_sub = Some 3,
       in_memory_cache = {}\<rparr>,
     store = (\<lambda>k. {})(''syncswap:pools'' := {''0xbbb'', ''0xaaa''}), subs = [], inbox = [],
     pend = [\<lparr>p_conn = 0, p_cmd = SMembers ''syncswap:pools'', p_kont = KInitLoad Ctor,
              p_reply = Some (RMembers {''0xaaa''})\<rparr>,
             \<lparr>p_conn = 2, p_cmd = SMembers ''syncswap:pools'',
              p_kont = KInitLoad (BulkCaller [''0xaaa'']), p_reply = Some (RMembers {''0xaaa''})\<rparr>,
             \<lparr>p_conn = 2, p_cmd = SAdd ''syncswap:pools'' ''0xbbb'', p_kont = KAddPool ''0xbbb'',
              p_reply = Some (RAdded True)\<rparr>],
     connecting = [], next_conn = 4, node_test = False, loads = 2, out = []\<rparr>"
  by (simp add: race_b_def race_a_eq pools0_def eval_simps)

lemma race_c_eq:
  "race_c = \<lparr>cch = \<lparr>cache_key = ''syncswap:pools'', redis_command = Some 2, redis_sub = Some 3,
       in_memory_cache = {''0xaaa''}\<rparr>,
     store = (\<lambda>k. {})(''syncswap:pools'' := {''0xbbb'', ''0xaaa''}), subs = [], inbox = [],
     pend = [\<lparr>p_conn = 3, p_cmd = Subscribe ''__keyspace@0__:syncswap:pools'',
              p_kont = KInitSub (BulkCaller [''0xaaa'']), p_reply = None\<rparr>,
             \<lparr>p_conn = 3, p_cmd = Subscribe ''__keyspace@0__:syncswap:pools'',
              p_kont = KInitSub Ctor, p_reply = None\<rparr>],
     connecting = [], next_conn = 4, node_test = False, loads = 2,
     out = [PoolAdded ''0xbbb'']\<rparr>"
  by (simp add: race_c_def race_b_eq eval_simps)

lemma race_d_out: "out race_d = [PoolAdded ''0xbbb'', BulkReturned [''0xBBB''] {}]"
  by (simp add: race_d_def race_c_eq eval_simps)

lemma reach_race_a: "reach race_a"
proof -
  let ?w1 = "bulk_check [''0xaaa''] (syncswap_cache False pools0)"
  have r1: "reach ?w1" unfolding syncswap_cache_def by (rule reach.step [OF reach.init cstep.bulk])
  have r2: "reach (connections_opened 0 ?w1)"
    by (rule reach.step [OF r1 cstep.opened]) (simp add: syncswap_cache_def eval_simps)
  have r3: "reach (serve 0 True (connections_opened 0 ?w1))"
    by (rule reach.step [OF r2 cstep.served]) (simp add: syncswap_cache_def eval_simps)
  show ?thesis unfolding race_a_def
    by (rule reach.step [OF r3 cstep.opened]) (simp add: syncswap_cache_def pools0_def eval_simps)
qed

lemma reach_race_d: "reach race_d"
proof -
  have r1: "reach (add_pool ''0xBBB'' race_a)"
    by (rule reach.step [OF reach_race_a cstep.add]) (simp add: race_a_eq)
  have r2: "reach (serve 1 True (add_pool ''0xBBB'' race_a))"
    by (rule reach.step [OF r1 cstep.served]) (simp add: race_a_eq eval_simps)
  have r3: "reach race_b" unfolding race_b_def
    by (rule reach.step [OF r2 cstep.served]) (simp add: race_a_eq pools0_def eval_simps)
  have r4: "reach (deliver 1 race_b)"
    by (rule reach.step [OF r3 cstep.replied]) (simp add: race_b_eq eval_simps)
  have r5: "reach (deliver 1 (deliver 1 race_b))"
    by (rule reach.step [OF r4 cstep.replied]) (simp add: race_b_eq eval_simps)
  have r6: "reach race_c" unfolding race_c_def
    by (rule reach.step [OF r5 cstep.replied]) (simp add: race_b_eq eval_simps)
  show ?thesis unfolding race_d_def by (rule reach.step [OF r6 cstep.bulk])
qed

lemma gap_a_eq:
  "gap_a = \<lparr>cch = \<lparr>cache_key = ''clave:wallets'', redis_command = Some 0, redis_sub = Some 1,
       in_memory_cache = {}\<rparr>,
     store = (\<lambda>k. {})(''clave:wallets'' := {''0xbbb'', ''0xaaa''}), subs = [], inbox = [],
     pend = [\<lparr>p_conn = 0, p_cmd = SMembers ''clave:wallets'', p_kont = KInitLoad Ctor,
              p_reply = Some (RMembers {''0xaaa''})\<rparr>],
     connecting = [], next_conn = 2, node_test = False, loads = 1, out = []\<rparr>"
  by (simp add: gap_a_def wallets0_def wallet_cache_def eval_simps)

lemma gap_b_eq:
  "gap_b = \<lparr>cch = \<lparr>cache_key = ''clave:wallets'', redis_command = Some 0, redis_sub = Some 1,
       in_memory_cache = {''0xaaa''}\<rparr>,
     store = (\<lambda>k. {})(''clave:wallets'' := {''0xbbb'', ''0xaaa''}),
     subs = [(1, ''__keyspace@0__:clave:wallets'')], inbox = [], pend = [],
     connecting = [], next_conn = 2, node_test = False, loads = 1, out = []\<rparr>"
  by (simp add: gap_b_def gap_a_eq eval_simps)

lemma gap_c_out: "out gap_c = [BulkReturned [''0xBBB''] {}]"
  by (simp add: gap_c_def gap_b_eq eval_simps)

lemma reach_gap_c: "reach gap_c"
proof -
  let ?w0 = "wallet_cache False wallets0"
  have r1: "reach (connections_opened 0 ?w0)"
    unfolding wallet_cache_def
    by (rule reach.step [OF reach.init cstep.opened]) (simp add: eval_simps)
  have r2: "reach (serve 0 True (connections_opened 0 ?w0))"
    by (rule reach.step [OF r1 cstep.served]) (simp add: wallet_cache_def eval_simps)
  have r3: "reach gap_a" unfolding gap_a_def by (rule reach.step [OF r2 cstep.other_add])
  have r4: "reach (deliver 0 gap_a)"
    by (rule reach.step [OF r3 cstep.replied]) (simp add: gap_a_eq eval_simps)
  have r5: "reach (serve 0 True (deliver 0 gap_a))"
    by (rule reach.step [OF r4 cstep.served]) (simp add: gap_a_eq eval_simps)
  have r6: "reach gap_b" unfolding gap_b_def
    by (rule reach.step [OF r5 cstep.replied]) (simp add: gap_a_eq eval_simps)
  show ?thesis unfolding gap_c_def by (rule reach.step [OF r6 cstep.bulk])
qed

lemma refused_a_out: "out refused_a = [BulkRejected [''0xaaa'']]"
  by (simp add: refused_a_def wallet_cache_def eval_simps)

lemma reach_refused_a: "reach refused_a"
proof -
  have r1: "reach (bulk_check [''0xaaa''] (wallet_cache False wallets0))"
    unfolding wallet_cache_def by (rule reach.step [OF reach.init cstep.bulk])
  show ?thesis unfolding refused_a_def
    by (rule reach.step [OF r1 cstep.refused]) (simp add: wallet_cache_def eval_simps)
qed

lemma one_a_eq:
  "one_a = \<lparr>cch = \<lparr>cache_key = ''syncswap:pools'', redis_command = Some 0, redis_sub = Some 1,
       in_memory_cache = {''0xaaa''}\<rparr>,
     store = pools0, subs = [], inbox = [],
     pend = [\<lparr>p_conn = 1, p_cmd = Subscribe ''__keyspace@0__:syncswap:pools'',
              p_kont = KInitSub Ctor, p_reply = None\<rparr>],
     connecting = [], next_conn = 2, node_test = False, loads = 1, out = []\<rparr>"
  by (simp add: one_a_def pools0_def syncswap_cache_def eval_simps)

lemma one_b_eq:
  "one_b = \<lparr>cch = \<lparr>cache_key = ''syncswap:pools'', redis_command = Some 0, redis_sub = Some 1,
       in_memory_cache = {''0xaaa''}\<rparr>,
     store = (\<lambda>k. {})(''syncswap:pools'' := {''0xbbb'', ''0xaaa''}), subs = [], inbox = [],
     pend = [\<lparr>p_conn = 1, p_cmd = Subscribe ''__keyspace@0__:syncswap:pools'',
              p_kont = KInitSub Ctor, p_reply = None\<rparr>,
             \<lparr>p_conn = 0, p_cmd = SAdd ''syncswap:pools'' ''0xbbb'', p_kont = KAddPool ''0xbbb'',
              p_reply = Some (RAdded True)\<rparr>],
     connecting = [], next_conn = 2, node_test = False, loads = 1, out = []\<rparr>"
  by (simp add: one_b_def one_a_eq pools0_def eval_simps)

lemma one_c_eq:
  "one_c = \<lparr>cch = \<lparr>cache_key = ''syncswap:pools'', redis_command = Some 0, redis_sub = Some 1,
       in_memory_cache = {''0xbbb'', ''0xaaa''}\<rparr>,
     store = (\<lambda>k. {})(''syncswap:pools'' := {''0xbbb'', ''0xaaa''}), subs = [], inbox = [],
     pend = [\<lparr>p_conn = 1, p_cmd = Subscribe ''__keyspace@0__:syncswap:pools'',
              p_kont = KInitSub Ctor, p_reply = None\<rparr>],
     connecting = [], next_conn = 2, node_test = False, loads = 1, out = [PoolAdded ''0xbbb'']\<rparr>"
  by (simp add: one_c_def one_b_eq eval_simps)

lemma reach_one_b: "reach one_b"
proof -
  let ?w0 = "syncswap_cache False pools0"
  have r1: "reach (connections_opened 0 ?w0)"
    unfolding syncswap_cache_def
    by (rule reach.step [OF reach.init cstep.opened]) (simp add: eval_simps)
  have r2: "reach (serve 0 True (connections_opened 0 ?w0))"
    by (rule reach.step [OF r1 cstep.served]) (simp add: syncswap_cache_def eval_simps)
  have r3: "reach one_a" unfolding one_a_def
    by (rule reach.step [OF r2 cstep.replied]) (simp add: syncswap_cache_def pools0_def eval_simps)
  have r4: "reach (add_pool ''0xBBB'' one_a)"
    by (rule reach.step [OF r3 cstep.add]) (simp add: one_a_eq)
  show ?thesis unfolding one_b_def
    by (rule reach.step [OF r4 cstep.served]) (simp add: one_a_eq eval_simps)
qed

lemma cstep_one_c: "cstep one_b one_c"
  unfolding one_c_def by (rule cstep.replied) (simp add: one_b_eq eval_simps)

lemma ready_a_mirror: "in_memory_cache (cch ready_a) = {''0xaaa''}"
  by (simp add: ready_a_def wallets0_def wallet_cache_def eval_simps)

lemma reach_ready_a: "reach ready_a"
proof -
  let ?w0 = "wallet_cache False wallets0"
  have r1: "reach (connections_opened 0 ?w0)"
    unfolding wallet_cache_def
    by (rule reach.step [OF reach.init cstep.opened]) (simp add: eval_simps)
  have r2: "reach (serve 0 True (connections_opened 0 ?w0))"
    by (rule reach.step [OF r1 cstep.served]) (simp add: wallet_cache_def eval_simps)
  show ?thesis unfolding ready_a_def
    by (rule reach.step [OF r2 cstep.replied]) (simp add: wallet_cache_def wallets0_def eval_simps)
qed

lemma ready_b_fields:
  "pend ready_b = [] \<and> store ready_b = wallets0 \<and>
   cch ready_b = \<lparr>cache_key = ''clave:wallets'', redis_command = Some 0, redis_sub = Some 1,
     in_memory_cache = {''0xaaa''}\<rparr>"
  by (simp add: ready_b_def ready_a_def wallets0_def wallet_cache_def eval_simps)

lemma reach_quiet_a: "reach quiet_a"
  unfolding quiet_a_def syncswap_cache_def
  by (rule reach.step [OF reach.step [OF reach.init cstep.bulk] cstep.add]) (simp add: eval_simps)

section \<open>What the runs show\<close>

text \<open>
  Claim C2. The initialisation race: the constructor starts \<open>initialize()\<close>, and a
  bulk check that runs before its connections are open finds \<open>redisCommand\<close> unset and
  starts a second one. Both open a pair of connections and both issue a full load, so a
  reachable state has issued two full loads (and four connections) before the cache is
  ready, where the spec allows one.
\<close>

theorem init_race_two_loads:
  "\<exists>w. reach w \<and> loads w = 2 \<and> next_conn w = 4 \<and> in_memory_cache (cch w) = {}"
proof (intro exI conjI)
  show "reach race_a" by (rule reach_race_a)
qed (simp_all add: race_a_eq)

text \<open>
  Claim C3. The optimistic add of \<open>addPool\<close> can be lost. With the two
  initialisations of the race in flight, \<open>addPool(''0xBBB'')\<close> resolves and inserts the
  pool into the mirror, then the stale full load of the first initialisation arrives on
  the other connection and replaces the mirror; a bulk check issued afterwards on the
  same instance returns the empty set although the pool is in the remote set.
\<close>

theorem added_pool_not_visible:
  "\<exists>w. reach w \<and> out w = [PoolAdded ''0xbbb'', BulkReturned [''0xBBB''] {}] \<and>
       ''0xbbb'' \<in> store w ''syncswap:pools''"
proof (intro exI conjI)
  show "reach race_d" by (rule reach_race_d)
  show "out race_d = [PoolAdded ''0xbbb'', BulkReturned [''0xBBB''] {}]" by (rule race_d_out)
  show "''0xbbb'' \<in> store race_d ''syncswap:pools''"
    by (simp add: race_d_def race_c_eq eval_simps)
qed

text \<open>
  Claim C4. \<open>initialize\<close> loads the set before it subscribes. A member another process
  adds between the two is announced to nobody, so the cache reaches a quiescent state
  (no command in flight, no notification pending, no initialisation waiting, the
  subscription registered) whose mirror lacks a remote member, and a bulk check for it
  returns the empty set.
\<close>

theorem subscribe_gap_misses_member:
  "\<exists>w. reach w \<and> pend w = [] \<and> inbox w = [] \<and> connecting w = [] \<and> subs w \<noteq> [] \<and>
       ''0xbbb'' \<in> store w ''clave:wallets'' \<and> out w = [BulkReturned [''0xBBB''] {}]"
proof (intro exI conjI)
  show "reach gap_c" by (rule reach_gap_c)
  show "out gap_c = [BulkReturned [''0xBBB''] {}]" by (rule gap_c_out)
qed (simp_all add: gap_c_def gap_b_eq eval_simps)

text \<open>
  Claim C5. \<open>bulkCheckClaveWallets\<close> awaits \<open>initialize()\<close> outside its
  \<open>try\<close> block, so a failed connection attempt makes the bulk check reject instead of
  returning an empty set.
\<close>

theorem bulk_check_can_reject:
  "\<exists>w. reach w \<and> out w = [BulkRejected [''0xaaa'']]"
proof (intro exI conjI)
  show "reach refused_a" by (rule reach_refused_a)
qed (rule refused_a_out)

section \<open>Witnesses of the single-initialisation guarantees\<close>

theorem mirror_never_shrinks_witness:
  "reach one_b \<and> cstep one_b one_c \<and> next_conn one_c \<le> 2 \<and>
   in_memory_cache (cch one_b) \<subseteq> in_memory_cache (cch one_c) \<and>
   in_memory_cache (cch one_c) = {''0xbbb'', ''0xaaa''}"
proof -
  have n: "next_conn one_c \<le> 2" by (simp add: one_c_eq)
  have s: "in_memory_cache (cch one_b) \<subseteq> in_memory_cache (cch one_c)"
    by (rule mirror_never_shrinks [OF reach_one_b cstep_one_c n])
  have m: "in_memory_cache (cch one_c) = {''0xbbb'', ''0xaaa''}" by (simp add: one_c_eq)
  from reach_one_b cstep_one_c n s m show ?thesis by blast
qed

theorem added_pool_stays_visible_witness:
  "reach one_c \<and> next_conn one_c \<le> 2 \<and> PoolAdded ''0xbbb'' \<in> set (out one_c) \<and>
   ''0xbbb'' \<in> in_memory_cache (cch one_c)"
proof -
  have r: "reach one_c" by (rule reach.step [OF reach_one_b cstep_one_c])
  have n: "next_conn one_c \<le> 2" and o: "PoolAdded ''0xbbb'' \<in> set (out one_c)"
    by (simp_all add: one_c_eq)
  from r n o show ?thesis by (simp add: added_pool_stays_visible [OF r n o])
qed

section \<open>Witnesses of the guarantees to callers\<close>

theorem bulk_answers_remote_witness:
  "reach (bulk_check [''0xAAA''] ready_a) \<and>
   BulkReturned [''0xAAA''] {''0xaaa''} \<in> set (out (bulk_check [''0xAAA''] ready_a)) \<and>
   {''0xaaa''} \<subseteq> store (bulk_check [''0xAAA''] ready_a) (cache_key (cch (bulk_check [''0xAAA''] ready_a)))
     \<inter> to_lower ` set [''0xAAA'']"
proof -
  have r: "reach (bulk_check [''0xAAA''] ready_a)" by (rule reach.step [OF reach_ready_a cstep.bulk])
  have o: "BulkReturned [''0xAAA''] {''0xaaa''} \<in> set (out (bulk_check [''0xAAA''] ready_a))"
    by (simp add: ready_a_def wallets0_def wallet_cache_def eval_simps)
  show ?thesis using bulk_answers_remote [OF r o] r o by blast
qed

theorem test_mode_no_network_witness:
  "reach quiet_a \<and> node_test quiet_a \<and>
   out quiet_a = [BulkReturned [''0xaaa''] {}, PoolRejected ''0xbbb''] \<and>
   loads quiet_a = 0 \<and> pend quiet_a = [] \<and> redis_command (cch quiet_a) = None \<and>
   in_memory_cache (cch quiet_a) = {}"
proof -
  have t: "node_test quiet_a" and o: "out quiet_a = [BulkReturned [''0xaaa''] {}, PoolRejected ''0xbbb'']"
    by (simp_all add: quiet_a_def syncswap_cache_def eval_simps)
  show ?thesis using test_mode_no_network [OF reach_quiet_a t] reach_quiet_a t o by simp
qed

theorem notification_reloads_remote_set_witness:
  "pend ready_b = [] \<and> redis_command (cch ready_b) = Some 0 \<and>
   ''sadd'' \<in> set [''srem'', ''sadd'', ''expire''] \<and>
   length (pend (fold on_message [''srem'', ''sadd'', ''expire''] ready_b)) = 1 \<and>
   in_memory_cache (cch (deliver 0 (serve 0 True
     (fold on_message [''srem'', ''sadd'', ''expire''] ready_b)))) = {''0xaaa''}"
proof -
  have p: "pend ready_b = []" and c: "redis_command (cch ready_b) = Some 0"
    using ready_b_fields by simp_all
  have m: "''sadd'' \<in> set [''srem'', ''sadd'', ''expire'']" by simp
  show ?thesis
    using notification_reloads_remote_set [OF p c m] p c ready_b_fields by (simp add: wallets0_def)
qed

end
