(* ===== verification/Ledger.thy ===== *)
theory Ledger
  imports Prelude
begin

text \<open>
  The ledger of \<open>src/src/ERC20Handler.ts\<close>: the entities the indexer writes
  (\<open>Account\<close>, \<open>AccountIdleBalance\<close> and the four
  \<open>HistoricalAccountIdleBalance\<close> tables), the \<open>Transfer\<close> event, the entity
  writes of the handlers (\<open>context.<Entity>.set\<close>), the \<open>previousBalance\<close> object of
  \<open>PlainTransferHandler\<close> and \<open>setHistoricalBalance\<close> with its time buckets. The
  entity store is a record of maps from entity id to entity; a \<open>set\<close> replaces the
  entity with that id. \<open>roundTimestamp\<close> of \<open>src/utils/helpers.ts\<close> is not part of
  the sources and is modelled as rounding down to a multiple of the period.
\<close>

section \<open>Entities and events\<close>

record idle_balance =
  ib_id :: string
  ib_balance :: int
  ib_address :: string
  ib_token :: string

record account =
  acc_id :: string
  acc_address :: string

record hist_balance =
  hb_id :: string
  hb_balance :: int
  hb_address :: string
  hb_token :: string
  hb_timestamp :: int

text \<open>The four snapshot entities \<open>HistoricalAccountIdleBalance4Hours\<close>, \<open>1Day\<close>,
  \<open>1Week\<close> and \<open>1Month\<close>, one table per granularity.\<close>

datatype granularity = Hours4 | Day1 | Week1 | Month1

record ledger =
  account_tbl :: "string \<rightharpoonup> account"
  idle_tbl :: "string \<rightharpoonup> idle_balance"
  hist_tbl :: "granularity \<Rightarrow> string \<rightharpoonup> hist_balance"

text \<open>An \<open>ERC20_Transfer_event\<close>: parameters \<open>from\<close>, \<open>to\<close>, \<open>value\<close> (a
  \<open>bigint\<close>), the token contract \<open>srcAddress\<close>, and the block timestamp.\<close>

record transfer =
  t_from :: string
  t_to :: string
  t_src :: string
  t_value :: int
  t_ts :: nat

definition empty_ledger :: ledger where
  "empty_ledger = \<lparr>account_tbl = Map.empty, idle_tbl = Map.empty, hist_tbl = (\<lambda>g. Map.empty)\<rparr>"

section \<open>Time buckets\<close>

definition round_timestamp :: "nat \<Rightarrow> nat \<Rightarrow> nat" where
  "round_timestamp ts p = ts div p * p"

text \<open>The period each snapshot table passes to \<open>roundTimestamp\<close>; the daily table
  uses the helper's default period, one day.\<close>

fun period :: "granularity \<Rightarrow> nat" where
  "period Hours4 = 3600 * 4"
| "period Day1 = 86400"
| "period Week1 = 86400 * 7"
| "period Month1 = 86400 * 30"

section \<open>Entity ids\<close>

text \<open>The id of an \<open>AccountIdleBalance\<close>: lower-cased holder followed by lower-cased
  token.\<close>

definition idle_key :: "string \<Rightarrow> string \<Rightarrow> string" where
  "idle_key a tok = to_lower a @ to_lower tok"

section \<open>Entity writes\<close>

definition set_account :: "string \<Rightarrow> ledger \<Rightarrow> ledger" where
  "set_account a db = db\<lparr>account_tbl := (account_tbl db)(a \<mapsto> \<lparr>acc_id = a, acc_address = a\<rparr>)\<rparr>"

definition set_idle :: "idle_balance \<Rightarrow> ledger \<Rightarrow> ledger" where
  "set_idle b db = db\<lparr>idle_tbl := (idle_tbl db)(ib_id b \<mapsto> b)\<rparr>"

definition snapshot :: "granularity \<Rightarrow> idle_balance \<Rightarrow> nat \<Rightarrow> hist_balance" where
  "snapshot g b ts =
     \<lparr>hb_id = ib_id b @ dec_string (round_timestamp ts (period g)),
      hb_balance = ib_balance b, hb_address = ib_address b, hb_token = ib_token b,
      hb_timestamp = int (round_timestamp ts (period g))\<rparr>"

definition set_hist :: "granularity \<Rightarrow> hist_balance \<Rightarrow> ledger \<Rightarrow> ledger" where
  "set_hist g h db = db\<lparr>hist_tbl := (hist_tbl db)(g := (hist_tbl db g)(hb_id h \<mapsto> h))\<rparr>"

definition set_historical_balance :: "idle_balance \<Rightarrow> nat \<Rightarrow> ledger \<Rightarrow> ledger" where
  "set_historical_balance b ts db =
     set_hist Month1 (snapshot Month1 b ts)
       (set_hist Week1 (snapshot Week1 b ts)
         (set_hist Day1 (snapshot Day1 b ts)
           (set_hist Hours4 (snapshot Hours4 b ts) db)))"

section \<open>Balances\<close>

text \<open>The \<open>previousBalance\<close> object: the pre-fetched balance, or zero when the
  loader found none.\<close>

definition previous_balance :: "string \<Rightarrow> string \<Rightarrow> idle_balance option \<Rightarrow> idle_balance" where
  "previous_balance a tok loaded =
     \<lparr>ib_id = idle_key a tok,
      ib_balance = (case loaded of None \<Rightarrow> 0 | Some b \<Rightarrow> ib_balance b),
      ib_address = to_lower a, ib_token = to_lower tok\<rparr>"

text \<open>The balance a reader of \<open>AccountIdleBalance\<close> sees, zero when there is none.\<close>

definition bal :: "ledger \<Rightarrow> string \<Rightarrow> int" where
  "bal db k = (case idle_tbl db k of None \<Rightarrow> 0 | Some b \<Rightarrow> ib_balance b)"

text \<open>Well-formedness of the entity store: every entity sits under its own id, and an
  idle balance's id is the key the loader computes from its holder and token.\<close>

definition ledger_wf :: "ledger \<Rightarrow> bool" where
  "ledger_wf db \<longleftrightarrow>
     (\<forall>k r. idle_tbl db k = Some r \<longrightarrow> ib_id r = k \<and> k = ib_address r @ ib_token r) \<and>
     (\<forall>g k h. hist_tbl db g k = Some h \<longrightarrow> hb_id h = k) \<and>
     (\<forall>k a. account_tbl db k = Some a \<longrightarrow> acc_id a = k \<and> acc_address a = k)"

text \<open>Every entity id is in the normal form of the lower-case fold.\<close>

definition ledger_lower :: "ledger \<Rightarrow> bool" where
  "ledger_lower db \<longleftrightarrow>
     (\<forall>k \<in> dom (idle_tbl db). to_lower k = k) \<and> (\<forall>k \<in> dom (account_tbl db). to_lower k = k) \<and>
     (\<forall>g. \<forall>k \<in> dom (hist_tbl db g). to_lower k = k)"

section \<open>Lemmas\<close>

lemma idle_key_eq_iff_same_token [simp]:
  "idle_key a tok = idle_key b tok \<longleftrightarrow> to_lower a = to_lower b"
  by (simp add: idle_key_def)

lemma frame_set_account [simp]:
  "idle_tbl (set_account a db) = idle_tbl db" "hist_tbl (set_account a db) = hist_tbl db"
  by (simp_all add: set_account_def)

lemma frame_set_idle [simp]:
  "account_tbl (set_idle b db) = account_tbl db" "hist_tbl (set_idle b db) = hist_tbl db"
  "idle_tbl (set_idle b db) = (idle_tbl db)(ib_id b \<mapsto> b)"
  by (simp_all add: set_idle_def)

lemma frame_set_historical_balance [simp]:
  "account_tbl (set_historical_balance b ts db) = account_tbl db"
  "idle_tbl (set_historical_balance b ts db) = idle_tbl db"
  by (simp_all add: set_historical_balance_def set_hist_def)

lemma hist_set_historical_balance:
  "hist_tbl (set_historical_balance b ts db) g =
     (hist_tbl db g)(hb_id (snapshot g b ts) \<mapsto> snapshot g b ts)"
  by (cases g) (simp_all add: set_historical_balance_def set_hist_def)

lemma previous_balance_simps [simp]:
  "ib_id (previous_balance a tok l) = idle_key a tok"
  "ib_address (previous_balance a tok l) = to_lower a"
  "ib_token (previous_balance a tok l) = to_lower tok"
  "ib_balance (previous_balance a tok l) = (case l of None \<Rightarrow> 0 | Some b \<Rightarrow> ib_balance b)"
  by (simp_all add: previous_balance_def)

lemma previous_balance_loaded:
  "ib_balance (previous_balance a tok (idle_tbl db (idle_key a tok))) = bal db (idle_key a tok)"
  by (simp add: bal_def split: option.splits)

lemma bal_update: "bal (db\<lparr>idle_tbl := (idle_tbl db)(k \<mapsto> b)\<rparr>) k' = (if k' = k then ib_balance b else bal db k')"
  by (simp add: bal_def)

lemma snapshot_id: "hb_id (snapshot g b ts) = ib_id b @ dec_string (round_timestamp ts (period g))"
  by (simp add: snapshot_def)

text \<open>C13: Two snapshots of the same balance written to the same table get the same id exactly when their timestamps fall in the same bucket: the decimal suffix of the id loses no information.\<close>

theorem snapshot_id_per_bucket:
  "hb_id (snapshot g b t1) = hb_id (snapshot g b t2) \<longleftrightarrow>
     round_timestamp t1 (period g) = round_timestamp t2 (period g)"
  by (simp add: snapshot_id dec_string_inj)


lemma ledger_wf_set_account: "ledger_wf db \<Longrightarrow> ledger_wf (set_account a db)"
  by (simp add: ledger_wf_def set_account_def)

lemma ledger_wf_set_idle:
  "ledger_wf db \<Longrightarrow> ib_id b = ib_address b @ ib_token b \<Longrightarrow> ledger_wf (set_idle b db)"
  by (simp add: ledger_wf_def)

lemma ledger_wf_set_historical_balance:
  "ledger_wf db \<Longrightarrow> ledger_wf (set_historical_balance b ts db)"
  unfolding ledger_wf_def by (simp add: hist_set_historical_balance)

lemma ledger_wf_write_balance:
  "ledger_wf db \<Longrightarrow>
     ledger_wf (set_historical_balance (previous_balance a tok l) ts
       (set_idle ((previous_balance a tok l)\<lparr>ib_balance := x\<rparr>) db))"
  by (intro ledger_wf_set_historical_balance ledger_wf_set_idle) (simp_all add: idle_key_def)

lemma to_lower_idle_key [simp]: "to_lower (idle_key a tok) = idle_key a tok"
  by (simp add: idle_key_def to_lower_append)

lemma ledger_lower_set_account: "ledger_lower db \<Longrightarrow> ledger_lower (set_account (to_lower a) db)"
  by (simp add: ledger_lower_def set_account_def)

lemma ledger_lower_write_balance:
  "ledger_lower db \<Longrightarrow>
     ledger_lower (set_historical_balance (previous_balance a tok l) ts
       (set_idle ((previous_balance a tok l)\<lparr>ib_balance := x\<rparr>) db))"
  by (simp add: ledger_lower_def hist_set_historical_balance snapshot_id to_lower_append)

end
