(* ===== verification/TransferRouter.thy ===== *)
theory TransferRouter
  imports Ledger
begin

text \<open>
  The transfer router of \<open>src/src/ERC20Handler.ts\<close>, over the entities of \<open>Ledger\<close>:
  the loader that pre-fetches the two idle balances, the two accounts and the answers of
  the two membership caches for one \<open>Transfer\<close> event; the handler that filters the
  event and creates accounts; \<open>PlainTransferHandler\<close>, which debits and credits the idle
  balances and calls \<open>setHistoricalBalance\<close>; and the processing of an event stream.
  The membership caches are an interface: a bulk check is any function from an address
  list to a resolved set (\<open>Some\<close>) or a rejected promise (\<open>None\<close>); the root theory
  plugs the cache model in. The protocol address lists of \<open>src/constants/\<close> are not
  part of the sources and are configuration parameters.
\<close>

section \<open>Configuration and the loader\<close>

text \<open>The process environment (\<open>NODE_ENV == "test"\<close>, \<open>TEST_MODE == "syncswap"\<close>)
  and the static protocol addresses the handler consults.\<close>

record router_cfg =
  node_env_test :: bool
  test_mode_syncswap :: bool
  clagg_main :: string
  venus_pools :: "string list"
  aave_pools :: "string list"

text \<open>A bulk membership query as the router sees it: the promise resolves to a set or
  rejects.\<close>

type_synonym bulk_check_fn = "addr list \<Rightarrow> addr set option"

record loader_ret =
  sender_balance :: "idle_balance option"
  receiver_balance :: "idle_balance option"
  clave_addresses :: "addr set"
  sender_account :: "account option"
  receiver_account :: "account option"
  syncswap_pools :: "addr set"

definition loader :: "bulk_check_fn \<Rightarrow> bulk_check_fn \<Rightarrow> ledger \<Rightarrow> transfer \<Rightarrow> loader_ret option" where
  "loader wallets pools db ev =
     (case (wallets [to_lower (t_from ev), to_lower (t_to ev)], pools [to_lower (t_src ev)]) of
        (Some cl, Some sp) \<Rightarrow> Some
          \<lparr>sender_balance = idle_tbl db (idle_key (t_from ev) (t_src ev)),
           receiver_balance = idle_tbl db (idle_key (t_to ev) (t_src ev)),
           clave_addresses = cl,
           sender_account = account_tbl db (to_lower (t_from ev)),
           receiver_account = account_tbl db (to_lower (t_to ev)),
           syncswap_pools = sp\<rparr>
      | _ \<Rightarrow> None)"

section \<open>Handlers\<close>

definition plain_transfer_handler :: "transfer \<Rightarrow> loader_ret \<Rightarrow> ledger \<Rightarrow> ledger" where
  "plain_transfer_handler ev lr db =
     (let db1 =
        (if to_lower (t_from ev) \<in> clave_addresses lr then
           let prev = previous_balance (t_from ev) (t_src ev) (sender_balance lr)
           in set_historical_balance prev (t_ts ev)
                (set_idle (prev\<lparr>ib_balance := ib_balance prev - t_value ev\<rparr>) db)
         else db)
      in if to_lower (t_to ev) \<in> clave_addresses lr then
           let prev = previous_balance (t_to ev) (t_src ev) (receiver_balance lr)
           in set_historical_balance prev (t_ts ev)
                (set_idle (prev\<lparr>ib_balance := ib_balance prev + t_value ev\<rparr>) db1)
         else db1)"

text \<open>The four early returns on the token contract: a Syncswap pool, the Clagg main
  contract, a Venus pool, an Aave pool. The pool lists are compared against the
  lower-cased source address as they are written.\<close>

definition protocol_excluded :: "router_cfg \<Rightarrow> addr set \<Rightarrow> string \<Rightarrow> bool" where
  "protocol_excluded cfg pools src \<longleftrightarrow>
     to_lower src \<in> pools \<or> to_lower (clagg_main cfg) = to_lower src \<or>
     to_lower src \<in> set (venus_pools cfg) \<or> to_lower src \<in> set (aave_pools cfg)"

definition erc20_handler :: "router_cfg \<Rightarrow> transfer \<Rightarrow> loader_ret \<Rightarrow> ledger \<Rightarrow> ledger" where
  "erc20_handler cfg ev lr0 db =
     (if t_from ev = t_to ev then db else
      let lr1 = (if node_env_test cfg
                 then lr0\<lparr>clave_addresses := {to_lower (t_from ev), to_lower (t_to ev)}\<rparr> else lr0);
          cl = clave_addresses lr1
      in if cl = {} then db else
      let fa = to_lower (t_from ev); ta = to_lower (t_to ev);
          db1 = (if sender_account lr1 = None \<and> fa \<in> cl then set_account fa db else db);
          db2 = (if receiver_account lr1 = None \<and> ta \<in> cl then set_account ta db1 else db1);
          lr2 = (if node_env_test cfg \<and> test_mode_syncswap cfg
                 then lr1\<lparr>syncswap_pools := {to_lower (t_src ev)}\<rparr> else lr1)
      in if protocol_excluded cfg (syncswap_pools lr2) (t_src ev) then db2
         else plain_transfer_handler ev lr2 db2)"

text \<open>One event as the indexer processes it: the loader, then the handler on the
  loader's result. A rejected pre-fetch fails the event (\<open>None\<close>).\<close>

definition process_event ::
  "router_cfg \<Rightarrow> bulk_check_fn \<Rightarrow> bulk_check_fn \<Rightarrow> transfer \<Rightarrow> ledger \<Rightarrow> ledger option" where
  "process_event cfg wallets pools ev db =
     (case loader wallets pools db ev of
        None \<Rightarrow> None
      | Some lr \<Rightarrow> Some (erc20_handler cfg ev lr db))"

text \<open>Events are processed one at a time, in order; a failed event stops the stream.\<close>

fun process_events ::
  "router_cfg \<Rightarrow> bulk_check_fn \<Rightarrow> bulk_check_fn \<Rightarrow> transfer list \<Rightarrow> ledger \<Rightarrow> ledger option" where
  "process_events cfg wallets pools [] db = Some db"
| "process_events cfg wallets pools (ev # evs) db =
     (case process_event cfg wallets pools ev db of
        None \<Rightarrow> None
      | Some db' \<Rightarrow> process_events cfg wallets pools evs db')"

text \<open>The abstract ledger: the change a transfer makes to the balance under key \<open>k\<close>,
  double-entry style, given the answers of the two membership queries.\<close>

definition ledger_delta :: "bulk_check_fn \<Rightarrow> bulk_check_fn \<Rightarrow> router_cfg \<Rightarrow> transfer \<Rightarrow> string \<Rightarrow> int" where
  "ledger_delta wallets pools cfg ev k =
     (case (wallets [to_lower (t_from ev), to_lower (t_to ev)], pools [to_lower (t_src ev)]) of
        (Some W, Some P) \<Rightarrow>
          if t_from ev = t_to ev \<or> protocol_excluded cfg P (t_src ev) then 0
          else (if to_lower (t_to ev) \<in> W \<and> k = idle_key (t_to ev) (t_src ev) then t_value ev else 0)
             - (if to_lower (t_from ev) \<in> W \<and> k = idle_key (t_from ev) (t_src ev) then t_value ev else 0)
      | _ \<Rightarrow> 0)"

section \<open>Lemmas\<close>

lemma plain_transfer_idle:
  "idle_tbl (plain_transfer_handler ev lr db) =
     (let f = (if to_lower (t_from ev) \<in> clave_addresses lr then
                 (idle_tbl db)(idle_key (t_from ev) (t_src ev) \<mapsto>
                    (previous_balance (t_from ev) (t_src ev) (sender_balance lr))
                      \<lparr>ib_balance := ib_balance (previous_balance (t_from ev) (t_src ev) (sender_balance lr)) - t_value ev\<rparr>)
               else idle_tbl db)
      in if to_lower (t_to ev) \<in> clave_addresses lr then
           f(idle_key (t_to ev) (t_src ev) \<mapsto>
               (previous_balance (t_to ev) (t_src ev) (receiver_balance lr))
                 \<lparr>ib_balance := ib_balance (previous_balance (t_to ev) (t_src ev) (receiver_balance lr)) + t_value ev\<rparr>)
         else f)"
  by (simp add: plain_transfer_handler_def Let_def)


lemma plain_transfer_idle_cong:
  "idle_tbl db = idle_tbl db' \<Longrightarrow>
     idle_tbl (plain_transfer_handler ev lr db) = idle_tbl (plain_transfer_handler ev lr db')"
  by (simp add: plain_transfer_idle)

lemma loader_Some:
  "loader wallets pools db ev = Some lr \<Longrightarrow>
     sender_balance lr = idle_tbl db (idle_key (t_from ev) (t_src ev)) \<and>
     receiver_balance lr = idle_tbl db (idle_key (t_to ev) (t_src ev)) \<and>
     sender_account lr = account_tbl db (to_lower (t_from ev)) \<and>
     receiver_account lr = account_tbl db (to_lower (t_to ev)) \<and>
     wallets [to_lower (t_from ev), to_lower (t_to ev)] = Some (clave_addresses lr) \<and>
     pools [to_lower (t_src ev)] = Some (syncswap_pools lr)"
  by (auto simp: loader_def split: option.splits)

lemma handler_idle_nontest:
  assumes "\<not> node_env_test cfg"
  shows "idle_tbl (erc20_handler cfg ev lr db) =
    (if t_from ev \<noteq> t_to ev \<and> \<not> protocol_excluded cfg (syncswap_pools lr) (t_src ev)
     then idle_tbl (plain_transfer_handler ev lr db) else idle_tbl db)"
proof -
  have e: "clave_addresses lr = {} \<Longrightarrow> plain_transfer_handler ev lr db' = db'" for db'
    by (simp add: plain_transfer_handler_def)
  show ?thesis using assms
    by (auto simp: erc20_handler_def Let_def e intro: plain_transfer_idle_cong)
qed

lemma handler_new_rows_clave:
  assumes "\<not> node_env_test cfg" "idle_tbl (erc20_handler cfg ev lr db) k = Some r"
    "idle_tbl db k \<noteq> Some r"
  shows "ib_address r \<in> clave_addresses lr"
  using assms by (auto simp: handler_idle_nontest plain_transfer_idle Let_def split: if_splits)

lemma handler_bal_nontest:
  assumes "\<not> node_env_test cfg" "t_from ev \<noteq> t_to ev"
    "\<not> protocol_excluded cfg (syncswap_pools lr) (t_src ev)"
  shows "bal (erc20_handler cfg ev lr db) k =
    (if to_lower (t_to ev) \<in> clave_addresses lr \<and> k = idle_key (t_to ev) (t_src ev)
     then ib_balance (previous_balance (t_to ev) (t_src ev) (receiver_balance lr)) + t_value ev
     else if to_lower (t_from ev) \<in> clave_addresses lr \<and> k = idle_key (t_from ev) (t_src ev)
     then ib_balance (previous_balance (t_from ev) (t_src ev) (sender_balance lr)) - t_value ev
     else bal db k)"
  using assms
  by (simp add: bal_def handler_idle_nontest plain_transfer_idle Let_def del: previous_balance_simps)

text \<open>C8: A transfer between two different holders of a token, seen by a production (non-test) handler and not excluded as a protocol transfer, debits the value from the sender's idle balance when the sender is a known wallet, credits it to the receiver's when the receiver is one, and leaves every other balance unchanged.\<close>

theorem transfer_moves_value:
  assumes "loader wallets pools db ev = Some lr" "\<not> node_env_test cfg"
    "to_lower (t_from ev) \<noteq> to_lower (t_to ev)"
    "\<not> protocol_excluded cfg (syncswap_pools lr) (t_src ev)"
  shows "bal (erc20_handler cfg ev lr db) k =
    bal db k
    - (if to_lower (t_from ev) \<in> clave_addresses lr \<and> k = idle_key (t_from ev) (t_src ev)
       then t_value ev else 0)
    + (if to_lower (t_to ev) \<in> clave_addresses lr \<and> k = idle_key (t_to ev) (t_src ev)
       then t_value ev else 0)"
proof -
  have ne: "t_from ev \<noteq> t_to ev" using assms(3) by auto
  show ?thesis
    using handler_bal_nontest [OF assms(2) ne assms(4), of db k] loader_Some [OF assms(1)] assms(3)
    by (auto simp: previous_balance_loaded simp del: previous_balance_simps)
qed

text \<open>C9: The self-transfer guard compares the raw addresses, while the balances are keyed by lower-cased ones: a transfer from a known wallet to the same address written in another letter case passes the guard, and the holder's balance ends up increased by the full value, since the credit overwrites the debit made from the same pre-fetched balance.\<close>

theorem mixed_case_self_transfer_mints:
  assumes "loader wallets pools db ev = Some lr" "\<not> node_env_test cfg"
    "t_from ev \<noteq> t_to ev" "to_lower (t_from ev) = to_lower (t_to ev)"
    "\<not> protocol_excluded cfg (syncswap_pools lr) (t_src ev)"
    "to_lower (t_from ev) \<in> clave_addresses lr"
  shows "bal (erc20_handler cfg ev lr db) (idle_key (t_from ev) (t_src ev))
       = bal db (idle_key (t_from ev) (t_src ev)) + t_value ev"
proof -
  have keq: "idle_key (t_to ev) (t_src ev) = idle_key (t_from ev) (t_src ev)"
    using assms(4) by (simp add: idle_key_def)
  have "bal (erc20_handler cfg ev lr db) (idle_key (t_from ev) (t_src ev)) =
      ib_balance (previous_balance (t_to ev) (t_src ev) (receiver_balance lr)) + t_value ev"
    using handler_bal_nontest [OF assms(2,3,5), of db "idle_key (t_from ev) (t_src ev)"]
      assms(4,6) keq by simp
  also have "\<dots> = bal db (idle_key (t_to ev) (t_src ev)) + t_value ev"
    using loader_Some [OF assms(1)] previous_balance_loaded by (simp del: previous_balance_simps)
  finally show ?thesis using keq by simp
qed


lemma plain_transfer_hist:
  "hist_tbl (plain_transfer_handler ev lr db) g =
     (let f = (if to_lower (t_from ev) \<in> clave_addresses lr then
                 (hist_tbl db g)(hb_id (snapshot g (previous_balance (t_from ev) (t_src ev) (sender_balance lr)) (t_ts ev))
                   \<mapsto> snapshot g (previous_balance (t_from ev) (t_src ev) (sender_balance lr)) (t_ts ev))
               else hist_tbl db g)
      in if to_lower (t_to ev) \<in> clave_addresses lr then
           f(hb_id (snapshot g (previous_balance (t_to ev) (t_src ev) (receiver_balance lr)) (t_ts ev))
              \<mapsto> snapshot g (previous_balance (t_to ev) (t_src ev) (receiver_balance lr)) (t_ts ev))
         else f)"
  by (simp add: plain_transfer_handler_def Let_def hist_set_historical_balance)

lemma plain_transfer_hist_cong:
  "hist_tbl db = hist_tbl db' \<Longrightarrow>
     hist_tbl (plain_transfer_handler ev lr db) = hist_tbl (plain_transfer_handler ev lr db')"
  by (rule ext) (simp add: plain_transfer_hist)

lemma handler_hist_nontest:
  assumes "\<not> node_env_test cfg"
  shows "hist_tbl (erc20_handler cfg ev lr db) =
    (if t_from ev \<noteq> t_to ev \<and> \<not> protocol_excluded cfg (syncswap_pools lr) (t_src ev)
     then hist_tbl (plain_transfer_handler ev lr db) else hist_tbl db)"
proof -
  have e: "clave_addresses lr = {} \<Longrightarrow> plain_transfer_handler ev lr db' = db'" for db'
    by (simp add: plain_transfer_handler_def)
  show ?thesis using assms
    by (auto simp: erc20_handler_def Let_def e intro: plain_transfer_hist_cong)
qed

text \<open>C10: A transfer whose token contract is a Syncswap pool (as the pool query answered), the Clagg main contract, an entry of the Venus list or an entry of the Aave list, compared after lower-casing the token, leaves every idle balance and every historical snapshot unchanged, in every configuration; only account entities may be created before the exclusion is checked.\<close>

theorem excluded_transfer_keeps_balances:
  assumes "to_lower (t_src ev) \<in> syncswap_pools lr \<or> to_lower (clagg_main cfg) = to_lower (t_src ev) \<or>
    to_lower (t_src ev) \<in> set (venus_pools cfg) \<or> to_lower (t_src ev) \<in> set (aave_pools cfg)"
  shows "idle_tbl (erc20_handler cfg ev lr db) = idle_tbl db \<and>
         hist_tbl (erc20_handler cfg ev lr db) = hist_tbl db"
  using assms by (auto simp: erc20_handler_def Let_def protocol_excluded_def)

text \<open>C11: For a debited sender, each of the four snapshot tables holds, under the id formed from the balance id and the rounded timestamp, the balance the sender had before the transfer, stamped with the bucket start.\<close>

theorem snapshot_holds_previous_balance:
  assumes "loader wallets pools db ev = Some lr" "\<not> node_env_test cfg"
    "to_lower (t_from ev) \<noteq> to_lower (t_to ev)"
    "\<not> protocol_excluded cfg (syncswap_pools lr) (t_src ev)"
    "to_lower (t_from ev) \<in> clave_addresses lr"
  shows "hist_tbl (erc20_handler cfg ev lr db) g
           (idle_key (t_from ev) (t_src ev) @ dec_string (round_timestamp (t_ts ev) (period g))) =
         Some \<lparr>hb_id = idle_key (t_from ev) (t_src ev) @ dec_string (round_timestamp (t_ts ev) (period g)),
               hb_balance = bal db (idle_key (t_from ev) (t_src ev)),
               hb_address = to_lower (t_from ev), hb_token = to_lower (t_src ev),
               hb_timestamp = int (round_timestamp (t_ts ev) (period g))\<rparr>"
proof -
  have ne: "t_from ev \<noteq> t_to ev" using assms(3) by auto
  have "idle_key (t_from ev) (t_src ev) \<noteq> idle_key (t_to ev) (t_src ev)" using assms(3) by simp
  then show ?thesis
    using handler_hist_nontest [OF assms(2), of ev lr db] ne assms(4,5) loader_Some [OF assms(1)]
      previous_balance_loaded [of "t_from ev" "t_src ev" db]
    by (simp add: plain_transfer_hist Let_def snapshot_id snapshot_def del: previous_balance_simps)
      (simp add: previous_balance_def)
qed

lemma process_events_skip:
  "loader wallets pools db e = Some lr \<Longrightarrow>
     process_events cfg wallets pools (e # evs) db =
     process_events cfg wallets pools evs (erc20_handler cfg e lr db)"
  by (simp add: process_event_def)

lemma ledger_wf_plain: "ledger_wf db \<Longrightarrow> ledger_wf (plain_transfer_handler ev lr db)"
  by (simp add: plain_transfer_handler_def Let_def ledger_wf_write_balance)

lemma ledger_wf_handler: "ledger_wf db \<Longrightarrow> ledger_wf (erc20_handler cfg ev lr db)"
  by (simp add: erc20_handler_def Let_def ledger_wf_plain ledger_wf_set_account)

lemma ledger_lower_plain: "ledger_lower db \<Longrightarrow> ledger_lower (plain_transfer_handler ev lr db)"
  by (simp add: plain_transfer_handler_def Let_def ledger_lower_write_balance)

lemma ledger_lower_handler: "ledger_lower db \<Longrightarrow> ledger_lower (erc20_handler cfg ev lr db)"
  by (simp add: erc20_handler_def Let_def ledger_lower_plain ledger_lower_set_account)

lemma process_events_invariant:
  assumes step: "\<And>ev lr d. P d \<Longrightarrow> P (erc20_handler cfg ev lr d)"
  shows "P db \<Longrightarrow> process_events cfg wallets pools evs db = Some db' \<Longrightarrow> P db'"
proof (induction evs arbitrary: db)
  case Nil
  then show ?case by simp
next
  case (Cons e evs)
  then show ?case
    by (auto simp: process_event_def split: option.splits intro: Cons.IH [OF step])
qed

text \<open>C12: Processing any stream of events keeps the entity store well formed: each idle balance is stored under its own id, which is its lower-cased holder followed by its lower-cased token (the key the loader reads); each snapshot and each account is stored under its own id.\<close>

theorem ledger_wf_stream:
  "ledger_wf db \<Longrightarrow> process_events cfg wallets pools evs db = Some db' \<Longrightarrow> ledger_wf db'"
  by (rule process_events_invariant [where P = ledger_wf, OF ledger_wf_handler])

lemma handler_delta:
  assumes "loader wallets pools db ev = Some lr" "\<not> node_env_test cfg"
    "t_from ev \<noteq> t_to ev \<Longrightarrow> to_lower (t_from ev) \<noteq> to_lower (t_to ev)"
  shows "bal (erc20_handler cfg ev lr db) k = bal db k + ledger_delta wallets pools cfg ev k"
proof -
  note l = loader_Some [OF assms(1)]
  show ?thesis
  proof (cases "t_from ev \<noteq> t_to ev \<and> \<not> protocol_excluded cfg (syncswap_pools lr) (t_src ev)")
    case True
    then have ne: "to_lower (t_from ev) \<noteq> to_lower (t_to ev)" using assms(3) by blast
    then show ?thesis
      using True handler_bal_nontest [OF assms(2), of ev lr db k] l
      by (auto simp: ledger_delta_def previous_balance_loaded simp del: previous_balance_simps)
  next
    case False
    then have "bal (erc20_handler cfg ev lr db) k = bal db k"
      using handler_idle_nontest [OF assms(2), of ev lr db] by (auto simp: bal_def)
    with False l show ?thesis by (auto simp: ledger_delta_def)
  qed
qed

text \<open>C19: Refinement of the ledger by double-entry bookkeeping. In production mode,
  take any stream of events the indexer processes without failure and in which no
  transfer joins two spellings of one address. Then every idle balance at the end is its
  balance at the start plus, for each event in turn, the abstract effect
  \<open>ledger_delta\<close>: the value credited to a known receiver minus the value debited
  from a known sender, or nothing for self-transfers and protocol transfers.\<close>

theorem ledger_refines_double_entry:
  assumes "\<not> node_env_test cfg"
    "\<forall>ev \<in> set evs. t_from ev \<noteq> t_to ev \<longrightarrow> to_lower (t_from ev) \<noteq> to_lower (t_to ev)"
    "process_events cfg wallets pools evs db = Some db'"
  shows "bal db' k = bal db k + (\<Sum>ev \<leftarrow> evs. ledger_delta wallets pools cfg ev k)"
  using assms(2,3)
proof (induction evs arbitrary: db)
  case Nil
  then show ?case by simp
next
  case (Cons e evs)
  from Cons.prems(2) obtain lr where l: "loader wallets pools db e = Some lr"
    and rest: "process_events cfg wallets pools evs (erc20_handler cfg e lr db) = Some db'"
    by (auto simp: process_event_def split: option.splits)
  have "bal (erc20_handler cfg e lr db) k = bal db k + ledger_delta wallets pools cfg e k"
    using handler_delta [OF l assms(1)] Cons.prems(1) by simp
  with Cons.IH [OF _ rest] Cons.prems(1) show ?case by simp
qed

text \<open>C20: Entity ids are in lower-case normal form. Processing any stream from a store
  whose ids are lower case leaves every account id, idle-balance id and snapshot id fixed
  by the lower-case fold, so the lower-cased lookups of the loader always address them;
  the decimal bucket suffix of a snapshot id is unaffected by the fold.\<close>

theorem entity_ids_lower:
  "ledger_lower db \<Longrightarrow> process_events cfg wallets pools evs db = Some db' \<Longrightarrow> ledger_lower db'"
  by (rule process_events_invariant [where P = ledger_lower, OF ledger_lower_handler])

text \<open>C21: Write-then-read round trip. In a store reached by processing any stream from
  a well-formed store, an idle balance written for a holder and token is the balance
  the loader pre-fetches as the sender's for every later event that names the same
  holder and token, in any letter case.\<close>

theorem loader_reads_written_balance:
  assumes "ledger_wf db0" "process_events cfg wallets pools evs db0 = Some db"
    "idle_tbl db k = Some r" "loader wallets pools' db ev = Some lr"
    "ib_address r = to_lower (t_from ev)" "ib_token r = to_lower (t_src ev)"
  shows "sender_balance lr = Some r"
proof -
  have "ledger_wf db"
    by (rule process_events_invariant [where P = ledger_wf]) (auto intro: ledger_wf_handler assms(1,2))
  then have "k = ib_address r @ ib_token r" using assms(3) by (simp add: ledger_wf_def)
  then have "k = idle_key (t_from ev) (t_src ev)" using assms(5,6) by (simp add: idle_key_def)
  then show ?thesis using loader_Some [OF assms(4)] assms(3) by simp
qed

lemma handler_test_plain:
  assumes "node_env_test cfg" "\<not> test_mode_syncswap cfg" "t_from ev \<noteq> t_to ev"
    "\<not> protocol_excluded cfg (syncswap_pools lr) (t_src ev)"
  shows "erc20_handler cfg ev lr db =
    plain_transfer_handler ev (lr\<lparr>clave_addresses := {to_lower (t_from ev), to_lower (t_to ev)}\<rparr>)
      (let db1 = (if sender_account lr = None then set_account (to_lower (t_from ev)) db else db)
       in if receiver_account lr = None then set_account (to_lower (t_to ev)) db1 else db1)"
  using assms by (simp add: erc20_handler_def Let_def)

text \<open>C26: Test mode. With \<open>NODE_ENV === "test"\<close> and \<open>TEST_MODE\<close> other than
  \<open>syncswap\<close>, the handler replaces the wallet answer by the two parties of the event.
  So a transfer between two different holders that is not a protocol transfer debits the
  sender, credits the receiver and creates both accounts, whoever the parties are; the
  zero address of a mint or a burn included.\<close>

theorem test_mode_books_both_parties:
  assumes "loader wallets pools db ev = Some lr" "node_env_test cfg" "\<not> test_mode_syncswap cfg"
    "to_lower (t_from ev) \<noteq> to_lower (t_to ev)"
    "\<not> protocol_excluded cfg (syncswap_pools lr) (t_src ev)"
  shows "bal (erc20_handler cfg ev lr db) (idle_key (t_from ev) (t_src ev))
           = bal db (idle_key (t_from ev) (t_src ev)) - t_value ev \<and>
         bal (erc20_handler cfg ev lr db) (idle_key (t_to ev) (t_src ev))
           = bal db (idle_key (t_to ev) (t_src ev)) + t_value ev \<and>
         account_tbl (erc20_handler cfg ev lr db) (to_lower (t_from ev)) \<noteq> None \<and>
         account_tbl (erc20_handler cfg ev lr db) (to_lower (t_to ev)) \<noteq> None"
proof -
  have ne: "t_from ev \<noteq> t_to ev" using assms(4) by auto
  have k: "idle_key (t_from ev) (t_src ev) \<noteq> idle_key (t_to ev) (t_src ev)" using assms(4) by simp
  note l = loader_Some [OF assms(1)]
  show ?thesis
    using handler_test_plain [OF assms(2,3) ne assms(5), of db] l k assms(4)
    by (auto simp: bal_def plain_transfer_idle Let_def previous_balance_loaded set_account_def
        plain_transfer_handler_def split: option.splits)
qed

end
