(* ===== verification/RouterRuns.thy ===== *)
theory RouterRuns
  imports TransferRouter
begin

text \<open>
  Concrete runs of the router: the scenarios of \<open>src/test/test.ts\<close> (process
  environment \<open>NODE_ENV = "test"\<close>, empty membership caches, a store holding a balance
  of 5 for the first user) and production runs with a wallet cache that knows both users.
  Addresses are short stand-ins for the test's \<open>Addresses.mockAddresses\<close> and
  \<open>tokenId\<close>; their letter case is kept mixed so that lower-casing matters.
  Every witness of a router theorem is here.
\<close>

definition user1 :: addr where "user1 = ''0xAb1''"
definition user2 :: addr where "user2 = ''0xCd2''"
definition token :: string where "token = ''0xT0''"

definition prod_cfg :: router_cfg where
  "prod_cfg = \<lparr>node_env_test = False, test_mode_syncswap = False, clagg_main = ''0xC1A'',
     venus_pools = [''0xve1''], aave_pools = [''0xaa1'']\<rparr>"

definition test_cfg :: router_cfg where
  "test_cfg = prod_cfg\<lparr>node_env_test := True\<rparr>"

definition known_wallets :: bulk_check_fn where
  "known_wallets xs = Some (set xs \<inter> {''0xab1'', ''0xcd2''})"

definition no_members :: bulk_check_fn where
  "no_members xs = Some {}"

definition db0 :: ledger where
  "db0 = set_idle \<lparr>ib_id = idle_key user1 token, ib_balance = 5, ib_address = to_lower user1,
     ib_token = to_lower token\<rparr> empty_ledger"

definition xfer :: "addr \<Rightarrow> addr \<Rightarrow> string \<Rightarrow> int \<Rightarrow> nat \<Rightarrow> transfer" where
  "xfer f t s v ts = \<lparr>t_from = f, t_to = t, t_src = s, t_value = v, t_ts = ts\<rparr>"

definition ev_a :: transfer where "ev_a = xfer user1 user2 token 3 1000"

text \<open>The same holder written in another letter case.\<close>

definition ev_self :: transfer where "ev_self = xfer user1 ''0xaB1'' token 3 1000"

text \<open>A transfer of a Venus pool token, its address written in upper case.\<close>

definition ev_venus :: transfer where "ev_venus = xfer user1 user2 ''0xVE1'' 3 1000"

definition lr_a :: loader_ret where
  "lr_a = the (loader known_wallets no_members db0 ev_a)"

definition lr_self :: loader_ret where
  "lr_self = the (loader known_wallets no_members db0 ev_self)"

definition lr_venus :: loader_ret where
  "lr_venus = the (loader known_wallets no_members db0 ev_venus)"

definition ev_back :: transfer where "ev_back = xfer user2 user1 token 1 2000"

definition db_t :: ledger where
  "db_t = the (process_events prod_cfg known_wallets no_members [ev_a, ev_back] db0)"

text \<open>The first user's balance written by \<open>ev_a\<close>, then read back by an event that
  spells the holder and the token in other letter cases.\<close>

definition db_1 :: ledger where
  "db_1 = the (process_events prod_cfg known_wallets no_members [ev_a] db0)"

definition ev_next :: transfer where "ev_next = xfer ''0xAB1'' user2 ''0xt0'' 1 5000"

definition lr_next :: loader_ret where
  "lr_next = the (loader known_wallets no_members db_1 ev_next)"

text \<open>The test ``should handle minting'': a transfer of 10 from the zero address,
  abbreviated \<open>0x0\<close>, to the first user, on an empty store.\<close>

definition ev_mint :: transfer where "ev_mint = xfer ''0x0'' user1 token 10 1000"

definition lr_mint :: loader_ret where
  "lr_mint = the (loader no_members no_members empty_ledger ev_mint)"

definition db_s :: ledger where
  "db_s = the (process_events prod_cfg known_wallets no_members [ev_a, ev_self] db0)"

lemmas router_defs = user1_def user2_def token_def prod_cfg_def test_cfg_def known_wallets_def
  no_members_def db0_def xfer_def ev_a_def ev_back_def ev_next_def ev_mint_def ev_self_def ev_venus_def empty_ledger_def loader_def
  erc20_handler_def plain_transfer_handler_def previous_balance_def set_historical_balance_def
  set_hist_def set_idle_def set_account_def snapshot_def round_timestamp_def idle_key_def bal_def
  protocol_excluded_def process_event_def

lemma lr_a_eq: "loader known_wallets no_members db0 ev_a = Some lr_a"
  by (simp add: lr_a_def router_defs eval_simps)

lemma lr_self_eq: "loader known_wallets no_members db0 ev_self = Some lr_self"
  by (simp add: lr_self_def router_defs eval_simps)

lemma lr_venus_eq: "loader known_wallets no_members db0 ev_venus = Some lr_venus"
  by (simp add: lr_venus_def router_defs eval_simps)

section \<open>Witnesses\<close>

theorem transfer_moves_value_witness:
  "loader known_wallets no_members db0 ev_a = Some lr_a \<and> \<not> node_env_test prod_cfg \<and>
   to_lower (t_from ev_a) \<noteq> to_lower (t_to ev_a) \<and>
   \<not> protocol_excluded prod_cfg (syncswap_pools lr_a) (t_src ev_a) \<and>
   bal (erc20_handler prod_cfg ev_a lr_a db0) (idle_key user1 token) = 2"
  using transfer_moves_value [OF lr_a_eq, of prod_cfg "idle_key user1 token"]
  by (simp add: lr_a_eq lr_a_def router_defs eval_simps)

theorem mixed_case_self_transfer_mints_witness:
  "loader known_wallets no_members db0 ev_self = Some lr_self \<and> \<not> node_env_test prod_cfg \<and>
   t_from ev_self \<noteq> t_to ev_self \<and> to_lower (t_from ev_self) = to_lower (t_to ev_self) \<and>
   \<not> protocol_excluded prod_cfg (syncswap_pools lr_self) (t_src ev_self) \<and>
   to_lower (t_from ev_self) \<in> clave_addresses lr_self \<and>
   bal (erc20_handler prod_cfg ev_self lr_self db0) (idle_key user1 token) = 8"
  using mixed_case_self_transfer_mints [OF lr_self_eq, of prod_cfg]
  by (simp add: lr_self_eq lr_self_def router_defs eval_simps)

theorem excluded_transfer_keeps_balances_witness:
  "to_lower (t_src ev_venus) \<in> set (venus_pools prod_cfg) \<and>
   idle_tbl (erc20_handler prod_cfg ev_venus lr_venus db0) = idle_tbl db0 \<and>
   hist_tbl (erc20_handler prod_cfg ev_venus lr_venus db0) = hist_tbl db0 \<and>
   account_tbl (erc20_handler prod_cfg ev_venus lr_venus db0) ''0xab1''
     = Some \<lparr>acc_id = ''0xab1'', acc_address = ''0xab1''\<rparr>"
  using excluded_transfer_keeps_balances [where cfg = prod_cfg and lr = lr_venus and ev = ev_venus and db = db0]
  by (simp add: lr_venus_def router_defs eval_simps)

theorem snapshot_holds_previous_balance_witness:
  "loader known_wallets no_members db0 ev_a = Some lr_a \<and> \<not> node_env_test prod_cfg \<and>
   to_lower (t_from ev_a) \<noteq> to_lower (t_to ev_a) \<and>
   \<not> protocol_excluded prod_cfg (syncswap_pools lr_a) (t_src ev_a) \<and>
   to_lower (t_from ev_a) \<in> clave_addresses lr_a \<and>
   map_option hb_balance (hist_tbl (erc20_handler prod_cfg ev_a lr_a db0) Week1
     (idle_key user1 token @ dec_string (round_timestamp 1000 (period Week1)))) = Some 5"
  using snapshot_holds_previous_balance [OF lr_a_eq, of prod_cfg Week1]
  by (simp add: lr_a_eq lr_a_def router_defs eval_simps)

theorem ledger_wf_stream_witness:
  "ledger_wf db0 \<and>
   process_events prod_cfg known_wallets no_members [ev_a, ev_self] db0 = Some db_s \<and>
   ledger_wf db_s"
proof -
  have s: "process_events prod_cfg known_wallets no_members [ev_a, ev_self] db0 = Some db_s"
    by (simp add: db_s_def router_defs eval_simps)
  have w: "ledger_wf db0" by (simp add: ledger_wf_def router_defs eval_simps)
  show ?thesis using ledger_wf_stream [OF w s] w s by simp
qed

theorem ledger_refines_double_entry_witness:
  "\<not> node_env_test prod_cfg \<and>
   to_lower (t_from ev_a) \<noteq> to_lower (t_to ev_a) \<and>
   to_lower (t_from ev_back) \<noteq> to_lower (t_to ev_back) \<and>
   process_events prod_cfg known_wallets no_members [ev_a, ev_back] db0 = Some db_t \<and>
   bal db_t (idle_key user1 token) = 3"
proof -
  have n: "\<not> node_env_test prod_cfg" by (simp add: prod_cfg_def)
  have a: "\<forall>ev \<in> set [ev_a, ev_back]. t_from ev \<noteq> t_to ev \<longrightarrow> to_lower (t_from ev) \<noteq> to_lower (t_to ev)"
    by (simp add: router_defs eval_simps)
  have p: "process_events prod_cfg known_wallets no_members [ev_a, ev_back] db0 = Some db_t"
    by (simp add: db_t_def router_defs eval_simps)
  have "bal db_t (idle_key user1 token) = 3"
    using ledger_refines_double_entry [OF n a p, of "idle_key user1 token"]
    by (simp add: ledger_delta_def router_defs eval_simps)
  moreover have "to_lower (t_from ev_a) \<noteq> to_lower (t_to ev_a) \<and>
      to_lower (t_from ev_back) \<noteq> to_lower (t_to ev_back)"
    by (simp add: router_defs eval_simps)
  ultimately show ?thesis using n p by blast
qed

theorem entity_ids_lower_witness:
  "ledger_lower db0 \<and>
   process_events prod_cfg known_wallets no_members [ev_a, ev_self] db0 = Some db_s \<and>
   ledger_lower db_s"
proof -
  have l: "ledger_lower db0" by (simp add: ledger_lower_def router_defs eval_simps)
  have s: "process_events prod_cfg known_wallets no_members [ev_a, ev_self] db0 = Some db_s"
    by (simp add: db_s_def router_defs eval_simps)
  show ?thesis using entity_ids_lower [OF l s] l s by simp
qed

theorem loader_reads_written_balance_witness:
  "ledger_wf db0 \<and> process_events prod_cfg known_wallets no_members [ev_a] db0 = Some db_1 \<and>
   idle_tbl db_1 ''0xab10xt0'' = Some \<lparr>ib_id = ''0xab10xt0'', ib_balance = 2, ib_address = ''0xab1'',
     ib_token = ''0xt0''\<rparr> \<and>
   loader known_wallets no_members db_1 ev_next = Some lr_next \<and>
   ib_address \<lparr>ib_id = ''0xab10xt0'', ib_balance = 2, ib_address = ''0xab1'', ib_token = ''0xt0''\<rparr>
     = to_lower (t_from ev_next) \<and>
   ib_token \<lparr>ib_id = ''0xab10xt0'', ib_balance = 2, ib_address = ''0xab1'', ib_token = ''0xt0''\<rparr>
     = to_lower (t_src ev_next) \<and>
   sender_balance lr_next = Some \<lparr>ib_id = ''0xab10xt0'', ib_balance = 2, ib_address = ''0xab1'',
     ib_token = ''0xt0''\<rparr>"
proof -
  have w: "ledger_wf db0" by (simp add: ledger_wf_def router_defs eval_simps)
  have p: "process_events prod_cfg known_wallets no_members [ev_a] db0 = Some db_1"
    by (simp add: db_1_def router_defs eval_simps)
  have i: "idle_tbl db_1 ''0xab10xt0'' = Some \<lparr>ib_id = ''0xab10xt0'', ib_balance = 2,
      ib_address = ''0xab1'', ib_token = ''0xt0''\<rparr>"
    by (simp add: db_1_def router_defs eval_simps)
  have l: "loader known_wallets no_members db_1 ev_next = Some lr_next"
    by (simp add: lr_next_def db_1_def router_defs eval_simps)
  have a: "ib_address \<lparr>ib_id = ''0xab10xt0'', ib_balance = 2, ib_address = ''0xab1'', ib_token = ''0xt0''\<rparr>
      = to_lower (t_from ev_next)"
    and t: "ib_token \<lparr>ib_id = ''0xab10xt0'', ib_balance = 2, ib_address = ''0xab1'', ib_token = ''0xt0''\<rparr>
      = to_lower (t_src ev_next)"
    by (simp_all add: router_defs eval_simps)
  show ?thesis using loader_reads_written_balance [OF w p i l a t] w p i l a t by simp
qed

theorem test_mode_books_both_parties_witness:
  "loader no_members no_members empty_ledger ev_mint = Some lr_mint \<and> node_env_test test_cfg \<and>
   \<not> test_mode_syncswap test_cfg \<and> to_lower (t_from ev_mint) \<noteq> to_lower (t_to ev_mint) \<and>
   \<not> protocol_excluded test_cfg (syncswap_pools lr_mint) (t_src ev_mint) \<and>
   bal (erc20_handler test_cfg ev_mint lr_mint empty_ledger) (idle_key ''0x0'' token) = -10 \<and>
   bal (erc20_handler test_cfg ev_mint lr_mint empty_ledger) (idle_key user1 token) = 10"
proof -
  have l: "loader no_members no_members empty_ledger ev_mint = Some lr_mint"
    by (simp add: lr_mint_def router_defs eval_simps)
  have h: "node_env_test test_cfg \<and> \<not> test_mode_syncswap test_cfg \<and>
      to_lower (t_from ev_mint) \<noteq> to_lower (t_to ev_mint) \<and>
      \<not> protocol_excluded test_cfg (syncswap_pools lr_mint) (t_src ev_mint)"
    by (simp add: lr_mint_def router_defs eval_simps)
  then have "bal (erc20_handler test_cfg ev_mint lr_mint empty_ledger) (idle_key (t_from ev_mint) (t_src ev_mint))
      = bal empty_ledger (idle_key (t_from ev_mint) (t_src ev_mint)) - t_value ev_mint \<and>
    bal (erc20_handler test_cfg ev_mint lr_mint empty_ledger) (idle_key (t_to ev_mint) (t_src ev_mint))
      = bal empty_ledger (idle_key (t_to ev_mint) (t_src ev_mint)) + t_value ev_mint"
    using test_mode_books_both_parties [OF l] by blast
  then have "bal (erc20_handler test_cfg ev_mint lr_mint empty_ledger) (idle_key ''0x0'' token) = -10 \<and>
      bal (erc20_handler test_cfg ev_mint lr_mint empty_ledger) (idle_key user1 token) = 10"
    by (simp add: ev_mint_def xfer_def bal_def empty_ledger_def)
  with l h show ?thesis by blast
qed

end
