(* ===== verification/TestSuite.thy ===== *)
theory TestSuite
  imports RouterRuns
begin

text \<open>
  The mocha suite of \<open>src/test/test.ts\<close>, one boolean per \<open>it\<close> block: the mock events it
  builds, the \<open>processEvent\<close> runs on the mock store, and its assertions. The fixtures are
  those of \<open>RouterRuns\<close>: \<open>NODE_ENV = "test"\<close> (so both membership caches stay empty and
  answer the empty set, \<open>CacheAnswers\<close>), the store \<open>db0\<close> holding a balance of 5 for the
  first user, and short stand-ins for the mock addresses, the token id and viem's
  \<open>zeroAddress\<close>. The protocol constants of \<open>src/constants/\<close> are not in the sources,
  so each test is a function of the router configuration that holds them; the default
  block timestamp of \<open>createMockEvent\<close> is a parameter \<open>ts0\<close>. A rejected
  \<open>processEvent\<close> fails its test. \<open>assert.equal\<close> compares \<open>bigint\<close>s and
  \<open>undefined\<close>, here option values.
\<close>

section \<open>Test harness\<close>

text \<open>\<open>await ERC20.Transfer.processEvent({event, mockDb})\<close> for each event in turn, then
  the assertions on the resulting store.\<close>

definition run_test :: "router_cfg \<Rightarrow> transfer list \<Rightarrow> ledger \<Rightarrow> (ledger \<Rightarrow> bool) \<Rightarrow> bool" where
  "run_test cfg evs db check =
     (case process_events cfg no_members no_members evs db of None \<Rightarrow> False | Some db' \<Rightarrow> check db')"

text \<open>\<open>db.entities.AccountIdleBalance.get(u.toLowerCase() + src.toLowerCase())?.balance\<close>.\<close>

definition balance_get :: "ledger \<Rightarrow> addr \<Rightarrow> string \<Rightarrow> int option" where
  "balance_get db u src = map_option ib_balance (idle_tbl db (to_lower u @ to_lower src))"

text \<open>\<open>db.entities.HistoricalAccountIdleBalance4Hours.get(u.toLowerCase() +
  tokenId.toLowerCase() + roundTimestamp(t, 3600 * 4).toString())?.timestamp\<close>.\<close>

definition hist4_timestamp :: "ledger \<Rightarrow> addr \<Rightarrow> nat \<Rightarrow> int option" where
  "hist4_timestamp db u t =
     map_option hb_timestamp
       (hist_tbl db Hours4 (to_lower u @ to_lower token @ dec_string (round_timestamp t (3600 * 4))))"

definition zero_address :: addr where "zero_address = ''0x0''"

section \<open>The tests\<close>

definition test_two_users :: "router_cfg \<Rightarrow> nat \<Rightarrow> bool" where
  "test_two_users cfg ts0 = run_test cfg [xfer user1 user2 token 3 ts0] db0 (\<lambda>db.
     balance_get db user1 token = Some 2 \<and> balance_get db user2 token = Some 3 \<and>
     map_option acc_address (account_tbl db (to_lower user1)) = Some (to_lower user1) \<and>
     map_option acc_address (account_tbl db (to_lower user2)) = Some (to_lower user2))"

definition test_self :: "router_cfg \<Rightarrow> nat \<Rightarrow> bool" where
  "test_self cfg ts0 = run_test cfg [xfer user1 user1 token 3 ts0] db0 (\<lambda>db.
     balance_get db user1 token = Some 5)"

definition test_mint :: "router_cfg \<Rightarrow> nat \<Rightarrow> bool" where
  "test_mint cfg ts0 = run_test cfg [xfer zero_address user1 token 10 ts0] empty_ledger (\<lambda>db.
     balance_get db user1 token = Some 10)"

definition test_burn :: "router_cfg \<Rightarrow> nat \<Rightarrow> bool" where
  "test_burn cfg ts0 = run_test cfg [xfer user1 zero_address token 3 ts0] db0 (\<lambda>db.
     balance_get db user1 token = Some 2)"

definition test_zero_value :: "router_cfg \<Rightarrow> nat \<Rightarrow> bool" where
  "test_zero_value cfg ts0 = run_test cfg [xfer user1 user2 token 0 ts0] db0 (\<lambda>db.
     balance_get db user1 token = Some 5 \<and>
     (case balance_get db user2 token of None \<Rightarrow> 0 | Some b \<Rightarrow> b) = 0)"

text \<open>The four early-return tests: the token is \<open>VenusPoolAddresses[0]\<close>,
  \<open>AavePoolAddresses[0]\<close>, \<open>ClaggMainAddress\<close>, or (with \<open>TEST_MODE = "syncswap"\<close>) a
  pool address written with an upper-case letter; no balance under that token may exist.\<close>

definition test_no_balances :: "router_cfg \<Rightarrow> string \<Rightarrow> nat \<Rightarrow> bool" where
  "test_no_balances cfg src ts0 = run_test cfg [xfer user1 user2 src 3 ts0] db0 (\<lambda>db.
     balance_get db user1 src = None \<and> balance_get db user2 src = None)"

definition test_venus :: "router_cfg \<Rightarrow> nat \<Rightarrow> bool" where
  "test_venus cfg ts0 = test_no_balances cfg (hd (venus_pools cfg)) ts0"

definition test_aave :: "router_cfg \<Rightarrow> nat \<Rightarrow> bool" where
  "test_aave cfg ts0 = test_no_balances cfg (hd (aave_pools cfg)) ts0"

definition test_clagg :: "router_cfg \<Rightarrow> nat \<Rightarrow> bool" where
  "test_clagg cfg ts0 = test_no_balances cfg (clagg_main cfg) ts0"

definition test_syncswap :: "router_cfg \<Rightarrow> nat \<Rightarrow> bool" where
  "test_syncswap cfg ts0 = test_no_balances (cfg\<lparr>test_mode_syncswap := True\<rparr>)
     ''0x0259d9dfb638775858b1d072222237e2ce7111C0'' ts0"

definition test_historical :: "router_cfg \<Rightarrow> bool" where
  "test_historical cfg = run_test cfg [xfer user1 user2 token 3 1000] db0 (\<lambda>db.
     hist4_timestamp db user1 1000 = Some (int (round_timestamp 1000 (3600 * 4))) \<and>
     hist4_timestamp db user2 1000 = Some (int (round_timestamp 1000 (3600 * 4))))"

definition test_same_hour :: "router_cfg \<Rightarrow> bool" where
  "test_same_hour cfg =
     run_test cfg [xfer user1 user2 token 2 1000, xfer user1 user2 token 1 2000] db0 (\<lambda>db.
       hist4_timestamp db user1 1000 = Some (int (round_timestamp 1000 (3600 * 4))))"

definition test_different_hours :: "router_cfg \<Rightarrow> bool" where
  "test_different_hours cfg =
     run_test cfg [xfer user1 user2 token 2 3600, xfer user1 user2 token 1 7200] db0 (\<lambda>db.
       hist4_timestamp db user1 3600 = Some (int (round_timestamp 3600 (3600 * 4))) \<and>
       hist4_timestamp db user1 7200 = Some (int (round_timestamp 7200 (3600 * 4))))"

definition test_suite :: "router_cfg \<Rightarrow> nat \<Rightarrow> bool" where
  "test_suite cfg ts0 \<longleftrightarrow>
     test_two_users cfg ts0 \<and> test_self cfg ts0 \<and> test_mint cfg ts0 \<and> test_burn cfg ts0 \<and>
     test_zero_value cfg ts0 \<and> test_venus cfg ts0 \<and> test_aave cfg ts0 \<and>
     test_clagg cfg ts0 \<and> test_syncswap cfg ts0 \<and> test_historical cfg \<and>
     test_same_hour cfg \<and> test_different_hours cfg"

lemmas test_defs = run_test_def balance_get_def hist4_timestamp_def zero_address_def
  test_no_balances_def

section \<open>What the suite checks\<close>

lemma tests_basic:
  assumes "node_env_test cfg" "\<not> test_mode_syncswap cfg" "\<not> protocol_excluded cfg {} token"
  shows "test_two_users cfg ts0 \<and> test_self cfg ts0 \<and> test_mint cfg ts0 \<and> test_burn cfg ts0 \<and>
         test_zero_value cfg ts0"
  using assms by (simp add: test_defs test_two_users_def test_self_def test_mint_def test_burn_def
    test_zero_value_def router_defs eval_simps)

lemma tests_historical:
  assumes "node_env_test cfg" "\<not> test_mode_syncswap cfg" "\<not> protocol_excluded cfg {} token"
  shows "test_historical cfg \<and> test_same_hour cfg \<and> test_different_hours cfg"
  using assms by (simp add: test_defs test_historical_def test_same_hour_def
    test_different_hours_def router_defs eval_simps)

text \<open>An early-return test passes exactly when the handler excludes its token, given that
  the token is not the fixture's.\<close>

lemma test_no_balances_iff:
  assumes "node_env_test cfg" "to_lower src \<noteq> to_lower token"
  shows "test_no_balances cfg src ts0 \<longleftrightarrow>
    protocol_excluded cfg (if test_mode_syncswap cfg then {to_lower src} else {}) src"
  using assms by (cases "test_mode_syncswap cfg")
    (simp_all add: test_defs router_defs eval_simps del: protocol_excluded_def)

lemma listed_lower_excluded:
  assumes "xs \<noteq> []" "to_lower (hd xs) = hd xs"
    and "xs = venus_pools cfg \<or> xs = aave_pools cfg"
  shows "protocol_excluded cfg P (hd xs)"
    and "\<not> protocol_excluded cfg {} token \<Longrightarrow> to_lower (hd xs) \<noteq> to_lower token"
proof -
  have "to_lower (hd xs) \<in> set xs" using assms(1,2) by simp
  then show "protocol_excluded cfg P (hd xs)" using assms(3) by (auto simp: protocol_excluded_def)
  show "to_lower (hd xs) \<noteq> to_lower token" if "\<not> protocol_excluded cfg {} token"
    using that \<open>to_lower (hd xs) \<in> set xs\<close> assms(3) by (auto simp: protocol_excluded_def)
qed

text \<open>C27: Under \<open>NODE_ENV = "test"\<close> with the default \<open>TEST_MODE\<close>, every test of the
  suite passes, whatever the mock events' default timestamp, for any protocol constants
  whose first Venus and first Aave entry are written in lower case and which do not
  exclude the test token.\<close>

theorem test_suite_passes:
  assumes "node_env_test cfg" "\<not> test_mode_syncswap cfg" "\<not> protocol_excluded cfg {} token"
    and "venus_pools cfg \<noteq> []" "to_lower (hd (venus_pools cfg)) = hd (venus_pools cfg)"
    and "aave_pools cfg \<noteq> []" "to_lower (hd (aave_pools cfg)) = hd (aave_pools cfg)"
  shows "test_suite cfg ts0"
proof -
  have venus: "test_venus cfg ts0"
    using assms listed_lower_excluded [of "venus_pools cfg" cfg]
    by (simp add: test_venus_def test_no_balances_iff)
  have aave: "test_aave cfg ts0"
    using assms listed_lower_excluded [of "aave_pools cfg" cfg]
    by (simp add: test_aave_def test_no_balances_iff)
  have "to_lower (clagg_main cfg) \<noteq> to_lower token"
    using assms(3) by (auto simp: protocol_excluded_def)
  then have clagg: "test_clagg cfg ts0"
    using assms(1,2) by (simp add: test_clagg_def test_no_balances_iff protocol_excluded_def)
  have sync: "test_syncswap cfg ts0"
    using assms(1) by (simp add: test_syncswap_def test_no_balances_iff protocol_excluded_def
      router_defs eval_simps)
  show ?thesis
    using tests_basic [OF assms(1-3)] tests_historical [OF assms(1-3)] venus aave clagg sync
    by (simp add: test_suite_def)
qed

text \<open>C28: The Venus test passes exactly when the handler excludes the first Venus entry.
  An entry written with an upper-case hex digit, and not also listed in lower case, fails
  the test: the suite is the one place that would reveal such an entry.\<close>

theorem venus_test_detects_case:
  assumes "venus_pools cfg = v # vs" "node_env_test cfg" "\<not> test_mode_syncswap cfg"
    and "to_lower v \<noteq> to_lower token"
  shows "test_venus cfg ts0 \<longleftrightarrow> protocol_excluded cfg {} v"
  using assms by (simp add: test_venus_def test_no_balances_iff)

section \<open>Witnesses\<close>

theorem test_suite_passes_witness: "test_suite test_cfg 0"
  using test_suite_passes [of test_cfg 0]
  by (simp add: test_cfg_def prod_cfg_def protocol_excluded_def token_def eval_simps)

theorem venus_test_detects_case_witness:
  "\<not> test_venus (test_cfg\<lparr>venus_pools := [''0xVE1'']\<rparr>) 0"
  using venus_test_detects_case [of "test_cfg\<lparr>venus_pools := [''0xVE1'']\<rparr>" "''0xVE1''" "[]" 0]
  by (simp add: test_cfg_def prod_cfg_def protocol_excluded_def token_def eval_simps)

end
