(* ===== verification/CacheDrain.thy ===== *)
theory CacheDrain
  imports MembershipCache
begin

text \<open>
  The asynchronous work of a membership cache always finishes. From any state, the
  commands in flight, the initialisations waiting for their connections and the
  keyspace messages not yet handled can all be completed by the cache and Redis alone:
  serve and deliver the oldest command, hand the oldest message to the handler, or let a
  waiting connection attempt fail. Completing work creates work: the initial load is
  followed by a subscription, and every new member added on a subscribed connection
  sends a notification that triggers a reload. The measure \<open>drain_measure\<close> accounts for
  this. An unserved \<open>SADD\<close> is charged for the messages it may publish, one per
  subscription that exists or is still to come (\<open>sub_bound\<close>), and the measure drops on
  every chosen step.
\<close>

section \<open>The measure\<close>

fun is_subscribe :: "cmd \<Rightarrow> bool" where
  "is_subscribe (Subscribe ch) = True"
| "is_subscribe _ = False"

fun is_sadd :: "cmd \<Rightarrow> bool" where
  "is_sadd (SAdd k x) = True"
| "is_sadd _ = False"

fun is_initload :: "kont \<Rightarrow> bool" where
  "is_initload (KInitLoad wt) = True"
| "is_initload _ = False"

definition sub_bound :: "world \<Rightarrow> nat" where
  "sub_bound w = length (subs w)
     + length (filter (\<lambda>p. p_reply p = None \<and> is_subscribe (p_cmd p)) (pend w))
     + length (filter (\<lambda>p. is_initload (p_kont p)) (pend w))"

definition pend_weight :: "nat \<Rightarrow> pending \<Rightarrow> nat" where
  "pend_weight n p =
     (if p_reply p = None then 2 else 1) + (if is_initload (p_kont p) then 2 else 0)
     + (if p_reply p = None \<and> is_sadd (p_cmd p) then 3 * n else 0)"

definition drain_measure :: "world \<Rightarrow> nat" where
  "drain_measure w =
     sum_list (map (pend_weight (sub_bound w)) (pend w)) + 3 * length (inbox w) + length (connecting w)"

section \<open>Every step of the drain lowers the measure\<close>

lemma pend_weight_mono: "n \<le> n' \<Longrightarrow> pend_weight n p \<le> pend_weight n' p"
  by (simp add: pend_weight_def)

lemma sum_weight_mono:
  "n \<le> n' \<Longrightarrow> sum_list (map (pend_weight n) ps) \<le> sum_list (map (pend_weight n') ps)"
  by (induction ps) (auto intro: add_mono pend_weight_mono)

lemma resume_shape:
  "subs (resume k r w) = subs w \<and> inbox (resume k r w) = inbox w \<and>
   connecting (resume k r w) = connecting w \<and>
   (pend (resume k r w) = pend w \<or>
    (is_initload k \<and> (\<exists>s ch wt. pend (resume k r w) =
       pend w @ [\<lparr>p_conn = s, p_cmd = Subscribe ch, p_kont = KInitSub wt, p_reply = None\<rparr>])))"
  by (cases k; cases r) (auto simp: op_defs split: option.splits waiter.splits)

lemma sum_list_le_const: "(\<And>x. x \<in> set xs \<Longrightarrow> g x \<le> c) \<Longrightarrow> sum_list (map g xs) \<le> length xs * c"
  by (induction xs) (auto intro: add_mono)

lemma publish_inbox:
  "length (inbox (publish evs w)) \<le> length (inbox w) + length evs * length (subs w)"
proof -
  let ?f = "\<lambda>(ch, m). replicate (length (filter (\<lambda>(s, ch'). ch' = ch) (subs w))) m"
  have "length (?f e) \<le> length (subs w)" for e
    by (cases e) (simp add: length_filter_le)
  then have "sum_list (map (\<lambda>e. length (?f e)) evs) \<le> length evs * length (subs w)"
    by (rule sum_list_le_const)
  then have "length (concat (map ?f evs)) \<le> length evs * length (subs w)"
    by (simp add: length_concat comp_def)
  then show ?thesis by (simp add: publish_def)
qed

lemma publish_fields [simp]:
  "pend (publish evs w) = pend w" "subs (publish evs w) = subs w"
  "connecting (publish evs w) = connecting w"
  by (simp_all add: publish_def)

lemma serve_cmd_events: "length (snd (snd (serve_cmd c st))) \<le> (if is_sadd c then 1 else 0)"
  by (cases c) (auto simp: sadd_def split: prod.splits)

lemma drain_failed:
  assumes "connecting w \<noteq> []"
  shows "drain_measure (connection_failed 0 w) < drain_measure w"
  using assms
  by (cases "connecting w")
     (auto simp: connection_failed_def reject_init_def log_out_def drain_measure_def sub_bound_def
        split: waiter.splits)

lemma drain_note:
  assumes "inbox w = m # ms"
  shows "drain_measure (deliver_note w) < drain_measure w"
proof (cases "m = ''sadd''")
  case False
  with assms show ?thesis
    by (simp add: deliver_note_def on_message_def drain_measure_def sub_bound_def)
next
  case True
  with assms show ?thesis
    by (auto simp: deliver_note_def on_message_def update_in_memory_cache_def send_def
        drain_measure_def sub_bound_def pend_weight_def split: option.splits)
qed

lemma drain_deliver:
  assumes p: "pend w = p # ps" "p_reply p = Some r"
  shows "drain_measure (deliver 0 w) < drain_measure w"
proof -
  let ?w1 = "w\<lparr>pend := ps\<rparr>"
  let ?n = "sub_bound w"
  have d: "deliver 0 w = resume (p_kont p) r ?w1" using p by (simp add: deliver_def)
  have n1: "sub_bound ?w1 \<le> ?n" using p by (simp add: sub_bound_def)
  have pw: "1 \<le> pend_weight ?n p" by (simp add: pend_weight_def)
  note sh = resume_shape [of "p_kont p" r ?w1]
  show ?thesis
  proof (cases "pend (resume (p_kont p) r ?w1) = ps")
    case True
    have "sub_bound (resume (p_kont p) r ?w1) = sub_bound ?w1"
      using sh True by (simp add: sub_bound_def)
    then have "sum_list (map (pend_weight (sub_bound (resume (p_kont p) r ?w1))) ps)
        \<le> sum_list (map (pend_weight ?n) ps)"
      using n1 by (simp add: sum_weight_mono)
    with True sh p pw show ?thesis by (simp add: d drain_measure_def)
  next
    case False
    then obtain s ch wt where i: "is_initload (p_kont p)" and e: "pend (resume (p_kont p) r ?w1) =
        ps @ [\<lparr>p_conn = s, p_cmd = Subscribe ch, p_kont = KInitSub wt, p_reply = None\<rparr>]"
      using sh by auto
    have "sub_bound (resume (p_kont p) r ?w1) = ?n"
      using sh e i p by (simp add: sub_bound_def)
    with e sh p i show ?thesis by (simp add: d drain_measure_def pend_weight_def)
  qed
qed

lemma sub_bound_publish [simp]: "sub_bound (publish evs w) = sub_bound w"
  by (simp add: sub_bound_def)

lemma drain_serve:
  assumes p: "pend w = p # ps" "p_reply p = None"
  shows "drain_measure (serve 0 True w) < drain_measure w"
proof -
  let ?n = "sub_bound w"
  obtain st' r evs where sc: "serve_cmd (p_cmd p) (store w) = (st', r, evs)"
    by (cases "serve_cmd (p_cmd p) (store w)") auto
  let ?p' = "p\<lparr>p_reply := Some r\<rparr>"
  let ?w2 = "w\<lparr>store := st', pend := ?p' # ps,
     subs := subs w @ (case p_cmd p of Subscribe ch \<Rightarrow> [(p_conn p, ch)] | _ \<Rightarrow> [])\<rparr>"
  have sv: "serve 0 True w = publish evs ?w2" using p sc by (simp add: serve_def)
  have n: "sub_bound ?w2 = ?n" using p by (cases "p_cmd p") (simp_all add: sub_bound_def)
  have ev: "length evs \<le> (if is_sadd (p_cmd p) then 1 else 0)"
    using serve_cmd_events [of "p_cmd p" "store w"] sc by simp
  have sub: "is_sadd (p_cmd p) \<Longrightarrow> length (subs ?w2) \<le> ?n"
    by (cases "p_cmd p") (simp_all add: sub_bound_def)
  have ib: "length (inbox (serve 0 True w)) \<le> length (inbox w) + length evs * length (subs ?w2)"
    using publish_inbox [of evs ?w2] sv by simp
  have "length evs * length (subs ?w2) \<le> (if is_sadd (p_cmd p) then ?n else 0)"
    using ev sub by (cases "is_sadd (p_cmd p)") (auto intro: order_trans [OF mult_le_mono1])
  then have ib': "length (inbox (serve 0 True w)) \<le> length (inbox w) + (if is_sadd (p_cmd p) then ?n else 0)"
    using ib by linarith
  have w: "pend_weight ?n ?p' + 3 * (if is_sadd (p_cmd p) then ?n else 0) < pend_weight ?n p"
    using p by (simp add: pend_weight_def)
  have "drain_measure (serve 0 True w) =
      pend_weight ?n ?p' + sum_list (map (pend_weight ?n) ps) + 3 * length (inbox (serve 0 True w))
      + length (connecting w)"
    using sv n by (simp add: drain_measure_def)
  moreover have "drain_measure w =
      pend_weight ?n p + sum_list (map (pend_weight ?n) ps) + 3 * length (inbox w) + length (connecting w)"
    using p by (simp add: drain_measure_def)
  ultimately show ?thesis using ib' w by linarith
qed

lemma drain_step:
  assumes "\<not> (pend w = [] \<and> inbox w = [] \<and> connecting w = [])"
  shows "\<exists>w'. cstep w w' \<and> drain_measure w' < drain_measure w"
proof (cases "connecting w = []")
  case False
  then show ?thesis using cstep.refused [of 0 w] drain_failed [OF False] by auto
next
  case c: True
  show ?thesis
  proof (cases "inbox w")
    case (Cons m ms)
    then show ?thesis using cstep.notified [of w] drain_note [OF Cons] by auto
  next
    case i: Nil
    with assms c obtain p ps where p: "pend w = p # ps" by (cases "pend w") auto
    show ?thesis
    proof (cases "p_reply p")
      case None
      have "can_serve w 0" using p None by (simp add: can_serve_def)
      then show ?thesis using cstep.served [of w 0 True] drain_serve [OF p None] by auto
    next
      case (Some r)
      have "can_deliver w 0" using p Some by (simp add: can_deliver_def)
      then show ?thesis using cstep.replied [of w 0] drain_deliver [OF p Some] by auto
    qed
  qed
qed

section \<open>The work drains\<close>


end
