(* ===== verification/CachePhases.thy ===== *)
theory CachePhases
  imports CacheFifo CacheDrain
begin

text \<open>
  The state machine of section 4.1 of the spec and the code's place in it. The spec
  names four phases:
  \<^item> \<open>Uninitialized\<close>;
  \<^item> \<open>Connecting\<close>;
  \<^item> \<open>Ready\<close>: both connections open, the initial load done, the subscription
    active;
  \<^item> \<open>Degraded\<close>: an initialisation failed (section 7).

  It allows the edges \<open>Uninitialized \<rightarrow> Connecting \<rightarrow> Ready\<close> and
  \<open>Connecting \<rightarrow> Degraded\<close>, and nothing retries. The abstraction \<open>phase_of\<close> reads
  the phase off a world. The cache is \<open>Ready\<close> when it holds a command client and an
  active subscription. It is \<open>Connecting\<close> while an initialisation waits for its
  connections or for the reply to its load or its subscription. It is \<open>Degraded\<close>
  when an attempt has ended without a subscription: the connections failed, or they
  opened but the load or the subscription failed. Every step of the code is an edge of
  the spec's machine or a stutter, with exactly one exception. A bulk check on a cache
  whose connections failed starts a new initialisation, which takes \<open>Degraded\<close> back
  to \<open>Connecting\<close>.
\<close>

section \<open>The abstract machine and the abstraction\<close>

datatype phase = Uninitialized | Connecting | Ready | Degraded

fun is_init_kont :: "kont \<Rightarrow> bool" where
  "is_init_kont (KInitLoad wt) = True"
| "is_init_kont (KInitSub wt) = True"
| "is_init_kont _ = False"

fun init_failure :: "outcome \<Rightarrow> bool" where
  "init_failure InitFailed = True"
| "init_failure (BulkRejected xs) = True"
| "init_failure _ = False"

definition cache_ready :: "world \<Rightarrow> bool" where
  "cache_ready w \<longleftrightarrow> redis_command (cch w) \<noteq> None \<and> subs w \<noteq> []"

definition initializing :: "world \<Rightarrow> bool" where
  "initializing w \<longleftrightarrow> connecting w \<noteq> [] \<or> (\<exists>p \<in> set (pend w). is_init_kont (p_kont p))"

definition init_attempted :: "world \<Rightarrow> bool" where
  "init_attempted w \<longleftrightarrow> redis_command (cch w) \<noteq> None \<or> (\<exists>e \<in> set (out w). init_failure e)"

definition phase_of :: "world \<Rightarrow> phase" where
  "phase_of w =
     (if cache_ready w then Ready else if initializing w then Connecting
      else if init_attempted w then Degraded else Uninitialized)"

definition spec_phase_step :: "phase \<Rightarrow> phase \<Rightarrow> bool" where
  "spec_phase_step a b \<longleftrightarrow> a = b \<or> (a = Uninitialized \<and> b = Connecting) \<or>
     (a = Connecting \<and> b = Ready) \<or> (a = Connecting \<and> b = Degraded)"

text \<open>Before the command client exists nothing is in flight and nothing is subscribed.\<close>

definition unconnected_idle :: "world \<Rightarrow> bool" where
  "unconnected_idle w \<longleftrightarrow>
     (redis_command (cch w) = None \<longrightarrow> pend w = [] \<and> redis_sub (cch w) = None \<and> subs w = [])"

section \<open>Facts about single steps\<close>

lemma cstep_unconnected_idle: "cstep w w' \<Longrightarrow> unconnected_idle w \<Longrightarrow> unconnected_idle w'"
proof (induction rule: cstep.induct)
  case (notified w)
  then show ?case
    by (auto simp: unconnected_idle_def deliver_note_def on_message_def update_in_memory_cache_def
        send_def split: list.splits option.splits)
next
  case (replied w i)
  then show ?case by (auto simp: unconnected_idle_def can_deliver_def deliver_def split: option.splits)
next
  case (served w i ok)
  then show ?case
    by (auto simp: unconnected_idle_def can_serve_def serve_def Let_def split: prod.splits)
qed (auto simp: unconnected_idle_def op_defs Let_def split: option.splits waiter.splits prod.splits)

lemma reach_unconnected_idle: "reach w \<Longrightarrow> unconnected_idle w"
proof (induction rule: reach.induct)
  case (init k t st)
  then show ?case by (simp add: unconnected_idle_def new_cache_def initialize_def resolve_init_def)
next
  case (step w w')
  then show ?case using cstep_unconnected_idle by blast
qed

lemma resume_out: "\<exists>es. out (resume k r w) = out w @ es"
  by (cases k; cases r) (auto simp: op_defs split: option.splits waiter.splits)

lemma cstep_grows:
  "cstep w w' \<Longrightarrow>
     (redis_command (cch w) \<noteq> None \<longrightarrow> redis_command (cch w') \<noteq> None) \<and>
     set (subs w) \<subseteq> set (subs w') \<and> set (out w) \<subseteq> set (out w')"
proof (induction rule: cstep.induct)
  case (replied w i)
  then obtain r where r: "p_reply (pend w ! i) = Some r" by (auto simp: can_deliver_def)
  let ?w1 = "w\<lparr>pend := remove_at i (pend w)\<rparr>"
  have d: "deliver i w = resume (p_kont (pend w ! i)) r ?w1" using r by (simp add: deliver_def)
  obtain es where "out (resume (p_kont (pend w ! i)) r ?w1) = out w @ es"
    using resume_out [of "p_kont (pend w ! i)" r ?w1] by auto
  then show ?case using d resume_shape [of "p_kont (pend w ! i)" r ?w1] by auto
next
  case (notified w)
  then show ?case
    using resume_out [of KReload RError "w\<lparr>inbox := tl (inbox w)\<rparr>"]
    by (auto simp: deliver_note_def on_message_def update_in_memory_cache_def send_def
        split: list.splits option.splits)
next
  case (opened i w)
  then show ?case
    using resume_out [of "KInitLoad (connecting w ! i)" RError]
    by (auto simp: connections_opened_def Let_def update_in_memory_cache_def send_def)
qed (auto simp: op_defs Let_def split: option.splits waiter.splits prod.splits cmd.splits)

lemma cstep_new_sub:
  "cstep w w' \<Longrightarrow> subs w' = subs w \<or> (\<exists>p \<in> set (pend w). is_subscribe (p_cmd p))"
proof (induction rule: cstep.induct)
  case (served w i ok)
  then have m: "pend w ! i \<in> set (pend w)" by (simp add: can_serve_def)
  show ?case
    by (cases "p_cmd (pend w ! i)")
       (auto simp: serve_def Let_def split: prod.splits intro: bexI [OF _ m])
next
  case (replied w i)
  then obtain r where r: "p_reply (pend w ! i) = Some r" by (auto simp: can_deliver_def)
  show ?case
    using resume_shape [of "p_kont (pend w ! i)" r "w\<lparr>pend := remove_at i (pend w)\<rparr>"]
    by (simp add: deliver_def r)
next
  case (notified w)
  then show ?case
    by (auto simp: deliver_note_def on_message_def update_in_memory_cache_def send_def
        resume_shape split: list.splits option.splits)
next
  case (opened i w)
  then show ?case
    by (auto simp: connections_opened_def Let_def update_in_memory_cache_def send_def resume_shape)
qed (auto simp: op_defs Let_def split: option.splits waiter.splits prod.splits)

lemma subscribe_pending_is_init:
  "mirror_sound w \<Longrightarrow> p \<in> set (pend w) \<Longrightarrow> is_subscribe (p_cmd p) \<Longrightarrow> is_init_kont (p_kont p)"
  by (cases "p_kont p"; cases "p_cmd p") (auto simp: mirror_sound_def pending_ok_def)

lemma cstep_ready_new:
  assumes "reach w" "cstep w w'" "\<not> cache_ready w" "cache_ready w'"
  shows "initializing w"
proof (cases "subs w' = subs w")
  case True
  then have "subs w \<noteq> []" using assms(4) by (simp add: cache_ready_def)
  then have "redis_command (cch w) \<noteq> None"
    using reach_unconnected_idle [OF assms(1)] by (auto simp: unconnected_idle_def)
  with \<open>subs w \<noteq> []\<close> assms(3) show ?thesis by (simp add: cache_ready_def)
next
  case False
  then obtain p where "p \<in> set (pend w)" "is_subscribe (p_cmd p)" using cstep_new_sub [OF assms(2)] by blast
  then show ?thesis using subscribe_pending_is_init reach_mirror_sound [OF assms(1)]
    by (auto simp: initializing_def)
qed

lemma cstep_connect_fails:
  "cstep w w' \<Longrightarrow> pend w = [] \<Longrightarrow> redis_command (cch w) = None \<Longrightarrow> connecting w \<noteq> [] \<Longrightarrow>
     connecting w' = [] \<Longrightarrow> redis_command (cch w') = None \<Longrightarrow> \<exists>e \<in> set (out w'). init_failure e"
proof (induction rule: cstep.induct)
  case (bulk w addrs)
  then show ?case by (auto simp: op_defs split: if_splits)
next
  case (refused i w)
  then show ?case by (auto simp: connection_failed_def reject_init_def log_out_def split: waiter.splits)
next
  case (notified w)
  then show ?case
    by (auto simp: deliver_note_def on_message_def update_in_memory_cache_def split: list.splits)
qed (auto simp: op_defs Let_def can_serve_def can_deliver_def split: option.splits prod.splits)

lemma cstep_leave_init:
  assumes "reach w" "cstep w w'" "initializing w" "\<not> initializing w'"
  shows "init_attempted w'"
proof (cases "redis_command (cch w') = None")
  case False
  then show ?thesis by (simp add: init_attempted_def)
next
  case True
  then have n: "redis_command (cch w) = None" using cstep_grows [OF assms(2)] by auto
  then have "pend w = []" using reach_unconnected_idle [OF assms(1)] by (simp add: unconnected_idle_def)
  with assms(3) have "connecting w \<noteq> []" by (simp add: initializing_def)
  with \<open>pend w = []\<close> n True assms(2,4) show ?thesis
    using cstep_connect_fails by (auto simp: init_attempted_def initializing_def)
qed

lemma cstep_idle_start:
  "cstep w w' \<Longrightarrow> pend w = [] \<Longrightarrow> redis_command (cch w) = None \<Longrightarrow> connecting w = [] \<Longrightarrow>
     \<not> (\<exists>e \<in> set (out w). init_failure e) \<Longrightarrow> initializing w' \<or> \<not> init_attempted w'"
proof (induction rule: cstep.induct)
  case (notified w)
  then show ?case
    by (auto simp: deliver_note_def on_message_def update_in_memory_cache_def init_attempted_def
        split: list.splits)
qed (auto simp: op_defs Let_def can_serve_def can_deliver_def init_attempted_def initializing_def
      split: option.splits prod.splits waiter.splits)

section \<open>Refinement of the spec's state machine\<close>

text \<open>C24: Refinement of the state machine of section 4.1. Every step of the
  interleaving from a reachable state moves the abstract phase along an edge of the
  spec's machine (\<open>Uninitialized \<rightarrow> Connecting\<close>, \<open>Connecting \<rightarrow> Ready\<close>,
  \<open>Connecting \<rightarrow> Degraded\<close>) or leaves it unchanged, except that a degraded cache may
  go back to \<open>Connecting\<close>. In particular \<open>Ready\<close> is never left, and a cache never
  becomes ready without passing through \<open>Connecting\<close>.\<close>

theorem phase_refines_spec:
  assumes "reach w" "cstep w w'"
  shows "spec_phase_step (phase_of w) (phase_of w') \<or>
         (phase_of w = Degraded \<and> phase_of w' = Connecting)"
proof -
  note g = cstep_grows [OF assms(2)]
  have ready: "cache_ready w \<Longrightarrow> cache_ready w'" using g by (auto simp: cache_ready_def)
  have att: "init_attempted w \<Longrightarrow> init_attempted w'" using g by (auto simp: init_attempted_def)
  have new: "\<not> cache_ready w \<Longrightarrow> cache_ready w' \<Longrightarrow> initializing w"
    using cstep_ready_new [OF assms] by blast
  have leave: "initializing w \<Longrightarrow> \<not> initializing w' \<Longrightarrow> init_attempted w'"
    using cstep_leave_init [OF assms] by blast
  have start: "\<not> cache_ready w \<Longrightarrow> \<not> initializing w \<Longrightarrow> \<not> init_attempted w \<Longrightarrow>
      initializing w' \<or> \<not> init_attempted w'"
  proof -
    assume r: "\<not> cache_ready w" and i: "\<not> initializing w" and a: "\<not> init_attempted w"
    then have "redis_command (cch w) = None" by (simp add: init_attempted_def)
    then have "pend w = []" using reach_unconnected_idle [OF assms(1)] by (simp add: unconnected_idle_def)
    then show ?thesis using cstep_idle_start [OF assms(2)] i a
      by (simp add: initializing_def init_attempted_def)
  qed
  show ?thesis
    using ready att new leave start by (auto simp: phase_of_def spec_phase_step_def)
qed

text \<open>C25: The extra edge is taken. Section 7 of the spec says a connection failure
  leaves the cache \<open>Degraded\<close> and that nothing retries. In the code, a wallet cache
  whose constructor's connection attempt failed is \<open>Degraded\<close>, and the next
  \<open>bulkCheckClaveWallets\<close> finds \<open>redisCommand\<close> unset and starts a new
  initialisation, taking the cache back to \<open>Connecting\<close>.\<close>

theorem degraded_cache_retries:
  "reach (connection_failed 0 (wallet_cache False (\<lambda>k. {}))) \<and>
   cstep (connection_failed 0 (wallet_cache False (\<lambda>k. {})))
     (bulk_check [''0xaaa''] (connection_failed 0 (wallet_cache False (\<lambda>k. {})))) \<and>
   phase_of (connection_failed 0 (wallet_cache False (\<lambda>k. {}))) = Degraded \<and>
   phase_of (bulk_check [''0xaaa''] (connection_failed 0 (wallet_cache False (\<lambda>k. {})))) = Connecting"
proof -
  have r: "reach (connection_failed 0 (wallet_cache False (\<lambda>k. {})))"
    unfolding wallet_cache_def
    by (rule reach.step [OF reach.init cstep.refused]) (simp add: eval_simps)
  have p: "phase_of (connection_failed 0 (wallet_cache False (\<lambda>k. {}))) = Degraded \<and>
     phase_of (bulk_check [''0xaaa''] (connection_failed 0 (wallet_cache False (\<lambda>k. {})))) = Connecting"
    by (simp add: phase_of_def cache_ready_def initializing_def init_attempted_def wallet_cache_def
        eval_simps)
  show ?thesis using r p cstep.bulk by blast
qed

theorem phase_refines_spec_witness:
  "reach (wallet_cache False (\<lambda>k. {})) \<and>
   cstep (wallet_cache False (\<lambda>k. {})) (connections_opened 0 (wallet_cache False (\<lambda>k. {}))) \<and>
   spec_phase_step (phase_of (wallet_cache False (\<lambda>k. {})))
     (phase_of (connections_opened 0 (wallet_cache False (\<lambda>k. {})))) \<and>
   phase_of (connections_opened 0 (wallet_cache False (\<lambda>k. {}))) = Connecting"
proof -
  have r: "reach (wallet_cache False (\<lambda>k. {}))" unfolding wallet_cache_def by (rule reach.init)
  have s: "cstep (wallet_cache False (\<lambda>k. {})) (connections_opened 0 (wallet_cache False (\<lambda>k. {})))"
    by (rule cstep.opened) (simp add: wallet_cache_def eval_simps)
  have p: "phase_of (wallet_cache False (\<lambda>k. {})) = Connecting \<and>
      phase_of (connections_opened 0 (wallet_cache False (\<lambda>k. {}))) = Connecting"
    by (simp add: phase_of_def cache_ready_def initializing_def init_attempted_def wallet_cache_def
        eval_simps)
  have "spec_phase_step (phase_of (wallet_cache False (\<lambda>k. {})))
      (phase_of (connections_opened 0 (wallet_cache False (\<lambda>k. {})))) \<or>
    (phase_of (wallet_cache False (\<lambda>k. {})) = Degraded \<and>
     phase_of (connections_opened 0 (wallet_cache False (\<lambda>k. {}))) = Connecting)"
    by (rule phase_refines_spec [OF r s])
  with r s p show ?thesis by (simp add: spec_phase_step_def)
qed

end
