(* ===== verification/RpcClient.thy ===== *)
theory RpcClient
  imports Prelude
begin

text \<open>
  The blockchain RPC client of \<open>src/src/viem/Client.ts\<close>: two viem public clients for
  zkSync Era, and the choice between them on whether the environment variable
  \<open>ENVIO_FALLBACK_URL\<close> is defined. A transport is an \<open>http\<close> transport with its
  options, or a \<open>fallback\<close> over a list of \<open>http\<close> transports, which viem tries in
  order. The environment variable is an optional string: JavaScript's
  \<open>!== undefined\<close> treats any set value, the empty string included, as defined. No
  handler of the sources imports the client, so nothing else of the development
  depends on it.
\<close>

section \<open>Clients\<close>

text \<open>The options object passed to viem's \<open>http\<close>: an endpoint (\<open>None\<close> when the
  argument is \<open>undefined\<close>), JSON-RPC batching, and the retry policy.\<close>

record http_transport =
  url :: "string option"
  batch :: bool
  retry_count :: nat
  retry_delay :: nat

datatype transport = Http http_transport | Fallback "http_transport list"

record public_client =
  chain :: string
  transport :: transport
  multicall :: bool

definition zksync_mainnet_url :: string where
  "zksync_mainnet_url = ''https://mainnet.era.zksync.io''"

definition rpc_http :: "string option \<Rightarrow> http_transport" where
  "rpc_http u = \<lparr>url = u, batch = True, retry_count = 10, retry_delay = 150\<rparr>"

definition fallback_defined :: "string option \<Rightarrow> bool" where
  "fallback_defined env \<longleftrightarrow> env \<noteq> None"

definition client1 :: public_client where
  "client1 = \<lparr>chain = ''zksync'', transport = Http (rpc_http (Some zksync_mainnet_url)),
     multicall = True\<rparr>"

definition client2 :: "string option \<Rightarrow> public_client" where
  "client2 env = \<lparr>chain = ''zksync'',
     transport = Fallback [rpc_http env, rpc_http (Some zksync_mainnet_url)], multicall = True\<rparr>"

definition client :: "string option \<Rightarrow> public_client" where
  "client env = (if fallback_defined env then client2 env else client1)"

text \<open>The \<open>http\<close> transports a request may go through, in the order viem tries them.\<close>

fun transports :: "transport \<Rightarrow> http_transport list" where
  "transports (Http h) = [h]"
| "transports (Fallback hs) = hs"

end
