(* ===== verification/RedisConfig.thy ===== *)
theory RedisConfig
  imports Prelude
begin

text \<open>
  The options \<open>initialize\<close> passes to \<open>getRedisInstance\<close> for its two connections
  (\<open>src/src/utils/WalletCache.ts\<close> lines 49--65, the same lines in \<open>SyncswapCache.ts\<close>).
  Each option is read from the process environment with a hard-coded fallback through
  JavaScript's \<open>||\<close>, which falls back on \<open>undefined\<close> and on the empty string alike;
  the port goes through ECMAScript \<open>parseInt\<close>, which skips leading white space, takes an
  optional sign and an optional \<open>0x\<close> prefix, reads the longest digit prefix and yields
  \<open>NaN\<close> (here \<open>None\<close>) when there is none. The environment is a partial map from
  variable names to strings.
\<close>

type_synonym env = "string \<Rightarrow> string option"

section \<open>ECMAScript parseInt (radix undefined)\<close>

definition js_space :: "char \<Rightarrow> bool" where
  "js_space c \<longleftrightarrow> c \<in> set [CHR '' '', CHR 0x09, CHR 0x0A, CHR 0x0B, CHR 0x0C, CHR 0x0D]"

text \<open>The value of a character as a digit of radix \<open>r\<close> (2 to 36): \<open>0-9\<close>, then
  \<open>a-z\<close> and \<open>A-Z\<close> from 10.\<close>

definition digit_of :: "nat \<Rightarrow> char \<Rightarrow> nat option" where
  "digit_of r c =
     (let n = (of_char c :: nat);
          v = (if 48 \<le> n \<and> n \<le> 57 then Some (n - 48)
               else if 97 \<le> n \<and> n \<le> 122 then Some (n - 87)
               else if 65 \<le> n \<and> n \<le> 90 then Some (n - 55) else None)
      in case v of Some d \<Rightarrow> if d < r then Some d else None | None \<Rightarrow> None)"

text \<open>The digits of the longest prefix that consists of radix-\<open>r\<close> digits.\<close>

fun digits_prefix :: "nat \<Rightarrow> string \<Rightarrow> nat list" where
  "digits_prefix r [] = []"
| "digits_prefix r (c # cs) = (case digit_of r c of None \<Rightarrow> [] | Some d \<Rightarrow> d # digits_prefix r cs)"

definition digits_value :: "nat \<Rightarrow> nat list \<Rightarrow> nat" where
  "digits_value r ds = foldl (\<lambda>acc d. r * acc + d) 0 ds"

definition strip_sign :: "string \<Rightarrow> int \<times> string" where
  "strip_sign s =
     (if s \<noteq> [] \<and> hd s = CHR ''-'' then (-1, tl s)
      else if s \<noteq> [] \<and> hd s = CHR ''+'' then (1, tl s) else (1, s))"

definition strip_radix :: "string \<Rightarrow> nat \<times> string" where
  "strip_radix s =
     (if take 2 s = ''0x'' \<or> take 2 s = ''0X'' then (16, drop 2 s) else (10, s))"

definition js_parse_int :: "string \<Rightarrow> int option" where
  "js_parse_int s =
     (let (sign, s1) = strip_sign (dropWhile js_space s);
          (r, s2) = strip_radix s1;
          ds = digits_prefix r s2
      in if ds = [] then None else Some (sign * int (digits_value r ds)))"

section \<open>The connection options\<close>

text \<open>\<open>process.env.X || d\<close> on a string-valued variable.\<close>

definition js_or :: "string option \<Rightarrow> string \<Rightarrow> string" where
  "js_or v d = (case v of Some s \<Rightarrow> if s = [] then d else s | None \<Rightarrow> d)"

text \<open>The options object of \<open>getRedisInstance\<close>; \<open>notifyKeyspaceEvents\<close> absent is
  \<open>False\<close>.\<close>

record redis_options =
  r_host :: string
  r_port :: "int option"
  r_username :: string
  r_password :: string
  r_notify_keyspace_events :: bool

definition command_client_options :: "env \<Rightarrow> redis_options" where
  "command_client_options env =
     \<lparr>r_host = js_or (env ''ENVIO_REDIS_HOST'')
        ''redis-12945.c300.eu-central-1-1.ec2.redns.redis-cloud.com'',
      r_port = js_parse_int (js_or (env ''ENVIO_REDIS_PORT'') ''12945''),
      r_username = js_or (env ''ENVIO_REDIS_USERNAME'') ''default'',
      r_password = js_or (env ''ENVIO_REDIS_PASSWORD'') ''YPbmBSP7lBumkk4oL6djJH4tfowkpDNo'',
      r_notify_keyspace_events = True\<rparr>"

definition sub_client_options :: "env \<Rightarrow> redis_options" where
  "sub_client_options env =
     \<lparr>r_host = js_or (env ''ENVIO_REDIS_HOST'')
        ''redis-12945.c300.eu-central-1-1.ec2.redns.redis-cloud.com'',
      r_port = js_parse_int (js_or (env ''ENVIO_REDIS_PORT'') ''12945''),
      r_username = js_or (env ''ENVIO_REDIS_USERNAME'') ''default'',
      r_password = js_or (env ''ENVIO_REDIS_PASSWORD'') ''YPbmBSP7lBumkk4oL6djJH4tfowkpDNo'',
      r_notify_keyspace_events = False\<rparr>"

declare js_space_def [eval_simps] digit_of_def [eval_simps] digits_value_def [eval_simps]
  strip_sign_def [eval_simps] strip_radix_def [eval_simps] js_parse_int_def [eval_simps]
  js_or_def [eval_simps]

end
