(* ===== verification/BulkQuery.thy ===== *)
theory BulkQuery
  imports CacheSafety
begin

text \<open>
  The \<open>try\<close>/\<open>catch\<close> of \<open>bulkCheckClaveWallets\<close> (\<open>src/src/utils/WalletCache.ts\<close>
  lines 120--135, the same in \<open>bulkCheckSyncswapPools\<close>). The cache model of
  \<open>MembershipCache\<close> takes the queried addresses as strings, as the TypeScript type
  says; at run time the array may hold any JavaScript value, and
  \<open>addr.toLowerCase()\<close> throws a \<open>TypeError\<close> on \<open>undefined\<close>, \<open>null\<close> or a number.
  The \<open>map\<close> over the array throws at the first such value, before any membership test;
  the \<open>catch\<close> logs and answers the empty set. The flag of \<open>bulk_try\<close> records that
  the \<open>catch\<close> ran.
\<close>

datatype jsval = JStr string | JUndefined | JNull | JNum int

text \<open>\<open>addr.toLowerCase()\<close>: \<open>None\<close> is the thrown \<open>TypeError\<close>.\<close>

fun js_to_lower :: "jsval \<Rightarrow> string option" where
  "js_to_lower (JStr s) = Some (to_lower s)"
| "js_to_lower JUndefined = None"
| "js_to_lower JNull = None"
| "js_to_lower (JNum n) = None"

definition bulk_try :: "addr set \<Rightarrow> jsval list \<Rightarrow> addr set \<times> bool" where
  "bulk_try mem addresses =
     (case those (map js_to_lower addresses) of
        Some lowercase_addresses \<Rightarrow> (bulk_loop mem lowercase_addresses {}, False)
      | None \<Rightarrow> ({}, True))"

lemma those_map_str: "those (map js_to_lower (map JStr ss)) = Some (map to_lower ss)"
  by (induction ss) auto

lemma those_map_throw:
  "js_to_lower x = None \<Longrightarrow> those (map js_to_lower (map JStr ss @ x # xs)) = None"
  by (induction ss) auto

text \<open>C30: The bulk query fails open. On an array of strings the \<open>try\<close> block answers
  what the cache model's \<open>bulk_result\<close> answers and the \<open>catch\<close> does not run. One
  value that is not a string, anywhere in the array, makes \<open>toLowerCase\<close> throw; the
  \<open>catch\<close> runs and the answer is the empty set, even for members queried before it,
  as section 7 of the spec requires of a query failure.\<close>

theorem bulk_query_fails_open:
  "bulk_try mem (map JStr ss) = (bulk_result mem ss, False) \<and>
   bulk_try mem (map JStr ss @ JUndefined # xs) = ({}, True) \<and>
   bulk_try mem (map JStr ss @ JNull # xs) = ({}, True) \<and>
   bulk_try mem (map JStr ss @ JNum n # xs) = ({}, True)"
  unfolding bulk_try_def
  by (simp only: those_map_str those_map_throw js_to_lower.simps) (simp add: bulk_result_def)

end
