(* ===== verification/Spec2Isabelle.thy ===== *)
theory Spec2Isabelle
  imports CacheRuns TestSuite CacheDrain CachePhases RpcClient RedisConfig BulkQuery
begin

text \<open>
  \<^bold>\<open>A verification development of the Clave ERC20 indexer (envio-erc20).\<close>

  \<^medskip>
  \<^bold>\<open>The program.\<close> The indexer handles every ERC20 \<open>Transfer\<close> event in
  \<open>src/src/ERC20Handler.ts\<close>. A loader pre-fetches the two idle balances and accounts of
  the event's parties. It also asks two membership caches whether the parties are Clave
  wallets and whether the token contract is a Syncswap pool. The handler then filters the
  event and keeps idle balances and four kinds of time-bucketed balance snapshots. The caches
  are \<open>src/src/utils/WalletCache.ts\<close> (key \<open>clave:wallets\<close>) and
  \<open>src/src/utils/SyncswapCache.ts\<close> (key \<open>syncswap:pools\<close>). Each mirrors a Redis
  set in process memory. It loads the set on start, reloads it on every keyspace
  notification \<open>sadd\<close> for its key, and serves bulk queries from the mirror;
  \<open>SyncswapCache.addPool\<close> also adds to the remote set and then to the mirror.
  \<open>src/src/viem/Client.ts\<close> only builds an RPC client, which no handler imports.

  \<^medskip>
  \<^bold>\<open>The theories.\<close>
  \<^item> \<open>Prelude\<close>: shared types (\<open>addr\<close>, \<open>conn\<close>), JavaScript's
    \<open>toLowerCase\<close> on ASCII (\<open>to_lower\<close>), decimal printing of numbers
    (\<open>dec_string\<close>, proved injective by a parse/print round trip), list lemmas, and the
    collection \<open>eval_simps\<close> that lets \<open>simp\<close> evaluate concrete runs.
  \<^item> \<open>RedisStore\<close>: the Redis commands the caches use (\<open>SMEMBERS\<close>, \<open>SADD\<close>,
    \<open>SUBSCRIBE\<close>) and keyspace events. Redis is not in the sources, so this part is
    modelled from section 6 of the spec and Redis's documented semantics.
  \<^item> \<open>MembershipCache\<close>: one model of both cache classes. The \<open>cache\<close> record has
    the class fields \<open>cacheKey\<close>, \<open>redisCommand\<close>, \<open>redisSub\<close> and \<open>inMemoryCache\<close>.
    A \<open>world\<close> adds the remote store, the commands in flight with their continuations,
    pending initialisations and undelivered messages. One definition covers each piece of
    code between two \<open>await\<close>s:
    \<^item> the constructor is \<open>new_cache\<close>, \<open>wallet_cache\<close> or \<open>syncswap_cache\<close>;
    \<^item> \<open>initialize\<close>; \<open>connections_opened\<close> and \<open>connection_failed\<close> are the two ways
      its connection promises settle;
    \<^item> \<open>update_in_memory_cache\<close> and \<open>subscribe_to_set_operations\<close>;
    \<^item> the message handler is \<open>on_message\<close>, \<open>addPool\<close> is \<open>add_pool\<close>, and the
      bulk query is \<open>bulk_check\<close>, whose loop is \<open>bulk_loop\<close>;
    \<^item> \<open>resume\<close> is the code after each \<open>await\<close> on a Redis reply.

    The inductive relation \<open>cstep\<close> interleaves these steps with:
    \<^item> Redis serving commands in order on each connection;
    \<^item> replies delivered in order;
    \<^item> notifications delivered;
    \<^item> other clients' additions.

    \<open>reach\<close> is the set of reachable worlds.
  \<^item> \<open>CacheSafety\<close>: the invariant \<open>mirror_sound\<close>: the mirror and every reply in flight
    hold only remote members. It is preserved by every step (C1). The bulk query returns
    the lower-cased queried members of the mirror (C15).
  \<^item> \<open>CacheFifo\<close>: the first-in-first-out invariant \<open>fifo_inv\<close> of the command
    connection. Under it, the mirror never shrinks (C6) and a pool added by \<open>addPool\<close>
    stays visible (C7).
  \<^item> \<open>CacheAnswers\<close>: what the cache promises its callers.
    \<^item> Every answer a bulk check has returned holds only remote members among the addresses
      asked for (C16).
    \<^item> Under the test flag the cache never talks to Redis (C17).
    \<^item> A notification \<open>sadd\<close> among any other messages makes the next reload bring the
      mirror to exactly the remote set (C18).
    \<^item> When the connections open and Redis answers, initialisation completes in five
      steps (C22).
  \<^item> \<open>BulkQuery\<close>: the \<open>try\<close>/\<open>catch\<close> of the bulk query over untyped
    JavaScript values (\<open>jsval\<close>, \<open>bulk_try\<close>). On strings it answers what
    \<open>bulk_result\<close> answers; one value \<open>toLowerCase\<close> cannot handle makes it answer the
    empty set (C30), unlike a failed initialisation, which escapes the \<open>try\<close> (C5).
  \<^item> \<open>CacheDrain\<close>: termination of the cache's asynchronous work. From any state,
    everything in flight completes in finitely many steps (C23). The well-founded measure
    \<open>drain_measure\<close> charges each unserved \<open>SADD\<close> for the notifications it may
    publish.
  \<^item> \<open>CachePhases\<close>: the state machine of section 4.1 of the spec (\<open>Uninitialized\<close>,
    \<open>Connecting\<close>, \<open>Ready\<close>, \<open>Degraded\<close>) and the abstraction \<open>phase_of\<close>. Every step
    refines an edge of that machine or stutters, apart from one edge the spec excludes
    (C24). The cache takes that edge: a bulk check after a failed connection retries the
    initialisation (C25).
  \<^item> \<open>CacheRuns\<close>: concrete interleavings that show what the code gets wrong:
    \<^item> the initialisation race issues two full loads (C2);
    \<^item> with two initialisations, a stale reload erases a pool \<open>addPool\<close> added (C3);
    \<^item> a member added between the initial load and the subscription is missed (C4);
    \<^item> a bulk check rejects instead of answering empty when a connection fails (C5).
  \<^item> \<open>Ledger\<close>: the entities (\<open>Account\<close>, \<open>AccountIdleBalance\<close>, the four
    snapshot tables), the \<open>Transfer\<close> event, the entity writes, \<open>previousBalance\<close>
    and \<open>setHistoricalBalance\<close> (\<open>set_historical_balance\<close>) with its time buckets. It
    proves that snapshot ids are one per bucket (C13).
  \<^item> \<open>TransferRouter\<close>: the loader (\<open>loader\<close>), the handler (\<open>erc20_handler\<close>, its
    protocol early returns in \<open>protocol_excluded\<close>), \<open>PlainTransferHandler\<close>
    (\<open>plain_transfer_handler\<close>), and the event stream (\<open>process_events\<close>). The
    entity store is the \<open>ledger\<close> record of maps of \<open>Ledger\<close>. The caches enter through the interface
    \<open>bulk_check_fn\<close>: a query resolves to a set or rejects. Its lemmas show:
    \<^item> debit and credit, with every other balance unchanged (C8);
    \<^item> the mixed-case self-transfer that mints value (C9);
    \<^item> the protocol exclusions (C10) and the snapshot contents (C11);
    \<^item> well-formedness of the entity store over any stream (C12);
    \<^item> lower-case normal form of every entity id over any stream (C20);
    \<^item> the write-then-read round trip between the handler and the loader (C21);
    \<^item> test mode, which books both parties of every transfer (C26);
    \<^item> refinement of the idle balances by abstract double-entry bookkeeping
      (\<open>ledger_delta\<close>) over any stream (C19).
  \<^item> \<open>RouterRuns\<close>: the fixtures of \<open>src/test/test.ts\<close> and the witnesses
    of the router theorems. \<open>CacheRuns\<close> also holds the witnesses of the cache theorems.
  \<^item> \<open>TestSuite\<close>: every \<open>it\<close> block of \<open>src/test/test.ts\<close> as a boolean
    (\<open>test_two_users\<close> to \<open>test_different_hours\<close>, together \<open>test_suite\<close>), over the
    router model with the empty answers of the test-mode caches. The whole suite passes for
    any protocol constants that list their first Venus and Aave entries in lower case and
    do not exclude the test token (C27). The Venus test passes exactly when the handler
    excludes the first Venus entry, so it fails on an entry written in checksum case (C28).
  \<^item> \<open>RpcClient\<close>: the two viem clients of \<open>Client.ts\<close> and the choice on
    \<open>ENVIO_FALLBACK_URL\<close>. No handler imports the client, so it carries no property
    of its own.
  \<^item> \<open>RedisConfig\<close>: the options \<open>initialize\<close> gives its two Redis connections
    (\<open>command_client_options\<close>, \<open>sub_client_options\<close>), read from the environment
    through JavaScript's \<open>||\<close> (\<open>js_or\<close>) and, for the port, ECMAScript \<open>parseInt\<close>
    (\<open>js_parse_int\<close>). The definitions record the configuration the cache connects
    with; what they compute is read off the definitions, so no property is stated on them.
  \<^item> This theory: the two components together.
    \<^item> The wallet query is answered by a reachable cache from its mirror. Then every
      idle balance a processed event writes belongs to an address of the remote wallet
      set (C14).
    \<^item> Caches built under the test flag answer every bulk check with the empty set, so
      the router run on them is the run of the test harness of \<open>TestSuite\<close> (C29).

  \<^medskip>
  \<^bold>\<open>Conditions and bounds.\<close> No definition needs fuel. Every loop is structural
  recursion, and the asynchronous code is a relation, so a run is a finite sequence of
  steps. That the awaits in flight always finish is a theorem (C23), not an assumption.

  C6 and C7 assume \<open>next_conn \<le> 2\<close>: only one initialisation has opened its pair of
  connections. With two, full loads and \<open>sAdd\<close> calls travel on two command
  connections whose replies are not ordered with respect to each other. C3 shows that a
  stale reply can then remove a member. C2 shows that the code does reach that case.

  Timestamps are natural numbers, and balances and values are unbounded integers, as
  JavaScript's \<open>bigint\<close> is.

  \<^medskip>
  \<^bold>\<open>Assumptions taken from outside the sources.\<close>
  \<^item> \<open>roundTimestamp\<close> (\<open>src/utils/helpers.ts\<close>, not in the sources) rounds down
    to a multiple of the period; its default period is taken to be one day.
  \<^item> The Clagg, Venus and Aave addresses are configuration parameters (\<open>router_cfg\<close>).
    The lists of \<open>src/constants/\<close> are not in the sources, so no theorem can rely on
    their contents; C27 and C28 state what the suite needs of them.
  \<^item> The Envio entity store is a map per entity; a \<open>set\<close> replaces the entity with
    that id.

  \<^medskip>
  \<^bold>\<open>Not modelled.\<close>
  \<^item> viem itself: how its transports send, batch and retry requests;
  \<^item> the generated Envio bindings and event decoding;
  \<^item> logging (\<open>console.log\<close> and \<open>console.error\<close>), apart from the recorded
    outcomes of the cache and the flag of \<open>bulk_try\<close>;
  \<^item> Redis connection pooling, authentication and \<open>getRedisInstance\<close> itself
    (\<open>src/utils/Redis.ts\<close> is not in the sources); only the options passed to it are;
  \<^item> \<open>parseInt\<close> on non-ASCII white space, and its loss of precision above
    \<open>2^53\<close> (the model reads digits exactly);
  \<^item> the Envio mock store and \<open>createMockEvent\<close>, beyond the store and event records
    the test suite is written over; the mock addresses and the token id are stand-ins.

  The two components marked partly modelled cannot be completed from the sources: the
  Redis client factory (\<open>src/utils/Redis.ts\<close>), \<open>roundTimestamp\<close>
  (\<open>src/utils/helpers.ts\<close>) and the protocol address lists (\<open>src/constants/\<close>)
  are imported by the code but not part of it. They are modelled from the spec and Redis's
  documented semantics, or kept as parameters, as far as the code's use of them goes.
\<close>

definition ev_w :: transfer where
  "ev_w = xfer ''0xAAA'' user2 token 3 1000"

definition wallets_of :: "world \<Rightarrow> bulk_check_fn" where
  "wallets_of w xs = Some (bulk_result (in_memory_cache (cch w)) xs)"

definition db_w :: ledger where
  "db_w = the (process_event prod_cfg (wallets_of ready_a) no_members ev_w empty_ledger)"

text \<open>C14: In production mode, let the router's wallet query be answered by a reachable
  wallet cache from its mirror, as \<open>bulkCheckClaveWallets\<close> does once the cache is
  ready. Then every idle balance that a processed event creates or changes belongs to an
  address in the remote wallet set: the ledger only tracks Clave wallets.\<close>

theorem router_rows_are_remote_wallets:
  assumes "reach w" "\<not> node_env_test cfg"
    "process_event cfg (wallets_of w) pools ev db = Some db'"
    "idle_tbl db' k = Some r" "idle_tbl db k \<noteq> Some r"
  shows "ib_address r \<in> store w (cache_key (cch w))"
proof -
  obtain lr where l: "loader (wallets_of w) pools db ev = Some lr"
    and d: "db' = erc20_handler cfg ev lr db"
    using assms(3) by (auto simp: process_event_def split: option.splits)
  have "clave_addresses lr \<subseteq> in_memory_cache (cch w)"
    using loader_Some [OF l] bulk_result_subset by (auto simp: wallets_of_def)
  moreover have "in_memory_cache (cch w) \<subseteq> store w (cache_key (cch w))"
    using reach_mirror_sound [OF assms(1)] by (simp add: mirror_sound_def)
  moreover have "ib_address r \<in> clave_addresses lr"
    using handler_new_rows_clave [OF assms(2)] assms(4,5) d by simp
  ultimately show ?thesis by blast
qed

theorem router_rows_are_remote_wallets_witness:
  "reach ready_a \<and> \<not> node_env_test prod_cfg \<and>
   process_event prod_cfg (wallets_of ready_a) no_members ev_w empty_ledger = Some db_w \<and>
   idle_tbl db_w ''0xaaa0xt0'' = Some \<lparr>ib_id = ''0xaaa0xt0'', ib_balance = -3,
     ib_address = ''0xaaa'', ib_token = ''0xt0''\<rparr> \<and>
   idle_tbl empty_ledger ''0xaaa0xt0'' \<noteq> Some \<lparr>ib_id = ''0xaaa0xt0'', ib_balance = -3,
     ib_address = ''0xaaa'', ib_token = ''0xt0''\<rparr> \<and>
   ''0xaaa'' \<in> store ready_a (cache_key (cch ready_a))"
proof -
  have p: "process_event prod_cfg (wallets_of ready_a) no_members ev_w empty_ledger = Some db_w"
    by (simp add: db_w_def ev_w_def wallets_of_def ready_a_mirror router_defs eval_simps)
  have i: "idle_tbl db_w ''0xaaa0xt0'' = Some \<lparr>ib_id = ''0xaaa0xt0'', ib_balance = -3,
     ib_address = ''0xaaa'', ib_token = ''0xt0''\<rparr>"
    by (simp add: db_w_def ev_w_def wallets_of_def ready_a_mirror router_defs eval_simps)
  have e: "idle_tbl empty_ledger ''0xaaa0xt0'' \<noteq> Some \<lparr>ib_id = ''0xaaa0xt0'', ib_balance = -3,
     ib_address = ''0xaaa'', ib_token = ''0xt0''\<rparr>"
    by (simp add: empty_ledger_def)
  have n: "\<not> node_env_test prod_cfg" by (simp add: prod_cfg_def)
  show ?thesis
    using router_rows_are_remote_wallets [OF reach_ready_a n p i e] reach_ready_a n p i e
    by simp
qed

text \<open>C29: The test harness agrees with the cache model. A cache built under
  \<open>NODE_ENV = "test"\<close> answers every bulk check, from any reachable state, at once with
  the empty set and without touching Redis. Any event stream processed with two such
  caches as the wallet and the pool query therefore gives exactly what the harness of
  \<open>TestSuite\<close>, which answers every query with the empty set, computes.\<close>

theorem test_caches_answer_empty:
  assumes "reach w1" "node_test w1" "reach w2" "node_test w2"
  shows "bulk_check addrs w1 = w1\<lparr>out := out w1 @ [BulkReturned addrs {}]\<rparr> \<and>
         bulk_check addrs w2 = w2\<lparr>out := out w2 @ [BulkReturned addrs {}]\<rparr> \<and>
         process_events cfg (wallets_of w1) (wallets_of w2) evs db =
           process_events cfg no_members no_members evs db"
proof -
  have q: "redis_command (cch w) = None \<and> in_memory_cache (cch w) = {}"
    if "reach w" "node_test w" for w
    using reach_test_quiet [OF that(1)] that(2) by (simp add: test_quiet_def)
  have e: "bulk_result {} xs = {}" for xs using bulk_result_subset [of "{}" xs] by blast
  have b: "bulk_check addrs w = w\<lparr>out := out w @ [BulkReturned addrs {}]\<rparr>"
    if "reach w" "node_test w" for w
    using q [OF that] that(2) e
    by (simp add: bulk_check_def initialize_def resolve_init_def bulk_return_def log_out_def)
  have "wallets_of w = no_members" if "reach w" "node_test w" for w
    using q [OF that] e by (simp add: wallets_of_def no_members_def fun_eq_iff)
  with b assms show ?thesis by simp
qed

theorem test_caches_answer_empty_witness:
  "bulk_check [user1] quiet_a = quiet_a\<lparr>out := out quiet_a @ [BulkReturned [user1] {}]\<rparr> \<and>
   process_events test_cfg (wallets_of (wallet_cache True (\<lambda>k. {}))) (wallets_of quiet_a)
     [ev_a] db0 = process_events test_cfg no_members no_members [ev_a] db0"
proof -
  have r: "reach (wallet_cache True (\<lambda>k. {}))" by (simp add: wallet_cache_def reach.init)
  have t: "node_test (wallet_cache True (\<lambda>k. {}))" "node_test quiet_a"
    by (simp_all add: wallet_cache_def new_cache_def quiet_a_def syncswap_cache_def eval_simps)
  show ?thesis
    using test_caches_answer_empty [OF r t(1) reach_quiet_a t(2), of "[user1]" test_cfg "[ev_a]" db0]
    by simp
qed

end
